(* ===== verification/Lima_Prelude.thy ===== *)
theory Lima_Prelude
  imports Main "HOL-Library.Word" "HOL-Library.Monad_Syntax"
begin

text \<open>
  What every component shares: the machine integers of the driver, its error codes, the
  return convention of its \<open>int\<close> functions, page arithmetic on addresses, and the
  generic facts about words and loops that the component theories use.

  A C function that returns \<open>0\<close> or \<open>-Exxx\<close> returns an \<open>rc\<close>: \<open>OK\<close> or
  \<open>E\<close> of an error code. A C function that returns a pointer or \<open>ERR_PTR(-Exxx)\<close> returns
  a sum, \<open>Inl\<close> of the error. Where the C code can fail to return at all (a kernel fault on a
  null pointer, an endless loop) the model returns an \<open>option\<close>, and \<open>None\<close> is
  ``does not return''.
\<close>

unbundle bit_operations_syntax

section \<open>Machine integers and error codes\<close>

type_synonym u8 = "8 word"
type_synonym u16 = "16 word"
type_synonym u32 = "32 word"
type_synonym u64 = "64 word"

datatype errno =
    ENOENT | EINTR | EIO | ENXIO | ENOMEM | EFAULT | EBUSY | ENODEV | EINVAL
  | ENOSPC | ERANGE | ETIMEDOUT | ETIME | EPROBE_DEFER | EALREADY | EOPNOTSUPP
  | EOTHER int \<comment> \<open>any other code handed through from code outside the repository\<close>

datatype rc = OK | E errno

lemma rc_not_E [simp]: "(\<forall>e. r \<noteq> E e) \<longleftrightarrow> r = OK"
  by (cases r) simp_all

definition rc_of_sum :: "errno + 'a \<Rightarrow> rc" where
  "rc_of_sum r = (case r of Inl e \<Rightarrow> E e | Inr _ \<Rightarrow> OK)"

lemma rc_of_sum_simps [simp]:
  "rc_of_sum (Inl e) = E e"
  "rc_of_sum (Inr x) = OK"
  by (simp_all add: rc_of_sum_def)

named_theorems regs "values of the hardware constants"
named_theorems lima_defs "definitions of straight-line steps, unfolded by component proofs"

section \<open>Pages\<close>

text \<open>
  FreeBSD/arm64 and the Mali MMU both use 4 KiB pages (\<open>PAGE_SHIFT\<close>, \<open>LIMA_PAGE_SIZE\<close>).
\<close>

definition PAGE_SHIFT :: nat where "PAGE_SHIFT = 12"
definition PAGE_SIZE :: u64 where "PAGE_SIZE = 4096"
definition UINT32_MAX :: u64 where "UINT32_MAX = 0xFFFFFFFF"

lemma PAGE_SHIFT_val [regs]: "PAGE_SHIFT = 12"
  by (simp add: PAGE_SHIFT_def)

lemma PAGE_SIZE_val [regs]: "PAGE_SIZE = 4096"
  by (simp add: PAGE_SIZE_def)

lemma UINT32_MAX_val [regs]: "UINT32_MAX = 0xFFFFFFFF"
  by (simp add: UINT32_MAX_def)

section \<open>Facts about words\<close>

lemma unat_drop_bit_word: "unat (drop_bit n (w :: 'a::len word)) = unat w div 2 ^ n"
proof -
  have "unat (drop_bit n w) = drop_bit n (unat w)"
    by (rule unat_drop_bit_eq)
  then show ?thesis by (metis drop_bit_eq_div)
qed

lemma unat_and_mask_word: "unat (w AND mask n) = unat (w :: 'a::len word) mod 2 ^ n"
proof -
  have "unat (take_bit n w) = take_bit n (unat w)"
    by (rule unsigned_take_bit_eq)
  then show ?thesis by (metis take_bit_eq_mask take_bit_eq_mod)
qed

lemma unat_add_no_wrap32:
  "unat (a :: u32) + unat b < 2 ^ 32 \<Longrightarrow> unat (a + b) = unat a + unat b"
  by (simp add: unat_word_ariths)

lemma unat_add_no_wrap64:
  "unat (a :: u64) + unat b < 2 ^ 64 \<Longrightarrow> unat (a + b) = unat a + unat b"
  by (simp add: unat_word_ariths)

lemma unat_mult_no_wrap64:
  "unat (a :: u64) * unat b < 2 ^ 64 \<Longrightarrow> unat (a * b) = unat a * unat b"
  by (simp add: unat_word_ariths)

lemma unat_u32_less: "unat (w :: u32) < 4294967296"
  using unsigned_less [where 'b = 32, of w] by simp

lemma unat_u64_less: "unat (w :: u64) < 18446744073709551616"
  using unsigned_less [where 'b = 64, of w] by simp

lemma unat_ucast_u64_u32: "unat (ucast (w :: u64) :: u32) = unat w mod 4294967296"
  by (simp add: unsigned_ucast_eq take_bit_eq_mod)

lemma unat_ucast_u32_u64: "unat (ucast (w :: u32) :: u64) = unat w"
  using unat_u32_less [of w] by (simp add: unsigned_ucast_eq take_bit_eq_mod)

text \<open>A word whose low twelve bits are clear can be combined with flags below the page size.\<close>

lemma unat_of_nat_u32: "n < 4294967296 \<Longrightarrow> unat (of_nat n :: u32) = n"
  by (simp add: unsigned_of_nat take_bit_nat_eq_self)

lemma or_disjoint_eq_plus:
  fixes a b :: "'a::len word"
  assumes "a AND b = 0"
  shows "a OR b = a + b"
  using assms by (simp add: disjunctive_add_eq_or)

lemma bind_Some_map_option: "Option.bind x (\<lambda>v. Some (f v)) = map_option f x"
  by (cases x) simp_all

section \<open>Loops without exit\<close>

text \<open>\<open>each f xs s\<close>: the body for every element; \<open>None\<close> when one of the steps does not return.\<close>

fun each :: "('a \<Rightarrow> 's \<Rightarrow> 's option) \<Rightarrow> 'a list \<Rightarrow> 's \<Rightarrow> 's option" where
  "each f [] s = Some s"
| "each f (x # xs) s = do { s1 \<leftarrow> f x s; each f xs s1 }"

section \<open>Loops with early exit\<close>

text \<open>
  \<open>foreach f s xs\<close> runs \<open>f\<close> over \<open>xs\<close> until it reports an error, as a C loop
  whose body ends in \<open>if (err) goto out\<close>: the result is the code and the state reached.
\<close>

fun foreach :: "('s \<Rightarrow> 'a \<Rightarrow> rc \<times> 's) \<Rightarrow> 's \<Rightarrow> 'a list \<Rightarrow> rc \<times> 's" where
  "foreach f s [] = (OK, s)"
| "foreach f s (x # xs) =
     (case f s x of
        (OK, s') \<Rightarrow> foreach f s' xs
      | (E e, s') \<Rightarrow> (E e, s'))"

lemma foreach_append:
  "foreach f s (xs @ ys) =
     (case foreach f s xs of (OK, s') \<Rightarrow> foreach f s' ys | (E e, s') \<Rightarrow> (E e, s'))"
  by (induction xs arbitrary: s) (auto split: prod.splits rc.splits)

lemma foreach_invariant:
  assumes "P s" and "\<And>s x c s'. P s \<Longrightarrow> x \<in> set xs \<Longrightarrow> f s x = (c, s') \<Longrightarrow> P s'"
    and "foreach f s xs = (c, s')"
  shows "P s'"
  using assms
proof (induction xs arbitrary: s)
  case Nil
  then show ?case by simp
next
  case (Cons x xs)
  obtain c1 s1 where f: "f s x = (c1, s1)" by force
  have P1: "P s1" by (rule Cons.prems(2) [OF Cons.prems(1) _ f]) simp
  show ?case
  proof (cases c1)
    case OK
    from OK Cons.prems(3) f have "foreach f s1 xs = (c, s')" by simp
    show ?thesis
    proof (rule Cons.IH [OF P1 _ \<open>foreach f s1 xs = (c, s')\<close>])
      show "P t'" if "P t" "y \<in> set xs" "f t y = (d, t')" for t y d t'
        by (rule Cons.prems(2) [OF that(1) _ that(3)]) (simp add: that(2))
    qed
  next
    case (E e)
    with Cons.prems(3) f P1 show ?thesis by simp
  qed
qed

end
