(* ===== verification/Lima_Regs.thy ===== *)
theory Lima_Regs
  imports Lima_Prelude
begin

text \<open>
  The Mali register map (\<open>lima_regs.h\<close>) and the access to it. A constant of the header is a
  definition of the same name; its value is in the collection \<open>regs\<close>.

  The hardware is outside the repository. It is the parameter \<open>hw\<close>: what a register reads
  may depend on everything done to the device so far, so \<open>hw_read\<close> is a function of the
  whole history of accesses, and \<open>hw_time\<close> (the clock behind \<open>ktime_get\<close>) is too.
  A driver function appends its accesses to the history; the history, most recent access first, is
  what the properties about ordering are stated over.
\<close>

section \<open>Register constants\<close>

definition BIT :: "nat \<Rightarrow> u32" where
  "BIT n = push_bit n 1"

lemma BIT_eq_power [regs]: "BIT n = 2 ^ n"
  by (simp add: BIT_def push_bit_eq_mult)

lemma bit_BIT: "bit (BIT m) n \<longleftrightarrow> m = n \<and> n < 32"
  by (auto simp: BIT_eq_power bit_exp_iff possible_bit_def)

lemma and_BIT_eq_0: "w AND BIT m = 0 \<longleftrightarrow> \<not> bit w m"
  by (simp add: BIT_eq_power and_exp_eq_0_iff_not_bit)

lemma and_BIT_neq_0: "w AND BIT m \<noteq> 0 \<longleftrightarrow> bit w m"
  by (simp add: and_BIT_eq_0)

definition LIMA_PMU_POWER_UP :: u32 where [regs]: "LIMA_PMU_POWER_UP = 0x00"
definition LIMA_PMU_POWER_DOWN :: u32 where [regs]: "LIMA_PMU_POWER_DOWN = 0x04"
definition LIMA_PMU_POWER_GP0_MASK :: u32 where [regs]: "LIMA_PMU_POWER_GP0_MASK = BIT 0"
definition LIMA_PMU_POWER_L2_MASK :: u32 where [regs]: "LIMA_PMU_POWER_L2_MASK = BIT 1"
definition LIMA450_PMU_POWER_PP0_MASK :: u32 where [regs]: "LIMA450_PMU_POWER_PP0_MASK = BIT 1"
definition LIMA450_PMU_POWER_PP13_MASK :: u32 where [regs]: "LIMA450_PMU_POWER_PP13_MASK = BIT 2"
definition LIMA450_PMU_POWER_PP47_MASK :: u32 where [regs]: "LIMA450_PMU_POWER_PP47_MASK = BIT 3"
definition LIMA_PMU_STATUS :: u32 where [regs]: "LIMA_PMU_STATUS = 0x08"
definition LIMA_PMU_INT_MASK :: u32 where [regs]: "LIMA_PMU_INT_MASK = 0x0C"
definition LIMA_PMU_INT_RAWSTAT :: u32 where [regs]: "LIMA_PMU_INT_RAWSTAT = 0x10"
definition LIMA_PMU_INT_CLEAR :: u32 where [regs]: "LIMA_PMU_INT_CLEAR = 0x18"
definition LIMA_PMU_INT_CMD_MASK :: u32 where [regs]: "LIMA_PMU_INT_CMD_MASK = BIT 0"
definition LIMA_PMU_SW_DELAY :: u32 where [regs]: "LIMA_PMU_SW_DELAY = 0x1C"
definition LIMA_L2_CACHE_SIZE :: u32 where [regs]: "LIMA_L2_CACHE_SIZE = 0x0004"
definition LIMA_L2_CACHE_STATUS :: u32 where [regs]: "LIMA_L2_CACHE_STATUS = 0x0008"
definition LIMA_L2_CACHE_STATUS_COMMAND_BUSY :: u32 where [regs]: "LIMA_L2_CACHE_STATUS_COMMAND_BUSY = BIT 0"
definition LIMA_L2_CACHE_COMMAND :: u32 where [regs]: "LIMA_L2_CACHE_COMMAND = 0x0010"
definition LIMA_L2_CACHE_COMMAND_CLEAR_ALL :: u32 where [regs]: "LIMA_L2_CACHE_COMMAND_CLEAR_ALL = BIT 0"
definition LIMA_L2_CACHE_MAX_READS :: u32 where [regs]: "LIMA_L2_CACHE_MAX_READS = 0x0018"
definition LIMA_L2_CACHE_ENABLE :: u32 where [regs]: "LIMA_L2_CACHE_ENABLE = 0x001C"
definition LIMA_L2_CACHE_ENABLE_ACCESS :: u32 where [regs]: "LIMA_L2_CACHE_ENABLE_ACCESS = BIT 0"
definition LIMA_L2_CACHE_ENABLE_READ_ALLOCATE :: u32 where [regs]: "LIMA_L2_CACHE_ENABLE_READ_ALLOCATE = BIT 1"
definition LIMA_GP_VSCL_START_ADDR :: u32 where [regs]: "LIMA_GP_VSCL_START_ADDR = 0x00"
definition LIMA_GP_VSCL_END_ADDR :: u32 where [regs]: "LIMA_GP_VSCL_END_ADDR = 0x04"
definition LIMA_GP_PLBUCL_START_ADDR :: u32 where [regs]: "LIMA_GP_PLBUCL_START_ADDR = 0x08"
definition LIMA_GP_PLBUCL_END_ADDR :: u32 where [regs]: "LIMA_GP_PLBUCL_END_ADDR = 0x0c"
definition LIMA_GP_PLBU_ALLOC_START_ADDR :: u32 where [regs]: "LIMA_GP_PLBU_ALLOC_START_ADDR = 0x10"
definition LIMA_GP_PLBU_ALLOC_END_ADDR :: u32 where [regs]: "LIMA_GP_PLBU_ALLOC_END_ADDR = 0x14"
definition LIMA_GP_CMD :: u32 where [regs]: "LIMA_GP_CMD = 0x20"
definition LIMA_GP_CMD_START_VS :: u32 where [regs]: "LIMA_GP_CMD_START_VS = BIT 0"
definition LIMA_GP_CMD_START_PLBU :: u32 where [regs]: "LIMA_GP_CMD_START_PLBU = BIT 1"
definition LIMA_GP_CMD_UPDATE_PLBU_ALLOC :: u32 where [regs]: "LIMA_GP_CMD_UPDATE_PLBU_ALLOC = BIT 4"
definition LIMA_GP_CMD_RESET :: u32 where [regs]: "LIMA_GP_CMD_RESET = BIT 5"
definition LIMA_GP_CMD_SOFT_RESET :: u32 where [regs]: "LIMA_GP_CMD_SOFT_RESET = BIT 10"
definition LIMA_GP_INT_RAWSTAT :: u32 where [regs]: "LIMA_GP_INT_RAWSTAT = 0x24"
definition LIMA_GP_INT_CLEAR :: u32 where [regs]: "LIMA_GP_INT_CLEAR = 0x28"
definition LIMA_GP_INT_MASK :: u32 where [regs]: "LIMA_GP_INT_MASK = 0x2C"
definition LIMA_GP_INT_STAT :: u32 where [regs]: "LIMA_GP_INT_STAT = 0x30"
definition LIMA_GP_IRQ_VS_END_CMD_LST :: u32 where [regs]: "LIMA_GP_IRQ_VS_END_CMD_LST = BIT 0"
definition LIMA_GP_IRQ_PLBU_END_CMD_LST :: u32 where [regs]: "LIMA_GP_IRQ_PLBU_END_CMD_LST = BIT 1"
definition LIMA_GP_IRQ_PLBU_OUT_OF_MEM :: u32 where [regs]: "LIMA_GP_IRQ_PLBU_OUT_OF_MEM = BIT 2"
definition LIMA_GP_IRQ_VS_SEM_IRQ :: u32 where [regs]: "LIMA_GP_IRQ_VS_SEM_IRQ = BIT 3"
definition LIMA_GP_IRQ_PLBU_SEM_IRQ :: u32 where [regs]: "LIMA_GP_IRQ_PLBU_SEM_IRQ = BIT 4"
definition LIMA_GP_IRQ_HANG :: u32 where [regs]: "LIMA_GP_IRQ_HANG = BIT 5"
definition LIMA_GP_IRQ_FORCE_HANG :: u32 where [regs]: "LIMA_GP_IRQ_FORCE_HANG = BIT 6"
definition LIMA_GP_IRQ_PERF_CNT_0_LIMIT :: u32 where [regs]: "LIMA_GP_IRQ_PERF_CNT_0_LIMIT = BIT 7"
definition LIMA_GP_IRQ_PERF_CNT_1_LIMIT :: u32 where [regs]: "LIMA_GP_IRQ_PERF_CNT_1_LIMIT = BIT 8"
definition LIMA_GP_IRQ_WRITE_BOUND_ERR :: u32 where [regs]: "LIMA_GP_IRQ_WRITE_BOUND_ERR = BIT 9"
definition LIMA_GP_IRQ_SYNC_ERROR :: u32 where [regs]: "LIMA_GP_IRQ_SYNC_ERROR = BIT 10"
definition LIMA_GP_IRQ_AXI_BUS_ERROR :: u32 where [regs]: "LIMA_GP_IRQ_AXI_BUS_ERROR = BIT 11"
definition LIMA_GP_IRQ_AXI_BUS_STOPPED :: u32 where [regs]: "LIMA_GP_IRQ_AXI_BUS_STOPPED = BIT 12"
definition LIMA_GP_IRQ_VS_INVALID_CMD :: u32 where [regs]: "LIMA_GP_IRQ_VS_INVALID_CMD = BIT 13"
definition LIMA_GP_IRQ_PLB_INVALID_CMD :: u32 where [regs]: "LIMA_GP_IRQ_PLB_INVALID_CMD = BIT 14"
definition LIMA_GP_IRQ_RESET_COMPLETED :: u32 where [regs]: "LIMA_GP_IRQ_RESET_COMPLETED = BIT 19"
definition LIMA_GP_IRQ_SEMAPHORE_UNDERFLOW :: u32 where [regs]: "LIMA_GP_IRQ_SEMAPHORE_UNDERFLOW = BIT 20"
definition LIMA_GP_IRQ_SEMAPHORE_OVERFLOW :: u32 where [regs]: "LIMA_GP_IRQ_SEMAPHORE_OVERFLOW = BIT 21"
definition LIMA_GP_IRQ_PTR_ARRAY_OUT_OF_BOUNDS :: u32 where [regs]: "LIMA_GP_IRQ_PTR_ARRAY_OUT_OF_BOUNDS = BIT 22"
definition LIMA_GP_PERF_CNT_0_LIMIT :: u32 where [regs]: "LIMA_GP_PERF_CNT_0_LIMIT = 0x54"
definition LIMA_GP_STATUS :: u32 where [regs]: "LIMA_GP_STATUS = 0x68"
definition LIMA_GP_STATUS_VS_ACTIVE :: u32 where [regs]: "LIMA_GP_STATUS_VS_ACTIVE = BIT 1"
definition LIMA_GP_STATUS_PLBU_ACTIVE :: u32 where [regs]: "LIMA_GP_STATUS_PLBU_ACTIVE = BIT 3"
definition LIMA_GP_VERSION :: u32 where [regs]: "LIMA_GP_VERSION = 0x6C"
definition LIMA_PP_FRAME :: u32 where [regs]: "LIMA_PP_FRAME = 0x0000"
definition LIMA_PP_STACK :: u32 where [regs]: "LIMA_PP_STACK = 0x0030"
definition LIMA_PP_VERSION :: u32 where [regs]: "LIMA_PP_VERSION = 0x1000"
definition LIMA_PP_STATUS :: u32 where [regs]: "LIMA_PP_STATUS = 0x1008"
definition LIMA_PP_STATUS_RENDERING_ACTIVE :: u32 where [regs]: "LIMA_PP_STATUS_RENDERING_ACTIVE = BIT 0"
definition LIMA_PP_CTRL :: u32 where [regs]: "LIMA_PP_CTRL = 0x100c"
definition LIMA_PP_CTRL_FORCE_RESET :: u32 where [regs]: "LIMA_PP_CTRL_FORCE_RESET = BIT 5"
definition LIMA_PP_CTRL_START_RENDERING :: u32 where [regs]: "LIMA_PP_CTRL_START_RENDERING = BIT 6"
definition LIMA_PP_CTRL_SOFT_RESET :: u32 where [regs]: "LIMA_PP_CTRL_SOFT_RESET = BIT 7"
definition LIMA_PP_INT_RAWSTAT :: u32 where [regs]: "LIMA_PP_INT_RAWSTAT = 0x1020"
definition LIMA_PP_INT_CLEAR :: u32 where [regs]: "LIMA_PP_INT_CLEAR = 0x1024"
definition LIMA_PP_INT_MASK :: u32 where [regs]: "LIMA_PP_INT_MASK = 0x1028"
definition LIMA_PP_INT_STATUS :: u32 where [regs]: "LIMA_PP_INT_STATUS = 0x102c"
definition LIMA_PP_IRQ_END_OF_FRAME :: u32 where [regs]: "LIMA_PP_IRQ_END_OF_FRAME = BIT 0"
definition LIMA_PP_IRQ_END_OF_TILE :: u32 where [regs]: "LIMA_PP_IRQ_END_OF_TILE = BIT 1"
definition LIMA_PP_IRQ_HANG :: u32 where [regs]: "LIMA_PP_IRQ_HANG = BIT 2"
definition LIMA_PP_IRQ_FORCE_HANG :: u32 where [regs]: "LIMA_PP_IRQ_FORCE_HANG = BIT 3"
definition LIMA_PP_IRQ_BUS_ERROR :: u32 where [regs]: "LIMA_PP_IRQ_BUS_ERROR = BIT 4"
definition LIMA_PP_IRQ_BUS_STOP :: u32 where [regs]: "LIMA_PP_IRQ_BUS_STOP = BIT 5"
definition LIMA_PP_IRQ_CNT_0_LIMIT :: u32 where [regs]: "LIMA_PP_IRQ_CNT_0_LIMIT = BIT 6"
definition LIMA_PP_IRQ_CNT_1_LIMIT :: u32 where [regs]: "LIMA_PP_IRQ_CNT_1_LIMIT = BIT 7"
definition LIMA_PP_IRQ_WRITE_BOUNDARY_ERROR :: u32 where [regs]: "LIMA_PP_IRQ_WRITE_BOUNDARY_ERROR = BIT 8"
definition LIMA_PP_IRQ_INVALID_PLIST_COMMAND :: u32 where [regs]: "LIMA_PP_IRQ_INVALID_PLIST_COMMAND = BIT 9"
definition LIMA_PP_IRQ_CALL_STACK_UNDERFLOW :: u32 where [regs]: "LIMA_PP_IRQ_CALL_STACK_UNDERFLOW = BIT 10"
definition LIMA_PP_IRQ_CALL_STACK_OVERFLOW :: u32 where [regs]: "LIMA_PP_IRQ_CALL_STACK_OVERFLOW = BIT 11"
definition LIMA_PP_IRQ_RESET_COMPLETED :: u32 where [regs]: "LIMA_PP_IRQ_RESET_COMPLETED = BIT 12"
definition LIMA_PP_PERF_CNT_0_LIMIT :: u32 where [regs]: "LIMA_PP_PERF_CNT_0_LIMIT = 0x1088"
definition LIMA_MMU_DTE_ADDR :: u32 where [regs]: "LIMA_MMU_DTE_ADDR = 0x0000"
definition LIMA_MMU_STATUS :: u32 where [regs]: "LIMA_MMU_STATUS = 0x0004"
definition LIMA_MMU_STATUS_PAGING_ENABLED :: u32 where [regs]: "LIMA_MMU_STATUS_PAGING_ENABLED = BIT 0"
definition LIMA_MMU_STATUS_PAGE_FAULT_ACTIVE :: u32 where [regs]: "LIMA_MMU_STATUS_PAGE_FAULT_ACTIVE = BIT 1"
definition LIMA_MMU_STATUS_STALL_ACTIVE :: u32 where [regs]: "LIMA_MMU_STATUS_STALL_ACTIVE = BIT 2"
definition LIMA_MMU_COMMAND :: u32 where [regs]: "LIMA_MMU_COMMAND = 0x0008"
definition LIMA_MMU_COMMAND_ENABLE_PAGING :: u32 where [regs]: "LIMA_MMU_COMMAND_ENABLE_PAGING = 0x00"
definition LIMA_MMU_COMMAND_ENABLE_STALL :: u32 where [regs]: "LIMA_MMU_COMMAND_ENABLE_STALL = 0x02"
definition LIMA_MMU_COMMAND_DISABLE_STALL :: u32 where [regs]: "LIMA_MMU_COMMAND_DISABLE_STALL = 0x03"
definition LIMA_MMU_COMMAND_ZAP_CACHE :: u32 where [regs]: "LIMA_MMU_COMMAND_ZAP_CACHE = 0x04"
definition LIMA_MMU_COMMAND_HARD_RESET :: u32 where [regs]: "LIMA_MMU_COMMAND_HARD_RESET = 0x06"
definition LIMA_MMU_PAGE_FAULT_ADDR :: u32 where [regs]: "LIMA_MMU_PAGE_FAULT_ADDR = 0x000C"
definition LIMA_MMU_INT_CLEAR :: u32 where [regs]: "LIMA_MMU_INT_CLEAR = 0x0018"
definition LIMA_MMU_INT_MASK :: u32 where [regs]: "LIMA_MMU_INT_MASK = 0x001C"
definition LIMA_MMU_INT_PAGE_FAULT :: u32 where [regs]: "LIMA_MMU_INT_PAGE_FAULT = BIT 0"
definition LIMA_MMU_INT_READ_BUS_ERROR :: u32 where [regs]: "LIMA_MMU_INT_READ_BUS_ERROR = BIT 1"
definition LIMA_MMU_INT_STATUS :: u32 where [regs]: "LIMA_MMU_INT_STATUS = 0x0020"
definition LIMA_VM_FLAG_PRESENT :: u32 where [regs]: "LIMA_VM_FLAG_PRESENT = BIT 0"
definition LIMA_VM_FLAG_READ_PERMISSION :: u32 where [regs]: "LIMA_VM_FLAG_READ_PERMISSION = BIT 1"
definition LIMA_VM_FLAG_WRITE_PERMISSION :: u32 where [regs]: "LIMA_VM_FLAG_WRITE_PERMISSION = BIT 2"
definition LIMA_VM_FLAG_OVERRIDE_CACHE :: u32 where [regs]: "LIMA_VM_FLAG_OVERRIDE_CACHE = BIT 3"
definition LIMA_VM_FLAG_WRITE_CACHEABLE :: u32 where [regs]: "LIMA_VM_FLAG_WRITE_CACHEABLE = BIT 4"
definition LIMA_VM_FLAG_WRITE_BUFFERABLE :: u32 where [regs]: "LIMA_VM_FLAG_WRITE_BUFFERABLE = BIT 6"
definition LIMA_VM_FLAG_READ_CACHEABLE :: u32 where [regs]: "LIMA_VM_FLAG_READ_CACHEABLE = BIT 7"
definition LIMA_VM_FLAG_READ_ALLOCATE :: u32 where [regs]: "LIMA_VM_FLAG_READ_ALLOCATE = BIT 8"

definition LIMA_GP_IRQ_MASK_ALL :: u32 where [regs]:
  "LIMA_GP_IRQ_MASK_ALL =
     LIMA_GP_IRQ_VS_END_CMD_LST OR
     LIMA_GP_IRQ_PLBU_END_CMD_LST OR
     LIMA_GP_IRQ_PLBU_OUT_OF_MEM OR
     LIMA_GP_IRQ_VS_SEM_IRQ OR
     LIMA_GP_IRQ_PLBU_SEM_IRQ OR
     LIMA_GP_IRQ_HANG OR
     LIMA_GP_IRQ_FORCE_HANG OR
     LIMA_GP_IRQ_PERF_CNT_0_LIMIT OR
     LIMA_GP_IRQ_PERF_CNT_1_LIMIT OR
     LIMA_GP_IRQ_WRITE_BOUND_ERR OR
     LIMA_GP_IRQ_SYNC_ERROR OR
     LIMA_GP_IRQ_AXI_BUS_ERROR OR
     LIMA_GP_IRQ_AXI_BUS_STOPPED OR
     LIMA_GP_IRQ_VS_INVALID_CMD OR
     LIMA_GP_IRQ_PLB_INVALID_CMD OR
     LIMA_GP_IRQ_RESET_COMPLETED OR
     LIMA_GP_IRQ_SEMAPHORE_UNDERFLOW OR
     LIMA_GP_IRQ_SEMAPHORE_OVERFLOW OR
     LIMA_GP_IRQ_PTR_ARRAY_OUT_OF_BOUNDS"

definition LIMA_GP_IRQ_MASK_ERROR :: u32 where [regs]:
  "LIMA_GP_IRQ_MASK_ERROR =
     LIMA_GP_IRQ_PLBU_OUT_OF_MEM OR
     LIMA_GP_IRQ_FORCE_HANG OR
     LIMA_GP_IRQ_WRITE_BOUND_ERR OR
     LIMA_GP_IRQ_SYNC_ERROR OR
     LIMA_GP_IRQ_AXI_BUS_ERROR OR
     LIMA_GP_IRQ_VS_INVALID_CMD OR
     LIMA_GP_IRQ_PLB_INVALID_CMD OR
     LIMA_GP_IRQ_SEMAPHORE_UNDERFLOW OR
     LIMA_GP_IRQ_SEMAPHORE_OVERFLOW OR
     LIMA_GP_IRQ_PTR_ARRAY_OUT_OF_BOUNDS"

definition LIMA_GP_IRQ_MASK_USED :: u32 where [regs]:
  "LIMA_GP_IRQ_MASK_USED =
     LIMA_GP_IRQ_VS_END_CMD_LST OR
     LIMA_GP_IRQ_PLBU_END_CMD_LST OR
     LIMA_GP_IRQ_MASK_ERROR"

definition LIMA_PP_IRQ_MASK_ALL :: u32 where [regs]:
  "LIMA_PP_IRQ_MASK_ALL =
     LIMA_PP_IRQ_END_OF_FRAME OR
     LIMA_PP_IRQ_END_OF_TILE OR
     LIMA_PP_IRQ_HANG OR
     LIMA_PP_IRQ_FORCE_HANG OR
     LIMA_PP_IRQ_BUS_ERROR OR
     LIMA_PP_IRQ_BUS_STOP OR
     LIMA_PP_IRQ_CNT_0_LIMIT OR
     LIMA_PP_IRQ_CNT_1_LIMIT OR
     LIMA_PP_IRQ_WRITE_BOUNDARY_ERROR OR
     LIMA_PP_IRQ_INVALID_PLIST_COMMAND OR
     LIMA_PP_IRQ_CALL_STACK_UNDERFLOW OR
     LIMA_PP_IRQ_CALL_STACK_OVERFLOW OR
     LIMA_PP_IRQ_RESET_COMPLETED"

definition LIMA_PP_IRQ_MASK_ERROR :: u32 where [regs]:
  "LIMA_PP_IRQ_MASK_ERROR =
     LIMA_PP_IRQ_FORCE_HANG OR
     LIMA_PP_IRQ_BUS_ERROR OR
     LIMA_PP_IRQ_WRITE_BOUNDARY_ERROR OR
     LIMA_PP_IRQ_INVALID_PLIST_COMMAND OR
     LIMA_PP_IRQ_CALL_STACK_UNDERFLOW OR
     LIMA_PP_IRQ_CALL_STACK_OVERFLOW"

definition LIMA_PP_IRQ_MASK_USED :: u32 where [regs]:
  "LIMA_PP_IRQ_MASK_USED =
     LIMA_PP_IRQ_END_OF_FRAME OR
     LIMA_PP_IRQ_MASK_ERROR"

definition LIMA_VM_FLAGS_CACHE :: u32 where [regs]:
  "LIMA_VM_FLAGS_CACHE =
     LIMA_VM_FLAG_PRESENT OR
     LIMA_VM_FLAG_READ_PERMISSION OR
     LIMA_VM_FLAG_WRITE_PERMISSION OR
     LIMA_VM_FLAG_OVERRIDE_CACHE OR
     LIMA_VM_FLAG_WRITE_CACHEABLE OR
     LIMA_VM_FLAG_WRITE_BUFFERABLE OR
     LIMA_VM_FLAG_READ_CACHEABLE OR
     LIMA_VM_FLAG_READ_ALLOCATE"

definition LIMA_PMU_POWER_PP_MASK :: "nat \<Rightarrow> u32" where
  "LIMA_PMU_POWER_PP_MASK i = BIT (2 + i)"

definition LIMA_PP_WB :: "nat \<Rightarrow> u32" where
  "LIMA_PP_WB i = 0x0100 * (of_nat i + 1)"

section \<open>Accesses and their history\<close>

datatype mmio_ev =
    WR u32 u32   \<comment> \<open>\<open>writel(value, address)\<close>: address, value\<close>
  | RD u32       \<comment> \<open>\<open>readl(address)\<close>\<close>
  | DELAY        \<comment> \<open>\<open>DELAY(1)\<close> or \<open>udelay(1)\<close>\<close>
  | SLEEP        \<comment> \<open>\<open>usleep_range\<close>\<close>
  | KTIME        \<comment> \<open>\<open>ktime_get()\<close>\<close>
  | REQ_IRQ u32  \<comment> \<open>\<open>devm_request_irq\<close> for the block at that address succeeded\<close>

type_synonym io = "mmio_ev list"

record hw =
  hw_read :: "io \<Rightarrow> u32 \<Rightarrow> u32"
  hw_time :: "io \<Rightarrow> int" \<comment> \<open>microseconds\<close>

definition readl :: "hw \<Rightarrow> u32 \<Rightarrow> io \<Rightarrow> u32 \<times> io" where
  "readl hw a io = (hw_read hw io a, RD a # io)"

definition writel :: "u32 \<Rightarrow> u32 \<Rightarrow> io \<Rightarrow> io" where
  "writel v a io = WR a v # io"

definition ktime_get :: "hw \<Rightarrow> io \<Rightarrow> int \<times> io" where
  "ktime_get hw io = (hw_time hw io, KTIME # io)"

text \<open>The register writes of a history, oldest first.\<close>

fun writes :: "io \<Rightarrow> (u32 \<times> u32) list" where
  "writes [] = []"
| "writes (WR a v # io) = writes io @ [(a, v)]"
| "writes (RD a # io) = writes io"
| "writes (DELAY # io) = writes io"
| "writes (SLEEP # io) = writes io"
| "writes (KTIME # io) = writes io"
| "writes (REQ_IRQ a # io) = writes io"

lemma writes_writel [simp]: "writes (writel v a io) = writes io @ [(a, v)]"
  by (simp add: writel_def)

lemma writes_readl [simp]: "writes (snd (readl hw a io)) = writes io"
  by (simp add: readl_def)

section \<open>Polling\<close>

text \<open>
  \<open>readl_poll_timeout\<close> of \<open>lima_freebsd_compat.h\<close>: a \<open>do ... while\<close> that counts
  microseconds of \<open>DELAY(1)\<close>; the condition is read first, so it is read at least once.
\<close>

function readl_poll_timeout :: "hw \<Rightarrow> u32 \<Rightarrow> (u32 \<Rightarrow> bool) \<Rightarrow> nat \<Rightarrow> io \<Rightarrow> rc \<times> io" where
  "readl_poll_timeout hw a cond us io =
     (let (v, io1) = readl hw a io in
      if cond v then (OK, io1)
      else let io2 = DELAY # io1 in
        if us - 1 > 0 then readl_poll_timeout hw a cond (us - 1) io2
        else (E ETIMEDOUT, io2))"
  by pat_completeness auto
termination
  by (relation "measure (\<lambda>(hw, a, c, us, io). us)") auto

declare readl_poll_timeout.simps [simp del]

lemma readl_poll_timeout_step:
  "readl_poll_timeout hw a cond us io =
     (if cond (hw_read hw io a) then (OK, RD a # io)
      else if us - 1 > 0 then readl_poll_timeout hw a cond (us - 1) (DELAY # RD a # io)
      else (E ETIMEDOUT, DELAY # RD a # io))"
  by (subst readl_poll_timeout.simps) (simp add: readl_def Let_def)

text \<open>
  \<open>lima_poll_timeout\<close> of \<open>lima_device.h\<close>: an unbounded \<open>while (1)\<close> over a predicate
  that may itself access the device, left when the predicate holds or the clock is past the
  deadline. Nothing but the clock bounds it, so the model returns an \<open>option\<close>.
\<close>

partial_function (option) lima_poll_loop ::
  "hw \<Rightarrow> (io \<Rightarrow> bool \<times> io) \<Rightarrow> nat \<Rightarrow> nat \<Rightarrow> int \<Rightarrow> io \<Rightarrow> (rc \<times> io) option" where
  "lima_poll_loop hw func sleep_us timeout_us deadline io =
     (case func io of (done, io1) \<Rightarrow>
      if done then Some (OK, io1)
      else if timeout_us \<noteq> 0 then
        (case ktime_get hw io1 of (t, io2) \<Rightarrow>
         if t > deadline then Some (E ETIMEDOUT, io2)
         else lima_poll_loop hw func sleep_us timeout_us deadline
                (if sleep_us \<noteq> 0 then SLEEP # io2 else io2))
      else lima_poll_loop hw func sleep_us timeout_us deadline
             (if sleep_us \<noteq> 0 then SLEEP # io1 else io1))"

definition lima_poll_timeout ::
  "hw \<Rightarrow> (io \<Rightarrow> bool \<times> io) \<Rightarrow> nat \<Rightarrow> nat \<Rightarrow> io \<Rightarrow> (rc \<times> io) option" where
  "lima_poll_timeout hw func sleep_us timeout_us io =
     (case ktime_get hw io of (now, io1) \<Rightarrow>
      lima_poll_loop hw func sleep_us timeout_us (now + int timeout_us) io1)"

text \<open>
  A clock that is past any deadline once enough has happened: what the code relies on to leave
  the loop.
\<close>

definition clock_advances :: "hw \<Rightarrow> bool" where
  "clock_advances hw \<longleftrightarrow> (\<forall>d. \<exists>n. \<forall>h. n \<le> List.length h \<longrightarrow> d < hw_time hw h)"

text \<open>A predicate that only adds accesses to the history.\<close>

definition only_appends :: "(io \<Rightarrow> bool \<times> io) \<Rightarrow> bool" where
  "only_appends func \<longleftrightarrow> (\<forall>io. List.length io \<le> List.length (snd (func io)))"

lemma lima_poll_loop_returns:
  assumes adv: "\<forall>h. n \<le> List.length h \<longrightarrow> deadline < hw_time hw h"
    and app: "only_appends func" and t: "timeout_us \<noteq> 0"
  shows "\<exists>r. lima_poll_loop hw func sleep_us timeout_us deadline io = Some r"
proof (induction "n - List.length io" arbitrary: io rule: less_induct)
  case less
  obtain b io1 where f: "func io = (b, io1)" by force
  have len: "List.length io \<le> List.length io1"
    using app f by (auto simp: only_appends_def dest: spec [where x = io])
  show ?case
  proof (cases "b \<or> deadline < hw_time hw io1")
    case True
    then show ?thesis
      using f t by (subst lima_poll_loop.simps) (auto simp: ktime_get_def)
  next
    case False
    then have small: "List.length io1 < n" using adv by (meson not_le)
    let ?io2 = "if sleep_us \<noteq> 0 then SLEEP # KTIME # io1 else KTIME # io1"
    have "n - List.length ?io2 < n - List.length io" using small len by auto
    then obtain r where "lima_poll_loop hw func sleep_us timeout_us deadline ?io2 = Some r"
      using less by blast
    then show ?thesis
      using False f t by (subst lima_poll_loop.simps) (auto simp: ktime_get_def)
  qed
qed

lemma lima_poll_timeout_returns:
  assumes "clock_advances hw" and "only_appends func" and "timeout_us \<noteq> 0"
  shows "\<exists>r. lima_poll_timeout hw func sleep_us timeout_us io = Some r"
proof -
  define d where "d = hw_time hw io + int timeout_us"
  obtain n where "\<forall>h. n \<le> List.length h \<longrightarrow> d < hw_time hw h"
    using assms(1) by (auto simp: clock_advances_def)
  from lima_poll_loop_returns [OF this assms(2,3)] show ?thesis
    by (auto simp: lima_poll_timeout_def ktime_get_def d_def)
qed

text \<open>Induction over the reads of one poll, with the step already unfolded.\<close>

lemma readl_poll_timeout_cases:
  assumes "readl_poll_timeout hw a cond us io = (r, io')"
  obtains (hit) "cond (hw_read hw io a)" "r = OK" "io' = RD a # io"
    | (again) "\<not> cond (hw_read hw io a)" "us - 1 > 0"
        "readl_poll_timeout hw a cond (us - 1) (DELAY # RD a # io) = (r, io')"
    | (out) "\<not> cond (hw_read hw io a)" "r = E ETIMEDOUT" "io' = DELAY # RD a # io"
  using assms by (subst (asm) readl_poll_timeout_step) (auto split: if_splits)

lemma readl_poll_timeout_writes:
  "readl_poll_timeout hw a cond us io = (r, io') \<Longrightarrow> writes io' = writes io"
proof (induction us arbitrary: io)
  case 0
  then show ?case by (cases rule: readl_poll_timeout_cases) auto
next
  case (Suc us)
  from Suc.prems show ?case
    by (cases rule: readl_poll_timeout_cases) (auto dest: Suc.IH)
qed

text \<open>A poll only reports success on a value the device really returned.\<close>

lemma readl_poll_timeout_OK:
  "readl_poll_timeout hw a cond us io = (OK, io') \<Longrightarrow>
   \<exists>h. cond (hw_read hw h a) \<and> io' = RD a # h"
proof (induction us arbitrary: io)
  case 0
  then show ?case by (cases rule: readl_poll_timeout_cases) auto
next
  case (Suc us)
  from Suc.prems show ?case
    by (cases rule: readl_poll_timeout_cases) (auto dest: Suc.IH)
qed

text \<open>The number of reads of one poll is bounded by its microsecond budget.\<close>

fun reads_of :: "u32 \<Rightarrow> io \<Rightarrow> nat" where
  "reads_of a [] = 0"
| "reads_of a (e # io) = (if e = RD a then 1 else 0) + reads_of a io"

lemma readl_poll_timeout_bound:
  "readl_poll_timeout hw a cond us io = (r, io') \<Longrightarrow>
   reads_of a io' \<le> reads_of a io + max 1 us"
proof (induction us arbitrary: io)
  case 0
  then show ?case by (cases rule: readl_poll_timeout_cases) auto
next
  case (Suc us)
  from Suc.prems show ?case
    by (cases rule: readl_poll_timeout_cases) (auto dest: Suc.IH)
qed

end
