(* ===== verification/Lima_IP.thy ===== *)
theory Lima_IP
  imports Lima_Regs
begin

text \<open>
  The IP blocks of the GPU and the device they belong to (\<open>lima_device.h\<close>). A register of a block
  is addressed by the base of the block plus the offset of the register, so the history of accesses is
  one for the whole device.
\<close>

datatype lima_gpu_id = lima_gpu_mali400 | lima_gpu_mali450

datatype lima_ip_id =
    lima_ip_pmu
  | lima_ip_gpmmu
  | lima_ip_ppmmu0
  | lima_ip_ppmmu1
  | lima_ip_ppmmu2
  | lima_ip_ppmmu3
  | lima_ip_ppmmu4
  | lima_ip_ppmmu5
  | lima_ip_ppmmu6
  | lima_ip_ppmmu7
  | lima_ip_gp
  | lima_ip_pp0
  | lima_ip_pp1
  | lima_ip_pp2
  | lima_ip_pp3
  | lima_ip_pp4
  | lima_ip_pp5
  | lima_ip_pp6
  | lima_ip_pp7
  | lima_ip_l2_cache0
  | lima_ip_l2_cache1
  | lima_ip_l2_cache2
  | lima_ip_dlbu
  | lima_ip_bcast
  | lima_ip_pp_bcast
  | lima_ip_ppmmu_bcast

primrec ip_index :: "lima_ip_id \<Rightarrow> nat" where
  "ip_index lima_ip_pmu = 0"
| "ip_index lima_ip_gpmmu = 1"
| "ip_index lima_ip_ppmmu0 = 2"
| "ip_index lima_ip_ppmmu1 = 3"
| "ip_index lima_ip_ppmmu2 = 4"
| "ip_index lima_ip_ppmmu3 = 5"
| "ip_index lima_ip_ppmmu4 = 6"
| "ip_index lima_ip_ppmmu5 = 7"
| "ip_index lima_ip_ppmmu6 = 8"
| "ip_index lima_ip_ppmmu7 = 9"
| "ip_index lima_ip_gp = 10"
| "ip_index lima_ip_pp0 = 11"
| "ip_index lima_ip_pp1 = 12"
| "ip_index lima_ip_pp2 = 13"
| "ip_index lima_ip_pp3 = 14"
| "ip_index lima_ip_pp4 = 15"
| "ip_index lima_ip_pp5 = 16"
| "ip_index lima_ip_pp6 = 17"
| "ip_index lima_ip_pp7 = 18"
| "ip_index lima_ip_l2_cache0 = 19"
| "ip_index lima_ip_l2_cache1 = 20"
| "ip_index lima_ip_l2_cache2 = 21"
| "ip_index lima_ip_dlbu = 22"
| "ip_index lima_ip_bcast = 23"
| "ip_index lima_ip_pp_bcast = 24"
| "ip_index lima_ip_ppmmu_bcast = 25"

definition ip_list :: "lima_ip_id list" where
  "ip_list =
     [lima_ip_pmu, lima_ip_gpmmu, lima_ip_ppmmu0, lima_ip_ppmmu1, lima_ip_ppmmu2,
      lima_ip_ppmmu3, lima_ip_ppmmu4, lima_ip_ppmmu5, lima_ip_ppmmu6, lima_ip_ppmmu7,
      lima_ip_gp, lima_ip_pp0, lima_ip_pp1, lima_ip_pp2, lima_ip_pp3, lima_ip_pp4,
      lima_ip_pp5, lima_ip_pp6, lima_ip_pp7, lima_ip_l2_cache0, lima_ip_l2_cache1,
      lima_ip_l2_cache2, lima_ip_dlbu, lima_ip_bcast, lima_ip_pp_bcast, lima_ip_ppmmu_bcast]"

lemma ip_list_nth: "ip_list ! ip_index i = i"
  by (cases i) (simp_all add: ip_list_def)

lemma ip_index_less: "ip_index i < List.length ip_list"
  by (cases i) (simp_all add: ip_list_def)

lemma ip_index_eq_iff: "ip_index i = ip_index j \<longleftrightarrow> i = j"
  by (metis ip_list_nth)

lemma in_ip_list [simp]: "i \<in> set ip_list"
  by (metis ip_list_nth ip_index_less nth_mem)

text \<open>The order of the enumeration.\<close>

instantiation lima_ip_id :: linorder
begin

definition less_eq_lima_ip_id :: "lima_ip_id \<Rightarrow> lima_ip_id \<Rightarrow> bool" where
  "less_eq_lima_ip_id a b \<longleftrightarrow> ip_index a \<le> ip_index b"

definition less_lima_ip_id :: "lima_ip_id \<Rightarrow> lima_ip_id \<Rightarrow> bool" where
  "less_lima_ip_id a b \<longleftrightarrow> ip_index a < ip_index b"

instance
  by standard (auto simp: less_eq_lima_ip_id_def less_lima_ip_id_def ip_index_eq_iff)

end

text \<open>\<open>id + n\<close> and the loop \<open>for (i = a; i <= b; i++)\<close> on the enumeration.\<close>

definition ip_plus :: "lima_ip_id \<Rightarrow> nat \<Rightarrow> lima_ip_id" where
  "ip_plus i n = ip_list ! (ip_index i + n)"

definition ip_range :: "lima_ip_id \<Rightarrow> lima_ip_id \<Rightarrow> lima_ip_id list" where
  "ip_range a b = filter (\<lambda>i. a \<le> i \<and> i \<le> b) ip_list"

lemma set_ip_range: "set (ip_range a b) = {i. a \<le> i \<and> i \<le> b}"
  by (auto simp: ip_range_def)

section \<open>The device\<close>

text \<open>
  What of \<open>struct lima_device\<close> the blocks look at. \<open>d_ip_mask\<close> is \<open>data.mask\<close> of the PMU.
\<close>

record lima_dev =
  d_id :: lima_gpu_id
  d_present :: "lima_ip_id \<Rightarrow> bool"
  d_base :: "lima_ip_id \<Rightarrow> u32"      \<comment> \<open>\<open>ip->iomem\<close>\<close>
  d_empty_pd :: u64                  \<comment> \<open>\<open>empty_vm->pd.dma\<close>\<close>

end
