(* ===== verification/Shmem_Logic.thy ===== *)
theory Shmem_Logic
  imports Lima_Prelude
begin

text \<open>
  The pure arithmetic of the GEM SHMEM helper (\<open>drm/drm_gem_shmem_logic.h\<close>), and the
  interface \<open>refcounted\<close> that every use count of the driver implements. \<open>unsigned long\<close>
  is 64 bits, \<open>unsigned int\<close> 32.
\<close>

section \<open>The functions of the header\<close>

datatype drm_gem_shmem_unref_t =
    DRM_GEM_SHMEM_UNREF_UNDERFLOW
  | DRM_GEM_SHMEM_UNREF_RELEASE
  | DRM_GEM_SHMEM_UNREF_KEEP

definition drm_gem_shmem_npages :: "u64 \<Rightarrow> u64" where
  "drm_gem_shmem_npages sz = drop_bit PAGE_SHIFT sz"

definition drm_gem_shmem_align_size :: "u64 \<Rightarrow> u64" where
  "drm_gem_shmem_align_size sz = (sz + PAGE_SIZE - 1) AND NOT (PAGE_SIZE - 1)"

definition drm_gem_shmem_ref_first :: "u32 \<Rightarrow> bool \<times> u32" where
  "drm_gem_shmem_ref_first use_count = (use_count = 0, use_count + 1)"

definition drm_gem_shmem_unref :: "u32 \<Rightarrow> drm_gem_shmem_unref_t \<times> u32" where
  "drm_gem_shmem_unref use_count =
     (if use_count = 0 then (DRM_GEM_SHMEM_UNREF_UNDERFLOW, use_count)
      else let use_count' = use_count - 1 in
        if use_count' > 0 then (DRM_GEM_SHMEM_UNREF_KEEP, use_count')
        else (DRM_GEM_SHMEM_UNREF_RELEASE, use_count'))"

definition drm_gem_shmem_fault_index :: "u64 \<Rightarrow> u64 \<Rightarrow> u64 \<Rightarrow> u64 option" where
  "drm_gem_shmem_fault_index address vm_start npages =
     (if address < vm_start then None
      else let idx = drop_bit PAGE_SHIFT (address - vm_start) in
        if idx \<ge> npages then None else Some idx)"

definition drm_gem_shmem_purgeable :: "int \<Rightarrow> u32 \<Rightarrow> bool \<Rightarrow> bool \<Rightarrow> bool \<Rightarrow> bool" where
  "drm_gem_shmem_purgeable madv vmap_use_count have_sgt exported imported \<longleftrightarrow>
     madv > 0 \<and> vmap_use_count = 0 \<and> have_sgt \<and> \<not> exported \<and> \<not> imported"

definition drm_gem_shmem_madvise_apply :: "int \<Rightarrow> int \<Rightarrow> bool \<times> int" where
  "drm_gem_shmem_madvise_apply madv new_madv =
     (let madv' = (if madv \<ge> 0 then new_madv else madv) in (madv' \<ge> 0, madv'))"

section \<open>Use counts\<close>

text \<open>
  The contract of a use count: \<open>count\<close> reads it, \<open>get\<close> takes a reference, \<open>put\<close>
  drops one and says whether it was the last. \<open>room\<close> says that one more reference does not
  wrap the machine integer.
\<close>

locale refcounted =
  fixes count :: "'c \<Rightarrow> nat"
    and room :: "'c \<Rightarrow> bool"
    and get :: "'c \<Rightarrow> 'c"
    and put :: "'c \<Rightarrow> bool \<times> 'c"
  assumes count_get: "room c \<Longrightarrow> count (get c) = Suc (count c)"
    and count_put: "0 < count c \<Longrightarrow> count (snd (put c)) = count c - 1"
    and put_last: "0 < count c \<Longrightarrow> fst (put c) \<longleftrightarrow> count c = 1"
begin

lemma get_put_count: "room c \<Longrightarrow> count (snd (put (get c))) = count c"
  by (simp add: count_get count_put)

lemma get_put_not_last: "room c \<Longrightarrow> 0 < count c \<Longrightarrow> \<not> fst (put (get c))"
  by (simp add: count_get put_last)

lemma puts_count: "n \<le> count c \<Longrightarrow> count (((\<lambda>c. snd (put c)) ^^ n) c) = count c - n"
  by (induction n) (auto simp: count_put)

text \<open>Exactly the \<open>count c\<close>-th \<open>put\<close> reports the release.\<close>

lemma release_at_last_put:
  assumes "n < count c"
  shows "fst (put (((\<lambda>c. snd (put c)) ^^ n) c)) \<longleftrightarrow> Suc n = count c"
proof -
  have "count (((\<lambda>c. snd (put c)) ^^ n) c) = count c - n"
    using assms by (simp add: puts_count)
  then show ?thesis using assms by (simp add: put_last) arith
qed

end

lemma u32_pred_gt_0: "0 < (c :: u32) - 1 \<longleftrightarrow> c \<noteq> 1"
  by (simp add: word_gt_0)

lemma u32_pred_pos: "0 < (c :: u32) - 1 \<longleftrightarrow> unat c \<noteq> 1"
  by (metis u32_pred_gt_0 unsigned_1 word_unat_eq_iff)

lemma unat_u32_pred: "(c :: u32) \<noteq> 0 \<Longrightarrow> unat (c - 1) = unat c - 1"
  by (simp add: unat_minus_one)

lemma unat_u32_succ: "unat (c :: u32) < 4294967295 \<Longrightarrow> unat (c + 1) = Suc (unat c)"
  by (simp add: unat_word_ariths)

interpretation shmem_count: refcounted unat "\<lambda>c :: u32. unat c < 4294967295"
  "\<lambda>c. snd (drm_gem_shmem_ref_first c)"
  "\<lambda>c. (fst (drm_gem_shmem_unref c) = DRM_GEM_SHMEM_UNREF_RELEASE, snd (drm_gem_shmem_unref c))"
proof unfold_locales
  fix c :: u32
  show "unat c < 4294967295 \<Longrightarrow> unat (snd (drm_gem_shmem_ref_first c)) = Suc (unat c)"
    by (simp add: drm_gem_shmem_ref_first_def unat_u32_succ)
  assume "0 < unat c"
  then have nz: "c \<noteq> 0" by auto
  show "unat (snd (fst (drm_gem_shmem_unref c) = DRM_GEM_SHMEM_UNREF_RELEASE,
          snd (drm_gem_shmem_unref c))) = unat c - 1"
    using nz by (simp add: drm_gem_shmem_unref_def Let_def unat_u32_pred)
  show "fst (fst (drm_gem_shmem_unref c) = DRM_GEM_SHMEM_UNREF_RELEASE,
          snd (drm_gem_shmem_unref c)) \<longleftrightarrow> unat c = 1"
    using nz by (auto simp: drm_gem_shmem_unref_def Let_def u32_pred_pos)
qed

section \<open>Facts used by the helper\<close>

lemma unref_cases:
  "drm_gem_shmem_unref c =
     (if c = 0 then (DRM_GEM_SHMEM_UNREF_UNDERFLOW, 0)
      else if c = 1 then (DRM_GEM_SHMEM_UNREF_RELEASE, 0)
      else (DRM_GEM_SHMEM_UNREF_KEEP, c - 1))"
  by (auto simp: drm_gem_shmem_unref_def Let_def u32_pred_gt_0)

lemma ref_first_simps [simp]:
  "fst (drm_gem_shmem_ref_first c) \<longleftrightarrow> c = 0"
  "snd (drm_gem_shmem_ref_first c) = c + 1"
  by (simp_all add: drm_gem_shmem_ref_first_def)

lemma unat_npages: "unat (drm_gem_shmem_npages sz) = unat sz div 4096"
  by (simp add: drm_gem_shmem_npages_def unat_drop_bit_word PAGE_SHIFT_val)

lemma and_not_low12: "unat (w AND NOT (4095 :: u64)) = unat w - unat w mod 4096"
proof -
  have m: "(4095 :: u64) = mask 12" by (simp add: mask_eq_decr_exp)
  have "w AND mask 12 = take_bit 12 w" by (simp add: take_bit_eq_mask)
  then have low: "unat (w AND 4095) = unat w mod 4096"
    using unat_and_mask_word [of w 12] m by simp
  have "(w AND NOT 4095) + (w AND 4095) = (w AND NOT 4095) OR (w AND 4095)"
    by (rule disjunctive_add_eq_or) (simp add: bit_eq_iff bit_simps)
  also have "\<dots> = w"
    by (simp only: bit_eq_iff bit_or_iff bit_and_iff bit_not_iff) (metis bit_imp_le_length impossible_bit)
  finally have "w = (w AND NOT 4095) + (w AND 4095)" by simp
  then have split: "w AND NOT 4095 = w - (w AND 4095)" by (simp add: algebra_simps)
  have "w AND 4095 \<le> w" by (rule word_and_le2)
  then have "unat (w - (w AND 4095)) = unat w - unat (w AND 4095)" by (rule unat_sub)
  then show ?thesis by (simp only: split low)
qed

lemma unat_align_size:
  assumes "unat sz \<le> 2 ^ 64 - 4096"
  shows "unat (drm_gem_shmem_align_size sz) = (unat sz + 4095) - (unat sz + 4095) mod 4096"
proof -
  have ps: "sz + PAGE_SIZE - 1 = sz + 4095" "PAGE_SIZE - 1 = 4095"
    by (simp_all add: PAGE_SIZE_def)
  have "unat (sz + 4095) = unat sz + unat (4095 :: u64)"
    by (rule unat_add_no_wrap64) (use assms in simp)
  then have "unat (sz + 4095) = unat sz + 4095" by simp
  then show ?thesis
    using and_not_low12 [of "sz + 4095"]
    by (simp only: drm_gem_shmem_align_size_def ps)
qed

end
