(* ===== verification/Shmem_Helper.thy ===== *)
theory Shmem_Helper
  imports Shmem_Logic
begin

text \<open>
  The GEM SHMEM helper (\<open>drm/drm_gem_shmem_helper.c\<close>): how a buffer object holds its
  backing pages, its kernel mapping and its DMA-mapped scatter list, and when it lets go of them.

  A \<open>drm_gem_shmem_object\<close> is the record \<open>shmem\<close>. The VM system is \<open>vmsys\<close>: how many
  wirings each physical page carries, its memory attribute, which pages user space maps, and the
  three counters the file exports by sysctl. What the VM system, busdma and the DRM core answer
  during a call is \<open>shmem_env\<close>. Locks are not modelled: every operation here runs under the
  object's \<open>dma_resv\<close>. A null dereference is \<open>None\<close>.
\<close>

section \<open>State\<close>

datatype memattr = VM_MEMATTR_DEFAULT | VM_MEMATTR_WRITE_COMBINING

record vmsys =
  wire :: "nat \<Rightarrow> nat"
  attr :: "nat \<Rightarrow> memattr"
  user_mapped :: "nat \<Rightarrow> bool"
  dirty_pages :: "nat set"
  accessed_pages :: "nat set"
  contig_alloc_pages :: u64
  teardown_pages :: u64
  teardown_objects :: u64

text \<open>
  \<open>sh_pages\<close> is the array \<open>pages\<close> (\<open>None\<close> for the null pointer) of page pointers that
  may themselves be null; \<open>sh_sgt\<close> lists the DMA address of each page of the mapped table.
\<close>

record shmem =
  gem_size :: u64
  gem_refs :: nat
  gem_import :: bool          \<comment> \<open>\<open>import_attach != NULL\<close>\<close>
  gem_exported :: bool        \<comment> \<open>\<open>dma_buf != NULL\<close>\<close>
  gem_filp :: bool            \<comment> \<open>\<open>filp != NULL && filp->f_shmem != NULL\<close>\<close>
  gem_mmap_offset :: bool
  sh_pages :: "nat option list option"
  sh_pages_use_count :: u32
  sh_madv :: int
  sh_sgt :: "u64 list option"
  sh_vaddr :: "nat option"
  sh_vmap_use_count :: u32
  sh_dirty_on_put :: bool
  sh_accessed_on_put :: bool
  sh_map_wc :: bool

record shmem_env =
  e_contig :: bool                         \<comment> \<open>sysctl \<open>lima_shmem_contig\<close>\<close>
  e_resident :: nat                        \<comment> \<open>\<open>vm_obj->resident_page_count\<close>\<close>
  e_contig_run :: "nat option"             \<comment> \<open>\<open>vm_page_alloc_contig\<close>\<close>
  e_read_page :: "nat \<Rightarrow> errno + nat"     \<comment> \<open>\<open>shmem_read_mapping_page\<close>\<close>
  e_kvmalloc :: bool
  e_pages_to_sg :: rc                      \<comment> \<open>\<open>drm_prime_pages_to_sg\<close>\<close>
  e_dma_map :: "errno + u64 list"          \<comment> \<open>\<open>dma_map_sgtable\<close>\<close>
  e_vmap :: "nat option"
  e_lock :: rc                             \<comment> \<open>\<open>dma_resv_lock_interruptible\<close>\<close>
  e_dmabuf_vmap :: "errno + (nat \<times> bool)" \<comment> \<open>\<open>dma_buf_vmap\<close>: address, \<open>is_iomem\<close>\<close>
  e_dmabuf_mmap :: rc
  e_create_object :: "errno + bool"        \<comment> \<open>\<open>gem_create_object\<close> hook: its \<open>map_wc\<close>\<close>
  e_object_init :: rc
  e_mmap_offset :: rc
  e_handle_create :: "errno + u32"

section \<open>Pages of the backing object\<close>

definition wire_page :: "nat \<Rightarrow> vmsys \<Rightarrow> vmsys" where
  "wire_page p s = s\<lparr>wire := (wire s)(p := wire s p + 1)\<rparr>"

definition put_page :: "nat \<Rightarrow> vmsys \<Rightarrow> vmsys" where
  "put_page p s = s\<lparr>wire := (wire s)(p := wire s p - 1)\<rparr>"

definition CONTIG_MAX_PAGES :: u64 where "CONTIG_MAX_PAGES = 4096"

definition drm_gem_shmem_freebsd_try_contig ::
  "shmem_env \<Rightarrow> u64 \<Rightarrow> vmsys \<Rightarrow> nat option \<times> vmsys" where
  "drm_gem_shmem_freebsd_try_contig env npages s =
     (if \<not> e_contig env \<or> npages < 2 \<or> npages > CONTIG_MAX_PAGES then (None, s)
      else if e_resident env \<noteq> 0 then (None, s)
      else case e_contig_run env of
        None \<Rightarrow> (None, s)
      | Some m \<Rightarrow>
          (Some m,
           fold wire_page [m..<m + unat npages]
             (s\<lparr>contig_alloc_pages := contig_alloc_pages s + npages\<rparr>)))"

text \<open>
  The loop over \<open>shmem_read_mapping_page\<close> with its \<open>fail\<close> path: the pages got so far
  (\<open>acc\<close>, newest first) are put again in that order.
\<close>

fun read_pages :: "shmem_env \<Rightarrow> nat list \<Rightarrow> nat list \<Rightarrow> vmsys \<Rightarrow> (errno + nat list) \<times> vmsys" where
  "read_pages env [] acc s = (Inr (rev acc), s)"
| "read_pages env (i # is) acc s =
     (case e_read_page env i of
        Inl e \<Rightarrow> (Inl e, fold put_page acc s)
      | Inr p \<Rightarrow> read_pages env is (p # acc) (wire_page p s))"

definition drm_gem_shmem_freebsd_get_pages ::
  "shmem_env \<Rightarrow> shmem \<Rightarrow> vmsys \<Rightarrow> (errno + nat option list) \<times> vmsys" where
  "drm_gem_shmem_freebsd_get_pages env obj s =
     (if \<not> gem_filp obj then (Inl EINVAL, s)
      else let npages = drm_gem_shmem_npages (gem_size obj) in
        if npages = 0 then (Inl EINVAL, s)
        else if \<not> e_kvmalloc env then (Inl ENOMEM, s)
        else case drm_gem_shmem_freebsd_try_contig env npages s of
          (Some m, s1) \<Rightarrow> (Inr (map Some [m..<m + unat npages]), s1)
        | (None, s1) \<Rightarrow>
            (case read_pages env [0..<unat npages] [] s1 of
               (Inl e, s2) \<Rightarrow> (Inl e, s2)
             | (Inr ps, s2) \<Rightarrow> (Inr (map Some ps), s2)))"

fun put_one_page :: "bool \<Rightarrow> bool \<Rightarrow> nat option \<Rightarrow> vmsys \<Rightarrow> vmsys" where
  "put_one_page dirty accessed None s = s"
| "put_one_page dirty accessed (Some p) s =
     (let s1 = (if dirty then s\<lparr>dirty_pages := insert p (dirty_pages s)\<rparr> else s);
          s2 = (if accessed then s1\<lparr>accessed_pages := insert p (accessed_pages s1)\<rparr> else s1)
      in put_page p s2)"

definition drm_gem_shmem_freebsd_put_pages ::
  "shmem \<Rightarrow> nat option list \<Rightarrow> bool \<Rightarrow> bool \<Rightarrow> vmsys \<Rightarrow> vmsys" where
  "drm_gem_shmem_freebsd_put_pages obj pages dirty accessed s =
     (let npages = drm_gem_shmem_npages (gem_size obj);
          s1 = s\<lparr>teardown_objects := teardown_objects s + 1,
                 teardown_pages := teardown_pages s + npages\<rparr>
      in fold (put_one_page dirty accessed) (take (unat npages) pages) s1)"

fun set_one_memattr :: "memattr \<Rightarrow> nat option \<Rightarrow> vmsys \<Rightarrow> vmsys" where
  "set_one_memattr a None s = s"
| "set_one_memattr a (Some p) s = s\<lparr>attr := (attr s)(p := a)\<rparr>"

definition drm_gem_shmem_set_pages_memattr ::
  "nat option list \<Rightarrow> u64 \<Rightarrow> memattr \<Rightarrow> vmsys \<Rightarrow> vmsys" where
  "drm_gem_shmem_set_pages_memattr pages npages a s =
     fold (set_one_memattr a) (take (unat npages) pages) s"

section \<open>References on the pages\<close>

definition drm_gem_shmem_get_pages :: "shmem_env \<Rightarrow> shmem \<Rightarrow> vmsys \<Rightarrow> rc \<times> shmem \<times> vmsys" where
  "drm_gem_shmem_get_pages env obj s =
     (let (first, c) = drm_gem_shmem_ref_first (sh_pages_use_count obj);
          obj1 = obj\<lparr>sh_pages_use_count := c\<rparr> in
      if \<not> first then (OK, obj1, s)
      else case drm_gem_shmem_freebsd_get_pages env obj1 s of
        (Inl e, s1) \<Rightarrow> (E e, obj1\<lparr>sh_pages_use_count := 0\<rparr>, s1)
      | (Inr pages, s1) \<Rightarrow>
          (OK, obj1\<lparr>sh_pages := Some pages\<rparr>,
           if sh_map_wc obj1
           then drm_gem_shmem_set_pages_memattr pages
                  (drm_gem_shmem_npages (gem_size obj1)) VM_MEMATTR_WRITE_COMBINING s1
           else s1))"

definition drm_gem_shmem_put_pages :: "shmem \<Rightarrow> vmsys \<Rightarrow> (shmem \<times> vmsys) option" where
  "drm_gem_shmem_put_pages obj s =
     (let (state, c) = drm_gem_shmem_unref (sh_pages_use_count obj);
          obj1 = obj\<lparr>sh_pages_use_count := c\<rparr> in
      case state of
        DRM_GEM_SHMEM_UNREF_UNDERFLOW \<Rightarrow> Some (obj1, s)
      | DRM_GEM_SHMEM_UNREF_KEEP \<Rightarrow> Some (obj1, s)
      | DRM_GEM_SHMEM_UNREF_RELEASE \<Rightarrow>
          (case sh_pages obj1 of
             None \<Rightarrow> None
           | Some pages \<Rightarrow>
               let s1 = (if sh_map_wc obj1
                         then drm_gem_shmem_set_pages_memattr pages
                                (drm_gem_shmem_npages (gem_size obj1)) VM_MEMATTR_DEFAULT s
                         else s)
               in Some (obj1\<lparr>sh_pages := None\<rparr>,
                        drm_gem_shmem_freebsd_put_pages obj1 pages
                          (sh_dirty_on_put obj1) (sh_accessed_on_put obj1) s1)))"

definition drm_gem_shmem_pin :: "shmem_env \<Rightarrow> shmem \<Rightarrow> vmsys \<Rightarrow> rc \<times> shmem \<times> vmsys" where
  "drm_gem_shmem_pin env obj s =
     (case e_lock env of E e \<Rightarrow> (E e, obj, s) | OK \<Rightarrow> drm_gem_shmem_get_pages env obj s)"

definition drm_gem_shmem_unpin :: "shmem \<Rightarrow> vmsys \<Rightarrow> (shmem \<times> vmsys) option" where
  "drm_gem_shmem_unpin obj s = drm_gem_shmem_put_pages obj s"

section \<open>Kernel mapping\<close>

text \<open>
  The result carries the address stored in the caller's \<open>iosys_map\<close>, when one is stored.
\<close>

definition drm_gem_shmem_vmap ::
  "shmem_env \<Rightarrow> shmem \<Rightarrow> vmsys \<Rightarrow> (rc \<times> nat option \<times> shmem \<times> vmsys) option" where
  "drm_gem_shmem_vmap env obj s =
     (if gem_import obj then
        (case e_dmabuf_vmap env of
           Inr (a, is_iomem) \<Rightarrow>
             if is_iomem then Some (E EIO, None, obj, s) else Some (OK, Some a, obj, s)
         | Inl e \<Rightarrow> Some (E e, None, obj\<lparr>sh_vmap_use_count := 0\<rparr>, s))
      else
        let (first, c) = drm_gem_shmem_ref_first (sh_vmap_use_count obj);
            obj1 = obj\<lparr>sh_vmap_use_count := c\<rparr> in
        if \<not> first then Some (OK, sh_vaddr obj1, obj1, s)
        else case drm_gem_shmem_get_pages env obj1 s of
          (E e, obj2, s2) \<Rightarrow> Some (E e, None, obj2\<lparr>sh_vmap_use_count := 0\<rparr>, s2)
        | (OK, obj2, s2) \<Rightarrow>
            let obj3 = obj2\<lparr>sh_vaddr := e_vmap env\<rparr> in
            (case e_vmap env of
               Some a \<Rightarrow> Some (OK, Some a, obj3, s2)
             | None \<Rightarrow> do {
                 (obj4, s4) \<leftarrow> drm_gem_shmem_put_pages obj3 s2;
                 Some (E ENOMEM, None, obj4\<lparr>sh_vmap_use_count := 0\<rparr>, s4)
               }))"

definition drm_gem_shmem_vunmap :: "shmem \<Rightarrow> vmsys \<Rightarrow> (shmem \<times> vmsys) option" where
  "drm_gem_shmem_vunmap obj s =
     (if gem_import obj then Some (obj\<lparr>sh_vaddr := None\<rparr>, s)
      else
        let (state, c) = drm_gem_shmem_unref (sh_vmap_use_count obj);
            obj1 = obj\<lparr>sh_vmap_use_count := c\<rparr> in
        case state of
          DRM_GEM_SHMEM_UNREF_UNDERFLOW \<Rightarrow> Some (obj1, s)
        | DRM_GEM_SHMEM_UNREF_KEEP \<Rightarrow> Some (obj1, s)
        | DRM_GEM_SHMEM_UNREF_RELEASE \<Rightarrow> do {
            (obj2, s2) \<leftarrow> drm_gem_shmem_put_pages obj1 s;
            Some (obj2\<lparr>sh_vaddr := None\<rparr>, s2)
          })"

section \<open>Scatter lists\<close>

definition drm_gem_shmem_get_pages_sgt_locked ::
  "shmem_env \<Rightarrow> shmem \<Rightarrow> vmsys \<Rightarrow> ((errno + u64 list) \<times> shmem \<times> vmsys) option" where
  "drm_gem_shmem_get_pages_sgt_locked env obj s =
     (case sh_sgt obj of
        Some sgt \<Rightarrow> Some (Inr sgt, obj, s)
      | None \<Rightarrow>
          (case drm_gem_shmem_get_pages env obj s of
             (E e, obj1, s1) \<Rightarrow> Some (Inl e, obj1, s1)
           | (OK, obj1, s1) \<Rightarrow>
               (case e_pages_to_sg env of
                  E e \<Rightarrow> do {
                    (obj2, s2) \<leftarrow> drm_gem_shmem_put_pages obj1 s1;
                    Some (Inl e, obj2, s2) }
                | OK \<Rightarrow>
                    (case e_dma_map env of
                       Inl e \<Rightarrow> do {
                         (obj2, s2) \<leftarrow> drm_gem_shmem_put_pages obj1 s1;
                         Some (Inl e, obj2, s2) }
                     | Inr sgt \<Rightarrow> Some (Inr sgt, obj1\<lparr>sh_sgt := Some sgt\<rparr>, s1)))))"

definition drm_gem_shmem_get_pages_sgt ::
  "shmem_env \<Rightarrow> shmem \<Rightarrow> vmsys \<Rightarrow> ((errno + u64 list) \<times> shmem \<times> vmsys) option" where
  "drm_gem_shmem_get_pages_sgt env obj s =
     (case e_lock env of
        E e \<Rightarrow> Some (Inl e, obj, s)
      | OK \<Rightarrow> drm_gem_shmem_get_pages_sgt_locked env obj s)"

section \<open>Creation and release\<close>

definition shmem_new :: "u64 \<Rightarrow> bool \<Rightarrow> shmem" where
  "shmem_new sz wc =
     \<lparr>gem_size = sz, gem_refs = 1, gem_import = False, gem_exported = False,
      gem_filp = True, gem_mmap_offset = True, sh_pages = None, sh_pages_use_count = 0,
      sh_madv = 0, sh_sgt = None, sh_vaddr = None, sh_vmap_use_count = 0,
      sh_dirty_on_put = False, sh_accessed_on_put = False, sh_map_wc = wc\<rparr>"

definition drm_gem_shmem_create_internal ::
  "shmem_env \<Rightarrow> u64 \<Rightarrow> bool \<Rightarrow> errno + shmem" where
  "drm_gem_shmem_create_internal env req private =
     (let sz = drm_gem_shmem_align_size req in
      case e_create_object env of
        Inl e \<Rightarrow> Inl e
      | Inr wc \<Rightarrow>
          let obj = (if private then (shmem_new sz False)\<lparr>gem_filp := False\<rparr>
                     else shmem_new sz wc);
              ret = (if private then OK else e_object_init env) in
          (case ret of
             E e \<Rightarrow> Inl e
           | OK \<Rightarrow> (case e_mmap_offset env of E e \<Rightarrow> Inl e | OK \<Rightarrow> Inr obj)))"

definition drm_gem_shmem_create :: "shmem_env \<Rightarrow> u64 \<Rightarrow> errno + shmem" where
  "drm_gem_shmem_create env req = drm_gem_shmem_create_internal env req False"

text \<open>
  The result of the release is what is left of the object when it is freed (its counters are what
  the two \<open>drm_WARN_ON\<close> look at) and the VM system.
\<close>

definition drm_gem_shmem_free :: "shmem \<Rightarrow> vmsys \<Rightarrow> (shmem \<times> vmsys) option" where
  "drm_gem_shmem_free obj s =
     (if gem_import obj then Some (obj\<lparr>sh_sgt := None\<rparr>, s)
      else
        let obj1 = obj\<lparr>sh_sgt := None\<rparr> in
        if sh_pages obj1 \<noteq> None then drm_gem_shmem_put_pages obj1 s else Some (obj1, s))"

definition drm_gem_shmem_prime_import_sg_table ::
  "shmem_env \<Rightarrow> u64 \<Rightarrow> u64 list \<Rightarrow> errno + shmem" where
  "drm_gem_shmem_prime_import_sg_table env dmabuf_size sgt =
     (case drm_gem_shmem_create_internal env (drm_gem_shmem_align_size dmabuf_size) True of
        Inl e \<Rightarrow> Inl e
      | Inr obj \<Rightarrow> Inr (obj\<lparr>sh_sgt := Some sgt\<rparr>))"

section \<open>Dumb buffers\<close>

record dumb_args =
  db_width :: u32
  db_height :: u32
  db_bpp :: u32
  db_pitch :: u32
  db_size :: u64

definition DIV_ROUND_UP :: "u32 \<Rightarrow> u32 \<Rightarrow> u32" where
  "DIV_ROUND_UP n d = (n + (d - 1)) div d"

definition dumb_layout :: "dumb_args \<Rightarrow> dumb_args" where
  "dumb_layout a =
     (let min_pitch = DIV_ROUND_UP (db_width a * db_bpp a) 8 in
      if db_pitch a = 0 \<or> db_size a = 0 then
        a\<lparr>db_pitch := min_pitch,
          db_size := drm_gem_shmem_align_size (ucast (min_pitch * db_height a))\<rparr>
      else
        let a1 = (if db_pitch a < min_pitch then a\<lparr>db_pitch := min_pitch\<rparr> else a) in
        if db_size a1 < ucast (db_pitch a1) * ucast (db_height a1)
        then a1\<lparr>db_size := drm_gem_shmem_align_size (ucast (db_pitch a1 * db_height a1))\<rparr>
        else a1)"

definition drm_gem_shmem_create_with_handle :: "shmem_env \<Rightarrow> u64 \<Rightarrow> (errno + u32) \<times> shmem option" where
  "drm_gem_shmem_create_with_handle env sz =
     (case drm_gem_shmem_create env sz of
        Inl e \<Rightarrow> (Inl e, None)
      | Inr obj \<Rightarrow>
          (case e_handle_create env of
             Inl e \<Rightarrow> (Inl e, Some (obj\<lparr>gem_refs := gem_refs obj - 1\<rparr>))
           | Inr h \<Rightarrow> (Inr h, Some (obj\<lparr>gem_refs := gem_refs obj + 1 - 1\<rparr>))))"

definition drm_gem_shmem_dumb_create ::
  "shmem_env \<Rightarrow> dumb_args \<Rightarrow> (errno + u32) \<times> shmem option \<times> dumb_args" where
  "drm_gem_shmem_dumb_create env a =
     (let a1 = dumb_layout a; (r, obj) = drm_gem_shmem_create_with_handle env (db_size a1)
      in (r, obj, a1))"

section \<open>madvise and purge\<close>

definition drm_gem_shmem_madvise :: "shmem \<Rightarrow> int \<Rightarrow> bool \<times> shmem" where
  "drm_gem_shmem_madvise obj madv =
     (let (usable, m) = drm_gem_shmem_madvise_apply (sh_madv obj) madv
      in (usable, obj\<lparr>sh_madv := m\<rparr>))"

definition drm_gem_shmem_is_purgeable :: "shmem \<Rightarrow> bool" where
  "drm_gem_shmem_is_purgeable obj =
     drm_gem_shmem_purgeable (sh_madv obj) (sh_vmap_use_count obj) (sh_sgt obj \<noteq> None)
       (gem_exported obj) (gem_import obj)"

fun zap_one :: "nat option \<Rightarrow> vmsys \<Rightarrow> vmsys" where
  "zap_one None s = s"
| "zap_one (Some p) s = s\<lparr>user_mapped := (user_mapped s)(p := False)\<rparr>"

definition drm_gem_shmem_zap_ptes :: "shmem \<Rightarrow> vmsys \<Rightarrow> vmsys option" where
  "drm_gem_shmem_zap_ptes obj s =
     (let npages = unat (drm_gem_shmem_npages (gem_size obj)) in
      case sh_pages obj of
        None \<Rightarrow> (if npages = 0 then Some s else None)
      | Some pages \<Rightarrow> Some (fold zap_one (take npages pages) s))"

definition drm_gem_shmem_purge :: "shmem \<Rightarrow> vmsys \<Rightarrow> (shmem \<times> vmsys) option" where
  "drm_gem_shmem_purge obj s = do {
     s1 \<leftarrow> drm_gem_shmem_zap_ptes obj s;
     obj1 \<leftarrow> (case sh_sgt obj of None \<Rightarrow> None | Some _ \<Rightarrow> Some (obj\<lparr>sh_sgt := None\<rparr>));
     (obj2, s2) \<leftarrow> drm_gem_shmem_put_pages obj1 s1;
     (if gem_filp obj2
      then Some (obj2\<lparr>sh_madv := -1, gem_mmap_offset := False\<rparr>, s2) else None)
   }"

section \<open>User mappings\<close>

datatype vm_fault = VM_FAULT_SIGBUS | VM_FAULT_NOPAGE nat

definition drm_gem_shmem_fault :: "shmem \<Rightarrow> u64 \<Rightarrow> u64 \<Rightarrow> vmsys \<Rightarrow> (vm_fault \<times> vmsys) option" where
  "drm_gem_shmem_fault obj address vm_start s =
     (case drm_gem_shmem_fault_index address vm_start
             (drm_gem_shmem_npages (gem_size obj)) of
        None \<Rightarrow> Some (VM_FAULT_SIGBUS, s)
      | Some idx \<Rightarrow>
          (case sh_pages obj of
             None \<Rightarrow> Some (VM_FAULT_SIGBUS, s)
           | Some pages \<Rightarrow>
               if sh_madv obj < 0 then Some (VM_FAULT_SIGBUS, s)
               else case pages ! unat idx of
                 None \<Rightarrow> None
               | Some p \<Rightarrow>
                   Some (VM_FAULT_NOPAGE p, s\<lparr>user_mapped := (user_mapped s)(p := True)\<rparr>)))"

definition drm_gem_shmem_vm_open :: "shmem \<Rightarrow> shmem" where
  "drm_gem_shmem_vm_open obj =
     (let obj1 = (if sh_pages_use_count obj \<noteq> 0
                  then obj\<lparr>sh_pages_use_count := sh_pages_use_count obj + 1\<rparr> else obj)
      in obj1\<lparr>gem_refs := gem_refs obj1 + 1\<rparr>)"

definition drm_gem_shmem_vm_close :: "shmem \<Rightarrow> vmsys \<Rightarrow> (shmem \<times> vmsys) option" where
  "drm_gem_shmem_vm_close obj s = do {
     (obj1, s1) \<leftarrow> drm_gem_shmem_put_pages obj s;
     Some (obj1\<lparr>gem_refs := gem_refs obj1 - 1\<rparr>, s1)
   }"

text \<open>The result says whether the mapping is to be write-combined.\<close>

definition drm_gem_shmem_mmap ::
  "shmem_env \<Rightarrow> shmem \<Rightarrow> vmsys \<Rightarrow> rc \<times> bool \<times> shmem \<times> vmsys" where
  "drm_gem_shmem_mmap env obj s =
     (if gem_import obj then
        (case e_dmabuf_mmap env of
           E e \<Rightarrow> (E e, False, obj, s)
         | OK \<Rightarrow> (OK, False, obj\<lparr>gem_refs := gem_refs obj - 1\<rparr>, s))
      else
        case drm_gem_shmem_get_pages env obj s of
          (E e, obj1, s1) \<Rightarrow> (E e, False, obj1, s1)
        | (OK, obj1, s1) \<Rightarrow> (OK, sh_map_wc obj1, obj1, s1))"

section \<open>Wirings\<close>

lemma wire_fold_wire: "wire (fold wire_page ps s) q = wire s q + count_list ps q"
  by (induction ps arbitrary: s) (auto simp: wire_page_def)

lemma wire_fold_put: "wire (fold put_page ps s) q = wire s q - count_list ps q"
  by (induction ps arbitrary: s) (auto simp: put_page_def)

lemma wire_put_one:
  "wire (put_one_page d a x s) q = wire s q - (if x = Some q then 1 else 0)"
  by (cases x) (auto simp: put_page_def Let_def)

lemma wire_fold_put_one:
  "wire (fold (put_one_page d a) ps s) q = wire s q - count_list ps (Some q)"
  by (induction ps arbitrary: s) (auto simp: wire_put_one)

lemma wire_set_memattr [simp]:
  "wire (drm_gem_shmem_set_pages_memattr pages n a s) = wire s"
proof -
  have one: "wire (set_one_memattr a x s) = wire s" for x s
    by (cases x) auto
  have "wire (fold (set_one_memattr a) xs s) = wire s" for xs
    by (induction xs arbitrary: s) (auto simp: one)
  then show ?thesis by (simp add: drm_gem_shmem_set_pages_memattr_def)
qed

lemma count_list_map_Some [simp]: "count_list (map Some ps) (Some q) = count_list ps q"
  by (induction ps) auto

lemma read_pages_Inr:
  "read_pages env is acc s = (Inr ps, s') \<Longrightarrow>
   \<exists>new. ps = rev acc @ new \<and> List.length new = List.length is \<and>
     (\<forall>q. wire s' q = wire s q + count_list new q)"
proof (induction "is" arbitrary: acc s)
  case Nil
  then show ?case by auto
next
  case (Cons i "is")
  then obtain p where p: "e_read_page env i = Inr p"
    and r: "read_pages env is (p # acc) (wire_page p s) = (Inr ps, s')"
    by (auto split: sum.splits)
  from Cons.IH [OF r] obtain new where new: "ps = rev (p # acc) @ new"
    "List.length new = List.length is"
    "\<forall>q. wire s' q = wire (wire_page p s) q + count_list new q" by blast
  have "ps = rev acc @ (p # new)" using new(1) by simp
  moreover have "\<forall>q. wire s' q = wire s q + count_list (p # new) q"
    using new(3) by (auto simp: wire_page_def)
  ultimately show ?case using new(2) by (intro exI [of _ "p # new"]) simp
qed

text \<open>On failure every page wired so far is put again.\<close>

lemma read_pages_Inl:
  "read_pages env is acc s = (Inl e, s') \<Longrightarrow> wire s' q = wire s q - count_list acc q"
proof (induction "is" arbitrary: acc s)
  case Nil
  then show ?case by simp
next
  case (Cons i "is")
  show ?case
  proof (cases "e_read_page env i")
    case (Inl e')
    with Cons.prems show ?thesis by (auto simp: wire_fold_put)
  next
    case (Inr p)
    with Cons.prems have "read_pages env is (p # acc) (wire_page p s) = (Inl e, s')" by simp
    from Cons.IH [OF this] show ?thesis by (auto simp: wire_page_def)
  qed
qed

lemma try_contig_None: "drm_gem_shmem_freebsd_try_contig env n s = (None, s1) \<Longrightarrow> s1 = s"
  by (auto simp: drm_gem_shmem_freebsd_try_contig_def split: if_splits option.splits)

lemma try_contig_Some:
  "drm_gem_shmem_freebsd_try_contig env n s = (Some m, s1) \<Longrightarrow>
   wire s1 q = wire s q + count_list [m..<m + unat n] q"
  by (auto simp: drm_gem_shmem_freebsd_try_contig_def wire_fold_wire split: if_splits option.splits)

lemma freebsd_get_pages_Inl:
  "drm_gem_shmem_freebsd_get_pages env obj s = (Inl e, s') \<Longrightarrow> wire s' = wire s"
  by (rule ext)
    (auto simp: drm_gem_shmem_freebsd_get_pages_def Let_def
      split: if_splits prod.splits option.splits sum.splits
      dest!: try_contig_None read_pages_Inl)

lemma freebsd_get_pages_Inr:
  assumes "drm_gem_shmem_freebsd_get_pages env obj s = (Inr pages, s')"
  shows "wire s' q = wire s q + count_list pages (Some q)"
    and "List.length pages = unat (drm_gem_shmem_npages (gem_size obj))"
    and "None \<notin> set pages" and "pages \<noteq> []"
proof -
  let ?n = "drm_gem_shmem_npages (gem_size obj)"
  have n: "?n \<noteq> 0" using assms
    by (auto simp: drm_gem_shmem_freebsd_get_pages_def Let_def split: if_splits)
  obtain c s1 where tc: "drm_gem_shmem_freebsd_try_contig env ?n s = (c, s1)" by force
  have "\<exists>ps. pages = map Some ps \<and> List.length ps = unat ?n \<and>
      wire s' q = wire s q + count_list ps q"
  proof (cases c)
    case (Some m)
    with assms tc have "pages = map Some [m..<m + unat ?n]" "s' = s1"
      by (auto simp: drm_gem_shmem_freebsd_get_pages_def Let_def split: if_splits)
    with try_contig_Some [of env ?n s m s1 q] tc Some show ?thesis by auto
  next
    case None
    with assms tc obtain ps where "pages = map Some ps"
      and r: "read_pages env [0..<unat ?n] [] s1 = (Inr ps, s')"
      by (auto simp: drm_gem_shmem_freebsd_get_pages_def Let_def
          split: if_splits sum.splits prod.splits)
    moreover have "s1 = s" using tc None try_contig_None by blast
    ultimately show ?thesis using read_pages_Inr [OF r] by auto
  qed
  then obtain ps where ps: "pages = map Some ps" "List.length ps = unat ?n"
    "wire s' q = wire s q + count_list ps q" by blast
  then show "wire s' q = wire s q + count_list pages (Some q)"
    "List.length pages = unat ?n" "None \<notin> set pages" by auto
  have "unat ?n \<noteq> 0" using n by (simp add: unat_eq_0)
  with ps show "pages \<noteq> []" by auto
qed

end
