(* ===== verification/Lima_VM.thy ===== *)
theory Lima_VM
  imports Lima_Regs Shmem_Helper
begin

text \<open>
  The GPU address space (\<open>lima_vm.c\<close>, \<open>lima_vm.h\<close>): the page directory and its 128
  backing tables of 8 page tables each, the map and unmap loops, and the attachment of a buffer
  object to an address space.

  A table is a function from entry index to the 32-bit entry; \<open>None\<close> in \<open>vm_bts\<close> is the
  null \<open>cpu\<close> pointer. \<open>dma_alloc_coherent\<close>, \<open>kzalloc\<close> and the range allocator
  \<open>drm_mm\<close> belong to the kernel: what they answer is a parameter, and of \<open>drm_mm\<close> the
  state keeps the list of nodes in use. An operation that may dereference null or not return has an
  \<open>option\<close> result.
\<close>

section \<open>Geometry\<close>

definition LIMA_PAGE_SIZE :: u32 where "LIMA_PAGE_SIZE = 4096"
definition LIMA_VM_NUM_PT_PER_BT_SHIFT :: nat where "LIMA_VM_NUM_PT_PER_BT_SHIFT = 3"
definition LIMA_VM_NUM_PT_PER_BT :: nat where "LIMA_VM_NUM_PT_PER_BT = 2 ^ LIMA_VM_NUM_PT_PER_BT_SHIFT"
definition LIMA_PAGE_ENT_NUM :: nat where "LIMA_PAGE_ENT_NUM = 4096 div 4"
definition LIMA_VM_NUM_BT :: nat where
  "LIMA_VM_NUM_BT = LIMA_PAGE_ENT_NUM div 2 ^ LIMA_VM_NUM_PT_PER_BT_SHIFT"
definition LIMA_VA_RESERVE_START :: u64 where "LIMA_VA_RESERVE_START = 0x0FFF00000"
definition LIMA_VA_RESERVE_DLBU :: u64 where "LIMA_VA_RESERVE_DLBU = LIMA_VA_RESERVE_START"
definition LIMA_VA_RESERVE_END :: u64 where "LIMA_VA_RESERVE_END = 0x100000000"

definition LIMA_VM_PD_SHIFT :: nat where "LIMA_VM_PD_SHIFT = 22"
definition LIMA_VM_PT_SHIFT :: nat where "LIMA_VM_PT_SHIFT = 12"
definition LIMA_VM_PB_SHIFT :: nat where
  "LIMA_VM_PB_SHIFT = LIMA_VM_PD_SHIFT + LIMA_VM_NUM_PT_PER_BT_SHIFT"
definition LIMA_VM_BT_SHIFT :: nat where "LIMA_VM_BT_SHIFT = LIMA_VM_PT_SHIFT"
definition LIMA_VM_PT_MASK :: u32 where "LIMA_VM_PT_MASK = push_bit LIMA_VM_PD_SHIFT 1 - 1"
definition LIMA_VM_BT_MASK :: u32 where "LIMA_VM_BT_MASK = push_bit LIMA_VM_PB_SHIFT 1 - 1"

definition LIMA_PDE :: "u32 \<Rightarrow> u32" where "LIMA_PDE va = drop_bit LIMA_VM_PD_SHIFT va"
definition LIMA_PTE :: "u32 \<Rightarrow> u32" where
  "LIMA_PTE va = drop_bit LIMA_VM_PT_SHIFT (va AND LIMA_VM_PT_MASK)"
definition LIMA_PBE :: "u32 \<Rightarrow> u32" where "LIMA_PBE va = drop_bit LIMA_VM_PB_SHIFT va"
definition LIMA_BTE :: "u32 \<Rightarrow> u32" where
  "LIMA_BTE va = drop_bit LIMA_VM_BT_SHIFT (va AND LIMA_VM_BT_MASK)"

section \<open>State\<close>

record vm_page =
  vp_cpu :: "nat \<Rightarrow> u32"
  vp_dma :: u64

record drm_mm =
  mm_start :: u64
  mm_size :: u64
  mm_nodes :: "(u64 \<times> u64) list" \<comment> \<open>start and size of each node in use\<close>

record lima_vm =
  vm_refcount :: nat
  vm_mm :: drm_mm
  vm_pd :: vm_page
  vm_bts :: "nat \<Rightarrow> vm_page option"

record lima_bo_va =
  bva_vm :: nat           \<comment> \<open>which address space: the pointer \<open>vm\<close>\<close>
  bva_ref_count :: u32
  bva_start :: u64        \<comment> \<open>\<open>node.start\<close>\<close>
  bva_size :: u64         \<comment> \<open>\<open>node.size\<close>\<close>

record lima_bo =
  bo_base :: shmem
  bo_va :: "lima_bo_va list"
  bo_heap_size :: u64

definition lima_bo_size :: "lima_bo \<Rightarrow> u64" where
  "lima_bo_size bo = gem_size (bo_base bo)"

section \<open>Page table entries\<close>

definition set_entry :: "nat \<Rightarrow> nat \<Rightarrow> u32 \<Rightarrow> lima_vm \<Rightarrow> lima_vm" where
  "set_entry pbe bte v vm =
     (case vm_bts vm pbe of
        None \<Rightarrow> vm
      | Some p \<Rightarrow> vm\<lparr>vm_bts := (vm_bts vm)(pbe := Some (p\<lparr>vp_cpu := (vp_cpu p)(bte := v)\<rparr>))\<rparr>)"

text \<open>The result and \<open>*bt_present\<close>.\<close>

definition lima_vm_probe_pte :: "lima_vm \<Rightarrow> u32 \<Rightarrow> u32 \<times> bool" where
  "lima_vm_probe_pte vm va =
     (let pbe = unat (LIMA_PBE va); bte = unat (LIMA_BTE va) in
      if pbe \<ge> LIMA_VM_NUM_BT then (0, False)
      else case vm_bts vm pbe of
        None \<Rightarrow> (0, False)
      | Some p \<Rightarrow> (vp_cpu p bte, True))"

text \<open>
  The loop \<open>for (addr = start; addr <= end; addr += LIMA_PAGE_SIZE)\<close> on \<open>u32\<close>: it may wrap
  and never end, and it dereferences a null table where there is none.
\<close>

partial_function (option) lima_vm_unmap_range :: "u32 \<Rightarrow> u32 \<Rightarrow> lima_vm \<Rightarrow> lima_vm option" where
  "lima_vm_unmap_range addr last_addr vm =
     (if addr \<le> last_addr then
        (case vm_bts vm (unat (LIMA_PBE addr)) of
           None \<Rightarrow> None
         | Some _ \<Rightarrow>
             lima_vm_unmap_range (addr + LIMA_PAGE_SIZE) last_addr
               (set_entry (unat (LIMA_PBE addr)) (unat (LIMA_BTE addr)) 0 vm))
      else Some vm)"

declare lima_vm_unmap_range.simps [code]

text \<open>The loop that fills 8 directory entries of a new backing table.\<close>

fun write_pd :: "nat \<Rightarrow> nat \<Rightarrow> u64 \<Rightarrow> (nat \<Rightarrow> u32) \<Rightarrow> nat \<Rightarrow> u32" where
  "write_pd 0 j pts pd = pd"
| "write_pd (Suc n) j pts pd =
     write_pd n (Suc j) (pts + 4096) (pd(j := ucast (pts OR ucast LIMA_VM_FLAG_PRESENT)))"

text \<open>
  \<open>alloc pbe\<close> is the bus address \<open>dma_alloc_coherent\<close> returns for the table \<open>pbe\<close>
  (\<open>__GFP_ZERO\<close>: the memory is zero), \<open>None\<close> when it fails.
\<close>

definition lima_vm_map_page :: "(nat \<Rightarrow> u64 option) \<Rightarrow> u64 \<Rightarrow> u32 \<Rightarrow> lima_vm \<Rightarrow> rc \<times> lima_vm" where
  "lima_vm_map_page alloc pa va vm =
     (let pbe = unat (LIMA_PBE va); bte = unat (LIMA_BTE va);
          pte = ucast (pa OR ucast LIMA_VM_FLAGS_CACHE) in
      if pa > UINT32_MAX - ucast LIMA_PAGE_SIZE + 1 then (E ERANGE, vm)
      else case vm_bts vm pbe of
        Some _ \<Rightarrow> (OK, set_entry pbe bte pte vm)
      | None \<Rightarrow>
          (case alloc pbe of
             None \<Rightarrow> (E ENOMEM, vm)
           | Some pts \<Rightarrow>
               if pts + ucast LIMA_PAGE_SIZE * of_nat LIMA_VM_NUM_PT_PER_BT - 1 > UINT32_MAX
               then (E ERANGE, vm)
               else
                 let pd = write_pd LIMA_VM_NUM_PT_PER_BT
                            (push_bit LIMA_VM_NUM_PT_PER_BT_SHIFT pbe) pts (vp_cpu (vm_pd vm));
                     vm1 = vm\<lparr>vm_pd := (vm_pd vm)\<lparr>vp_cpu := pd\<rparr>,
                              vm_bts := (vm_bts vm)
                                (pbe := Some \<lparr>vp_cpu = (\<lambda>_. 0), vp_dma = pts\<rparr>)\<rparr>
                 in (OK, set_entry pbe bte pte vm1)))"

section \<open>Buffer objects in an address space\<close>

fun lima_vm_bo_find :: "nat \<Rightarrow> lima_bo_va list \<Rightarrow> lima_bo_va option" where
  "lima_vm_bo_find vm [] = None"
| "lima_vm_bo_find vm (b # bs) = (if bva_vm b = vm then Some b else lima_vm_bo_find vm bs)"

fun va_update :: "nat \<Rightarrow> (lima_bo_va \<Rightarrow> lima_bo_va) \<Rightarrow> lima_bo_va list \<Rightarrow> lima_bo_va list" where
  "va_update vm f [] = []"
| "va_update vm f (b # bs) = (if bva_vm b = vm then f b # bs else b # va_update vm f bs)"

fun va_remove :: "nat \<Rightarrow> lima_bo_va list \<Rightarrow> lima_bo_va list" where
  "va_remove vm [] = []"
| "va_remove vm (b # bs) = (if bva_vm b = vm then bs else b # va_remove vm bs)"

definition drm_mm_add :: "u64 \<times> u64 \<Rightarrow> lima_vm \<Rightarrow> lima_vm" where
  "drm_mm_add n vm = vm\<lparr>vm_mm := (vm_mm vm)\<lparr>mm_nodes := n # mm_nodes (vm_mm vm)\<rparr>\<rparr>"

definition drm_mm_remove_node :: "u64 \<times> u64 \<Rightarrow> lima_vm \<Rightarrow> lima_vm" where
  "drm_mm_remove_node n vm = vm\<lparr>vm_mm := (vm_mm vm)\<lparr>mm_nodes := remove1 n (mm_nodes (vm_mm vm))\<rparr>\<rparr>"

text \<open>
  One round of \<open>for_each_sgtable_dma_page\<close>: the counter \<open>offset\<close> moves on only after a page
  was mapped.
\<close>

definition map_step ::
  "(u64 \<Rightarrow> u32 \<Rightarrow> 'vm \<Rightarrow> rc \<times> 'vm) \<Rightarrow> u32 \<Rightarrow> u32 \<times> 'vm \<Rightarrow> u64 \<Rightarrow> rc \<times> (u32 \<times> 'vm)" where
  "map_step pmap base s pa =
     (case s of (offset, vm) \<Rightarrow>
      case pmap pa (base + offset) vm of
        (E e, vm1) \<Rightarrow> (E e, (offset, vm1))
      | (OK, vm1) \<Rightarrow> (OK, (offset + ucast PAGE_SIZE, vm1)))"

text \<open>
  The error path shared by \<open>lima_vm_bo_add\<close> and \<open>lima_vm_map_bo\<close>: unmap what was mapped.
\<close>

definition map_pages ::
  "(u64 \<Rightarrow> u32 \<Rightarrow> 'vm \<Rightarrow> rc \<times> 'vm) \<Rightarrow> (u32 \<Rightarrow> u32 \<Rightarrow> 'vm \<Rightarrow> 'vm option) \<Rightarrow>
   u32 \<Rightarrow> u64 list \<Rightarrow> 'vm \<Rightarrow> (rc \<times> 'vm) option" where
  "map_pages pmap unmap base pages vm =
     (case foreach (map_step pmap base) (0, vm) pages of
        (OK, (offset, vm1)) \<Rightarrow> Some (OK, vm1)
      | (E e, (offset, vm1)) \<Rightarrow>
          if offset \<noteq> 0 then do {
            vm2 \<leftarrow> unmap base (base + offset - 1) vm1;
            Some (E e, vm2)
          } else Some (E e, vm1))"

record vm_env =
  ve_alloc :: "nat \<Rightarrow> u64 option"
  ve_kzalloc :: bool
  ve_insert :: "errno + u64"  \<comment> \<open>\<open>drm_mm_insert_node\<close>: the start of the node\<close>

definition lima_vm_bo_add ::
  "vm_env \<Rightarrow> nat \<Rightarrow> bool \<Rightarrow> lima_vm \<Rightarrow> lima_bo \<Rightarrow> (rc \<times> lima_vm \<times> lima_bo) option" where
  "lima_vm_bo_add env i create vm bo =
     (case lima_vm_bo_find i (bo_va bo) of
        Some _ \<Rightarrow>
          Some (OK, vm, bo\<lparr>bo_va := va_update i
            (\<lambda>b. b\<lparr>bva_ref_count := bva_ref_count b + 1\<rparr>) (bo_va bo)\<rparr>)
      | None \<Rightarrow>
          if \<not> create then Some (E ENOENT, vm, bo)
          else if \<not> ve_kzalloc env then Some (E ENOMEM, vm, bo)
          else case ve_insert env of
            Inl e \<Rightarrow> Some (E e, vm, bo)
          | Inr start \<Rightarrow>
              let node = (start, lima_bo_size bo); vm1 = drm_mm_add node vm in
              (case sh_sgt (bo_base bo) of
                 None \<Rightarrow> None
               | Some pages \<Rightarrow> do {
                   (r, vm2) \<leftarrow> map_pages (lima_vm_map_page (ve_alloc env)) lima_vm_unmap_range
                                (ucast start) pages vm1;
                   (case r of
                      E e \<Rightarrow> Some (E e, drm_mm_remove_node node vm2, bo)
                    | OK \<Rightarrow> Some (OK, vm2, bo\<lparr>bo_va := bo_va bo @
                        [\<lparr>bva_vm = i, bva_ref_count = 1, bva_start = start,
                          bva_size = lima_bo_size bo\<rparr>]\<rparr>))
                 }))"

definition lima_vm_bo_del :: "nat \<Rightarrow> lima_vm \<Rightarrow> lima_bo \<Rightarrow> (lima_vm \<times> lima_bo) option" where
  "lima_vm_bo_del i vm bo = do {
     b \<leftarrow> lima_vm_bo_find i (bo_va bo);
     let count = bva_ref_count b - 1;
     let bo1 = bo\<lparr>bo_va := va_update i (\<lambda>b. b\<lparr>bva_ref_count := count\<rparr>) (bo_va bo)\<rparr>;
     (if count > 0 then Some (vm, bo1)
      else do {
        let sz = ((if bo_heap_size bo \<noteq> 0 then ucast (bo_heap_size bo) else ucast (bva_size b)) :: u32);
        vm1 \<leftarrow> lima_vm_unmap_range (ucast (bva_start b)) (ucast (bva_start b) + sz - 1) vm;
        Some (drm_mm_remove_node (bva_start b, bva_size b) vm1,
              bo1\<lparr>bo_va := va_remove i (bo_va bo1)\<rparr>)
      })
   }"

definition lima_vm_get_va :: "nat \<Rightarrow> lima_bo \<Rightarrow> u32 option" where
  "lima_vm_get_va i bo = do {
     b \<leftarrow> lima_vm_bo_find i (bo_va bo);
     Some (ucast (bva_start b))
   }"

definition lima_vm_map_bo ::
  "(nat \<Rightarrow> u64 option) \<Rightarrow> nat \<Rightarrow> nat \<Rightarrow> lima_vm \<Rightarrow> lima_bo \<Rightarrow> (rc \<times> lima_vm) option" where
  "lima_vm_map_bo alloc i pageoff vm bo =
     (case lima_vm_bo_find i (bo_va bo) of
        None \<Rightarrow> Some (E ENOENT, vm)
      | Some b \<Rightarrow>
          let base = ucast (bva_start b) + push_bit PAGE_SHIFT (of_nat pageoff) in
          (case sh_sgt (bo_base bo) of
             None \<Rightarrow> None
           | Some pages \<Rightarrow>
               map_pages (lima_vm_map_page alloc) lima_vm_unmap_range base (drop pageoff pages) vm))"

section \<open>Creation and release\<close>

record vm_create_env =
  vc_kzalloc :: bool
  vc_pd :: "u64 option"
  vc_alloc :: "nat \<Rightarrow> u64 option"
  vc_dlbu :: "u64 option"     \<comment> \<open>\<open>dev->dlbu_dma\<close> when \<open>dev->dlbu_cpu\<close> is set\<close>
  vc_va_start :: u64
  vc_va_end :: u64

definition vm_blank :: "u64 \<Rightarrow> lima_vm" where
  "vm_blank dma = \<lparr>vm_refcount = 1, vm_mm = \<lparr>mm_start = 0, mm_size = 0, mm_nodes = []\<rparr>,
     vm_pd = \<lparr>vp_cpu = (\<lambda>_. 0), vp_dma = dma\<rparr>, vm_bts = (\<lambda>_. None)\<rparr>"

definition lima_vm_create :: "vm_create_env \<Rightarrow> lima_vm option" where
  "lima_vm_create env =
     (if \<not> vc_kzalloc env then None
      else case vc_pd env of
        None \<Rightarrow> None
      | Some dma \<Rightarrow>
          let vm = vm_blank dma;
              (err, vm1) = (case vc_dlbu env of
                 None \<Rightarrow> (OK, vm)
               | Some d \<Rightarrow> lima_vm_map_page (vc_alloc env) d (ucast LIMA_VA_RESERVE_DLBU) vm) in
          (case err of
             E _ \<Rightarrow> None
           | OK \<Rightarrow> Some (vm1\<lparr>vm_mm := \<lparr>mm_start = vc_va_start env,
                 mm_size = vc_va_end env - vc_va_start env, mm_nodes = []\<rparr>\<rparr>)))"

text \<open>
  What \<open>lima_vm_release\<close> gives back to \<open>dma_free_coherent\<close>, in order; \<open>drm_mm_takedown\<close>
  warns when nodes are left.
\<close>

definition lima_vm_release :: "lima_vm \<Rightarrow> u64 list" where
  "lima_vm_release vm =
     List.map_filter (\<lambda>i. map_option vp_dma (vm_bts vm i)) [0..<LIMA_VM_NUM_BT] @ [vp_dma (vm_pd vm)]"

definition lima_vm_get :: "lima_vm \<Rightarrow> lima_vm" where
  "lima_vm_get vm = vm\<lparr>vm_refcount := vm_refcount vm + 1\<rparr>"

text \<open>\<open>Inr\<close> is the freed address space with what it gave back.\<close>

definition lima_vm_put :: "lima_vm option \<Rightarrow> lima_vm option + u64 list" where
  "lima_vm_put v =
     (case v of
        None \<Rightarrow> Inl None
      | Some vm \<Rightarrow>
          if vm_refcount vm - 1 = 0 then Inr (lima_vm_release vm)
          else Inl (Some (vm\<lparr>vm_refcount := vm_refcount vm - 1\<rparr>)))"

end
