(* ===== verification/Lima_Page_Table.thy ===== *)
theory Lima_Page_Table
  imports Lima_VM
begin

text \<open>
  What the page tables promise: an interface \<open>page_table\<close> of pages that can be mapped, looked
  up and unmapped, its consequences for the loops with their error path, and the proof that
  \<open>lima_vm_map_page\<close>, \<open>lima_vm_probe_pte\<close> and \<open>lima_vm_unmap_range\<close> implement it.
\<close>

section \<open>Page numbers\<close>

definition vpn :: "u32 \<Rightarrow> nat" where
  "vpn va = unat va div 4096"

lemmas vm_geometry = LIMA_VM_PB_SHIFT_def LIMA_VM_PD_SHIFT_def LIMA_VM_NUM_PT_PER_BT_SHIFT_def
  LIMA_VM_BT_SHIFT_def LIMA_VM_PT_SHIFT_def LIMA_VM_NUM_PT_PER_BT_def LIMA_VM_NUM_BT_def
  LIMA_PAGE_ENT_NUM_def

lemma BT_MASK_eq: "LIMA_VM_BT_MASK = mask 25"
  by (simp add: LIMA_VM_BT_MASK_def vm_geometry mask_eq_decr_exp push_bit_eq_mult)

lemma PT_MASK_eq: "LIMA_VM_PT_MASK = mask 22"
  by (simp add: LIMA_VM_PT_MASK_def vm_geometry mask_eq_decr_exp push_bit_eq_mult)

lemma unat_PBE: "unat (LIMA_PBE va) = vpn va div 8192"
  by (simp add: LIMA_PBE_def vm_geometry unat_drop_bit_word vpn_def div_mult2_eq [symmetric])

lemma unat_BTE: "unat (LIMA_BTE va) = vpn va mod 8192"
proof -
  have "unat (LIMA_BTE va) = unat va mod 33554432 div 4096"
    by (simp only: LIMA_BTE_def BT_MASK_eq LIMA_VM_BT_SHIFT_def LIMA_VM_PT_SHIFT_def
        unat_drop_bit_word unat_and_mask_word) simp
  also have "\<dots> = unat va div 4096 mod 8192"
    using mod_mult2_eq [of "unat va" 4096 8192] by simp
  finally show ?thesis by (simp add: vpn_def)
qed

lemma vpn_less: "vpn va < 1048576"
  using unat_u32_less [of va] by (simp add: vpn_def)

lemma PBE_less: "unat (LIMA_PBE va) < LIMA_VM_NUM_BT"
  using vpn_less [of va] by (simp add: unat_PBE vm_geometry)

text \<open>The entry of a page, addressed by the page number.\<close>

definition pte_at :: "lima_vm \<Rightarrow> nat \<Rightarrow> u32" where
  "pte_at vm n = (case vm_bts vm (n div 8192) of None \<Rightarrow> 0 | Some p \<Rightarrow> vp_cpu p (n mod 8192))"

definition backed :: "lima_vm \<Rightarrow> nat \<Rightarrow> bool" where
  "backed vm n \<longleftrightarrow> vm_bts vm (n div 8192) \<noteq> None"

lemma probe_pte: "lima_vm_probe_pte vm va = (pte_at vm (vpn va), backed vm (vpn va))"
  using PBE_less [of va]
  by (simp add: lima_vm_probe_pte_def Let_def pte_at_def backed_def unat_PBE unat_BTE split: option.split)

lemma div_mod_eq_iff: "n div 8192 = k div 8192 \<and> n mod 8192 = k mod 8192 \<longleftrightarrow> n = (k :: nat)"
  by (metis mult_div_mod_eq)

lemma pte_at_set_entry:
  "backed vm n \<Longrightarrow> pte_at (set_entry (n div 8192) (n mod 8192) v vm) k = (if k = n then v else pte_at vm k)"
  using div_mod_eq_iff [of n k] by (auto simp: set_entry_def pte_at_def backed_def split: option.splits)

lemma backed_set_entry [simp]: "backed (set_entry p b v vm) = backed vm"
  by (rule ext) (auto simp: set_entry_def backed_def split: option.splits)

lemma set_entry_frame [simp]:
  "vm_mm (set_entry p b v vm) = vm_mm vm" "vm_refcount (set_entry p b v vm) = vm_refcount vm"
  "vm_pd (set_entry p b v vm) = vm_pd vm"
  by (auto simp: set_entry_def split: option.splits)

definition pte_of :: "u64 \<Rightarrow> u32" where
  "pte_of pa = ucast (pa OR ucast LIMA_VM_FLAGS_CACHE)"

section \<open>One page\<close>

lemma map_page_OK:
  assumes "lima_vm_map_page alloc pa va vm = (OK, vm')"
  shows "backed vm' (vpn va)"
    and "pte_at vm' k = (if k = vpn va then pte_of pa else pte_at vm k)"
    and "backed vm k \<Longrightarrow> backed vm' k"
    and "unat pa \<le> 0xFFFFF000"
proof -
  let ?p = "vpn va div 8192" and ?b = "vpn va mod 8192"
  from assms have pa: "\<not> pa > UINT32_MAX - ucast LIMA_PAGE_SIZE + 1"
    by (auto simp: lima_vm_map_page_def Let_def split: if_splits)
  then show "unat pa \<le> 0xFFFFF000"
    by (simp add: UINT32_MAX_def LIMA_PAGE_SIZE_def word_le_nat_alt not_less)
  have "backed vm' (vpn va) \<and> pte_at vm' k = (if k = vpn va then pte_of pa else pte_at vm k) \<and>
      (backed vm k \<longrightarrow> backed vm' k)"
  proof (cases "vm_bts vm ?p")
    case (Some t)
    then have "vm' = set_entry ?p ?b (pte_of pa) vm" "backed vm (vpn va)" using assms pa
      by (auto simp: lima_vm_map_page_def Let_def unat_PBE unat_BTE pte_of_def backed_def)
    then show ?thesis by (simp add: pte_at_set_entry)
  next
    case None
    with assms pa obtain pts pd where eq: "vm' = set_entry ?p ?b (pte_of pa)
        (vm\<lparr>vm_pd := (vm_pd vm)\<lparr>vp_cpu := pd\<rparr>,
            vm_bts := (vm_bts vm)(?p := Some \<lparr>vp_cpu = (\<lambda>_. 0), vp_dma = pts\<rparr>)\<rparr>)"
      by (auto simp: lima_vm_map_page_def Let_def unat_PBE unat_BTE pte_of_def
          split: option.splits if_splits)
    let ?vm1 = "vm\<lparr>vm_pd := (vm_pd vm)\<lparr>vp_cpu := pd\<rparr>,
            vm_bts := (vm_bts vm)(?p := Some \<lparr>vp_cpu = (\<lambda>_. 0), vp_dma = pts\<rparr>)\<rparr>"
    have b1: "backed ?vm1 (vpn va)" "backed vm k \<Longrightarrow> backed ?vm1 k" by (simp_all add: backed_def)
    have "pte_at ?vm1 k = pte_at vm k" using None by (auto simp: pte_at_def)
    then show ?thesis unfolding eq using b1 by (simp add: pte_at_set_entry)
  qed
  then show "backed vm' (vpn va)" "pte_at vm' k = (if k = vpn va then pte_of pa else pte_at vm k)"
    "backed vm k \<Longrightarrow> backed vm' k" by blast+
qed

lemma map_page_E:
  "lima_vm_map_page alloc pa va vm = (E e, vm') \<Longrightarrow> vm' = vm \<and> e \<in> {ERANGE, ENOMEM}"
  by (auto simp: lima_vm_map_page_def Let_def split: option.splits if_splits)

section \<open>The unmap loop\<close>

lemma vpn_next:
  assumes "unat addr mod 4096 = 0" "unat addr < 0xFFFFF000"
  shows "unat (addr + LIMA_PAGE_SIZE) = unat addr + 4096" "vpn (addr + LIMA_PAGE_SIZE) = Suc (vpn addr)"
proof -
  have "unat (addr + 4096) = unat addr + unat (4096 :: u32)"
    by (rule unat_add_no_wrap32) (use assms in simp)
  then show "unat (addr + LIMA_PAGE_SIZE) = unat addr + 4096" by (simp add: LIMA_PAGE_SIZE_def)
  then show "vpn (addr + LIMA_PAGE_SIZE) = Suc (vpn addr)" by (simp add: vpn_def)
qed

lemma vpn_same_page:
  assumes "unat last_addr < unat addr + 4096" "unat addr \<le> unat last_addr" "unat addr mod 4096 = 0"
  shows "vpn last_addr = vpn addr"
proof -
  from assms(3) obtain q where q: "unat addr = 4096 * q" by (metis mod_0_imp_dvd dvdE)
  have "unat last_addr div 4096 = q"
    by (rule div_nat_eqI) (use assms q in simp_all)
  then show ?thesis using q by (simp add: vpn_def)
qed

text \<open>
  Below the last page of the address space, over backed pages, the loop ends and clears exactly the
  pages from \<open>addr\<close> to \<open>last_addr\<close>.
\<close>

lemma unmap_range_clears:
  assumes "unat addr mod 4096 = 0" "unat last_addr < 0xFFFFF000"
    and "\<And>k. vpn addr \<le> k \<Longrightarrow> k \<le> vpn last_addr \<Longrightarrow> backed vm k"
  shows "\<exists>vm'. lima_vm_unmap_range addr last_addr vm = Some vm' \<and> backed vm' = backed vm \<and>
    vm_mm vm' = vm_mm vm \<and> vm_refcount vm' = vm_refcount vm \<and> vm_pd vm' = vm_pd vm \<and>
    (\<forall>k. pte_at vm' k = (if addr \<le> last_addr \<and> vpn addr \<le> k \<and> k \<le> vpn last_addr then 0 else pte_at vm k))"
  using assms
proof (induction "unat last_addr + 4096 - unat addr" arbitrary: addr vm rule: less_induct)
  case less
  show ?case
  proof (cases "addr \<le> last_addr")
    case False
    then show ?thesis by (subst lima_vm_unmap_range.simps) simp
  next
    case True
    then have le: "unat addr \<le> unat last_addr" by (simp add: word_le_nat_alt)
    then have lt: "unat addr < 0xFFFFF000" using less.prems(2) by simp
    note nx = vpn_next [OF less.prems(1) lt]
    have vle: "vpn addr \<le> vpn last_addr" using le by (simp add: vpn_def div_le_mono)
    have b: "backed vm (vpn addr)" using less.prems(3) vle by simp
    let ?vm1 = "set_entry (vpn addr div 8192) (vpn addr mod 8192) 0 vm"
    have step: "lima_vm_unmap_range addr last_addr vm =
        lima_vm_unmap_range (addr + LIMA_PAGE_SIZE) last_addr ?vm1"
      using True b by (subst lima_vm_unmap_range.simps) (auto simp: unat_PBE unat_BTE backed_def)
    have "\<exists>vm'. lima_vm_unmap_range (addr + LIMA_PAGE_SIZE) last_addr ?vm1 = Some vm' \<and>
      backed vm' = backed ?vm1 \<and> vm_mm vm' = vm_mm ?vm1 \<and> vm_refcount vm' = vm_refcount ?vm1 \<and>
      vm_pd vm' = vm_pd ?vm1 \<and>
      (\<forall>k. pte_at vm' k = (if addr + LIMA_PAGE_SIZE \<le> last_addr \<and> vpn (addr + LIMA_PAGE_SIZE) \<le> k \<and>
         k \<le> vpn last_addr then 0 else pte_at ?vm1 k))"
    proof (rule less.hyps)
      show "unat last_addr + 4096 - unat (addr + LIMA_PAGE_SIZE) < unat last_addr + 4096 - unat addr"
        using nx(1) le by simp
      show "unat (addr + LIMA_PAGE_SIZE) mod 4096 = 0" using nx(1) less.prems(1) by simp
      show "unat last_addr < 0xFFFFF000" by (rule less.prems(2))
      show "backed ?vm1 k" if "vpn (addr + LIMA_PAGE_SIZE) \<le> k" "k \<le> vpn last_addr" for k
        using less.prems(3) [of k] that nx(2) by simp
    qed
    then obtain vm' where h: "lima_vm_unmap_range (addr + LIMA_PAGE_SIZE) last_addr ?vm1 = Some vm'"
      "backed vm' = backed vm" "vm_mm vm' = vm_mm vm" "vm_refcount vm' = vm_refcount vm" "vm_pd vm' = vm_pd vm"
      "\<And>k. pte_at vm' k = (if addr + LIMA_PAGE_SIZE \<le> last_addr \<and> Suc (vpn addr) \<le> k \<and>
         k \<le> vpn last_addr then 0 else pte_at ?vm1 k)" by (auto simp: nx(2))
    have "pte_at vm' k = (if addr \<le> last_addr \<and> vpn addr \<le> k \<and> k \<le> vpn last_addr then 0 else pte_at vm k)" for k
    proof (cases "addr + LIMA_PAGE_SIZE \<le> last_addr")
      case True
      then show ?thesis using h(6) [of k] pte_at_set_entry [OF b] \<open>addr \<le> last_addr\<close> vle by auto
    next
      case False
      then have "unat last_addr < unat addr + 4096" using nx(1) by (simp add: word_le_nat_alt)
      then have "vpn last_addr = vpn addr"
        using le less.prems(1) by (rule vpn_same_page)
      then show ?thesis using h(6) [of k] False pte_at_set_entry [OF b] \<open>addr \<le> last_addr\<close> by auto
    qed
    then show ?thesis using step h by auto
  qed
qed

section \<open>The interface\<close>

text \<open>
  \<open>lookup\<close> reads the entry of a page, \<open>mapped\<close> says that there is a table for it. A failed
  \<open>pmap\<close> changes nothing; \<open>unmap\<close> clears a range of pages that have tables.
\<close>

locale page_table =
  fixes lookup :: "'vm \<Rightarrow> nat \<Rightarrow> u32"
    and mapped :: "'vm \<Rightarrow> nat \<Rightarrow> bool"
    and pte :: "u64 \<Rightarrow> u32"
    and pmap :: "u64 \<Rightarrow> u32 \<Rightarrow> 'vm \<Rightarrow> rc \<times> 'vm"
    and unmap :: "u32 \<Rightarrow> u32 \<Rightarrow> 'vm \<Rightarrow> 'vm option"
  assumes pmap_OK: "pmap pa va vm = (OK, vm') \<Longrightarrow> mapped vm' (vpn va) \<and>
      lookup vm' k = (if k = vpn va then pte pa else lookup vm k) \<and> (mapped vm k \<longrightarrow> mapped vm' k)"
    and pmap_E: "pmap pa va vm = (E e, vm') \<Longrightarrow> vm' = vm"
    and unmap_range: "\<lbrakk>unat a mod 4096 = 0; unat l < 0xFFFFF000; a \<le> l;
      \<And>k. vpn a \<le> k \<Longrightarrow> k \<le> vpn l \<Longrightarrow> mapped vm k\<rbrakk> \<Longrightarrow>
      \<exists>vm'. unmap a l vm = Some vm' \<and> mapped vm' = mapped vm \<and>
        (\<forall>k. lookup vm' k = (if vpn a \<le> k \<and> k \<le> vpn l then 0 else lookup vm k))"
begin

lemma map_loop:
  assumes "foreach (map_step pmap base) (of_nat (4096 * m), vm) pages = (r, (off, vm'))"
    and "unat base mod 4096 = 0" "unat base + 4096 * (m + List.length pages) \<le> 0xFFFFF000"
  shows "\<exists>j \<le> List.length pages. off = of_nat (4096 * (m + j)) \<and> (r = OK \<longrightarrow> j = List.length pages) \<and>
    (\<forall>k. mapped vm k \<longrightarrow> mapped vm' k) \<and>
    (\<forall>k. vpn base + m \<le> k \<and> k < vpn base + m + j \<longrightarrow> mapped vm' k) \<and>
    (\<forall>k. lookup vm' k = (if vpn base + m \<le> k \<and> k < vpn base + m + j
       then pte (pages ! (k - (vpn base + m))) else lookup vm k))"
  using assms
proof (induction pages arbitrary: m vm)
  case Nil
  then show ?case by (intro exI [of _ 0]) auto
next
  case (Cons pa pages)
  let ?va = "base + of_nat (4096 * m)"
  have small: "unat (of_nat (4096 * m) :: u32) = 4096 * m"
    by (rule unat_of_nat_u32) (use Cons.prems(3) in simp)
  have "unat ?va = unat base + unat (of_nat (4096 * m) :: u32)"
    by (rule unat_add_no_wrap32) (use Cons.prems(3) small in simp)
  then have "unat ?va = unat base + 4096 * m" by (simp only: small)
  then have v: "vpn ?va = vpn base + m" by (simp add: vpn_def)
  obtain r1 vm1 where p: "pmap pa ?va vm = (r1, vm1)" by force
  show ?case
  proof (cases r1)
    case (E e)
    then have "r = E e" "off = of_nat (4096 * m)" "vm' = vm"
      using Cons.prems(1) p pmap_E by (auto simp: map_step_def)
    then show ?thesis by (intro exI [of _ 0]) auto
  next
    case OK
    have "of_nat (4096 * m) + ucast PAGE_SIZE = (of_nat (4096 * Suc m) :: u32)"
      by (simp add: PAGE_SIZE_def)
    then have "map_step pmap base (of_nat (4096 * m), vm) pa = (OK, (of_nat (4096 * Suc m), vm1))"
      using p OK by (simp only: map_step_def split rc.case)
    then have "foreach (map_step pmap base) (of_nat (4096 * Suc m), vm1) pages = (r, (off, vm'))"
      using Cons.prems(1) by (simp only: foreach.simps split rc.case)
    from Cons.IH [OF this Cons.prems(2)] Cons.prems(3) obtain j where
      j: "j \<le> List.length pages" "off = of_nat (4096 * (Suc m + j))" "r = OK \<longrightarrow> j = List.length pages"
      "\<forall>k. mapped vm1 k \<longrightarrow> mapped vm' k"
      "\<forall>k. vpn base + Suc m \<le> k \<and> k < vpn base + Suc m + j \<longrightarrow> mapped vm' k"
      "\<forall>k. lookup vm' k = (if vpn base + Suc m \<le> k \<and> k < vpn base + Suc m + j
         then pte (pages ! (k - (vpn base + Suc m))) else lookup vm1 k)" by auto
    have o: "mapped vm1 (vpn base + m)"
      "\<And>k. lookup vm1 k = (if k = vpn base + m then pte pa else lookup vm k)"
      "\<And>k. mapped vm k \<Longrightarrow> mapped vm1 k"
      using pmap_OK [OF p [unfolded OK]] v by auto
    have lk: "lookup vm' k = (if vpn base + m \<le> k \<and> k < vpn base + m + Suc j
        then pte ((pa # pages) ! (k - (vpn base + m))) else lookup vm k)" for k
    proof -
      consider "k < vpn base + m" | "k = vpn base + m" | "vpn base + Suc m \<le> k" by linarith
      then show ?thesis
      proof cases
        case 3
        then obtain i where "k = vpn base + Suc m + i" using le_Suc_ex by blast
        then show ?thesis using j(6) o(2) by simp
      qed (use j(6) o(2) in auto)
    qed
    have mp: "mapped vm' k" if "vpn base + m \<le> k" "k < vpn base + m + Suc j" for k
      using that j(4,5) o(1) by (cases "k = vpn base + m") auto
    show ?thesis
      by (rule exI [of _ "Suc j"]) (use j(1-4) o(3) lk mp in auto)
  qed
qed

text \<open>
  The loop with its error path always ends. On success exactly the pages of the range hold the new
  entries; on failure every entry is as it was, or is a cleared one of the range.
\<close>

lemma map_pages_spec:
  assumes al: "unat base mod 4096 = 0" and fit: "unat base + 4096 * List.length pages \<le> 0xFFFFF000"
  obtains r vm' where "map_pages pmap unmap base pages vm = Some (r, vm')"
    and "r = OK \<Longrightarrow> (\<forall>k. lookup vm' k = (if vpn base \<le> k \<and> k < vpn base + List.length pages
           then pte (pages ! (k - vpn base)) else lookup vm k)) \<and>
         (\<forall>k. vpn base \<le> k \<and> k < vpn base + List.length pages \<longrightarrow> mapped vm' k)"
    and "r \<noteq> OK \<Longrightarrow> \<forall>k. lookup vm' k = lookup vm k \<or>
           vpn base \<le> k \<and> k < vpn base + List.length pages \<and> lookup vm' k = 0"
    and "\<And>k. mapped vm k \<Longrightarrow> mapped vm' k"
proof -
  obtain r off vm1 where f: "foreach (map_step pmap base) (0, vm) pages = (r, (off, vm1))"
    by (metis prod_cases3)
  then have f0: "foreach (map_step pmap base) (of_nat (4096 * 0), vm) pages = (r, (off, vm1))" by simp
  have "unat base + 4096 * (0 + List.length pages) \<le> 0xFFFFF000" using fit by simp
  from map_loop [OF f0 al this] obtain j where
    j: "j \<le> List.length pages" "off = of_nat (4096 * j)" "r = OK \<longrightarrow> j = List.length pages"
    "\<forall>k. mapped vm k \<longrightarrow> mapped vm1 k"
    "\<forall>k. vpn base \<le> k \<and> k < vpn base + j \<longrightarrow> mapped vm1 k"
    "\<forall>k. lookup vm1 k = (if vpn base \<le> k \<and> k < vpn base + j
       then pte (pages ! (k - vpn base)) else lookup vm k)" by (simp only: add_0 add_0_right) blast
  have off: "unat off = 4096 * j" unfolding j(2)
    by (rule unat_of_nat_u32) (use fit j(1) in linarith)
  show thesis
  proof (cases r)
    case OK
    then have "map_pages pmap unmap base pages vm = Some (OK, vm1)" using f by (simp add: map_pages_def)
    then show thesis using j OK by (intro that [of OK vm1]) auto
  next
    case (E e)
    show thesis
    proof (cases "j = 0")
      case True
      then have "map_pages pmap unmap base pages vm = Some (E e, vm1)" using f E j(2) by (simp add: map_pages_def)
      moreover have "lookup vm1 k = lookup vm k" for k using j(6) True by auto
      ultimately show thesis using j(4) by (intro that [of "E e" vm1]) auto
    next
      case False
      then have nz: "off \<noteq> 0" using off by auto
      let ?l = "base + off - 1"
      have "unat (base + off) = unat base + unat off"
        by (rule unat_add_no_wrap32) (use fit j(1) off in simp)
      then have s: "unat (base + off) = unat base + 4096 * j" by (simp only: off)
      then have "base + off \<noteq> 0" using False by (metis add_eq_0_iff_both_eq_0 mult_eq_0_iff unat_0 zero_neq_numeral)
      then have l: "unat ?l = unat base + 4096 * j - 1" using s by (simp add: unat_minus_one)
      from al obtain q where q: "unat base = 4096 * q" by (metis mod_0_imp_dvd dvdE)
      have vb: "vpn base = q" using q by (simp add: vpn_def)
      have "unat ?l div 4096 = q + j - 1"
        by (rule div_nat_eqI) (use l q False in \<open>simp_all add: algebra_simps\<close>)
      then have vl: "vpn ?l = vpn base + j - 1" using vb by (simp add: vpn_def)
      have "\<exists>vm2. unmap base ?l vm1 = Some vm2 \<and> mapped vm2 = mapped vm1 \<and>
        (\<forall>k. lookup vm2 k = (if vpn base \<le> k \<and> k \<le> vpn ?l then 0 else lookup vm1 k))"
      proof (rule unmap_range [OF al])
        show "unat ?l < 0xFFFFF000" using l fit j(1) False by linarith
        show "base \<le> ?l" using l False by (simp add: word_le_nat_alt)
        show "mapped vm1 k" if "vpn base \<le> k" "k \<le> vpn ?l" for k using j(5) that vl False by simp
      qed
      then obtain vm2 where u: "unmap base ?l vm1 = Some vm2" "mapped vm2 = mapped vm1"
        "\<forall>k. lookup vm2 k = (if vpn base \<le> k \<and> k \<le> vpn ?l then 0 else lookup vm1 k)" by blast
      have "map_pages pmap unmap base pages vm = Some (E e, vm2)"
        using f E nz u(1) by (simp add: map_pages_def)
      moreover have "lookup vm2 k = lookup vm k \<or>
          vpn base \<le> k \<and> k < vpn base + List.length pages \<and> lookup vm2 k = 0" for k
        using u(3) j(1,6) vl False by auto
      ultimately show thesis using u(2) j(4) by (intro that [of "E e" vm2]) auto
    qed
  qed
qed

end

interpretation lima_pt: page_table pte_at backed pte_of "lima_vm_map_page alloc" lima_vm_unmap_range
proof unfold_locales
  show "backed vm' (vpn va) \<and> pte_at vm' k = (if k = vpn va then pte_of pa else pte_at vm k) \<and>
      (backed vm k \<longrightarrow> backed vm' k)" if "lima_vm_map_page alloc pa va vm = (OK, vm')" for pa va vm vm' k
    using map_page_OK [OF that] by blast
  show "vm' = vm" if "lima_vm_map_page alloc pa va vm = (E e, vm')" for pa va vm e vm'
    using map_page_E [OF that] by blast
  show "\<exists>vm'. lima_vm_unmap_range a l vm = Some vm' \<and> backed vm' = backed vm \<and>
        (\<forall>k. pte_at vm' k = (if vpn a \<le> k \<and> k \<le> vpn l then 0 else pte_at vm k))"
    if "unat a mod 4096 = 0" "unat l < 0xFFFFF000" "a \<le> l"
      "\<And>k. vpn a \<le> k \<Longrightarrow> k \<le> vpn l \<Longrightarrow> backed vm k" for a l vm
    using unmap_range_clears [of a l vm] that by fastforce
qed

end
