(* ===== verification/Lima_VM_Spec.thy ===== *)
theory Lima_VM_Spec
  imports Lima_Page_Table
begin

text \<open>
  Properties of an address space: when the unmap loop returns, what attaching and detaching a buffer
  object does to the page tables, and that the two-level walk of the GPU reads the entries the CPU
  writes.
\<close>

section \<open>When the unmap loop returns\<close>

definition can_unmap :: "u32 \<Rightarrow> u32 \<Rightarrow> lima_vm \<Rightarrow> bool" where
  "can_unmap addr last_addr vm \<longleftrightarrow>
     (unat addr mod 4096 = 0 \<longrightarrow> addr \<le> last_addr \<longrightarrow>
      unat last_addr < 0xFFFFF000 \<and> (\<forall>k. vpn addr \<le> k \<and> k \<le> vpn last_addr \<longrightarrow> backed vm k))"

lemma can_unmap_step:
  assumes nxt: "can_unmap (addr + LIMA_PAGE_SIZE) last_addr (set_entry p b 0 vm)"
    and bk: "backed vm (vpn addr)"
  shows "can_unmap addr last_addr vm"
  unfolding can_unmap_def
proof (intro impI)
  assume al: "unat addr mod 4096 = 0" and "addr \<le> last_addr"
  then have le: "unat addr \<le> unat last_addr" by (simp add: word_le_nat_alt)
  from al obtain q where q: "unat addr = 4096 * q" by (metis mod_0_imp_dvd dvdE)
  show "unat last_addr < 0xFFFFF000 \<and> (\<forall>k. vpn addr \<le> k \<and> k \<le> vpn last_addr \<longrightarrow> backed vm k)"
  proof (cases "unat addr < 0xFFFFF000")
    case False
    then have "1048575 \<le> q" "q < 1048576" using q unat_u32_less [of addr] by linarith+
    then have "unat addr = 0xFFFFF000" using q by simp
    then have "(of_nat (unat addr) :: u32) = of_nat 0xFFFFF000" by (rule arg_cong)
    then have "addr = 0xFFFFF000" by simp
    then have "addr + LIMA_PAGE_SIZE = 0" by (simp add: LIMA_PAGE_SIZE_def)
    then have "can_unmap 0 last_addr (set_entry p b 0 vm)" using nxt by (simp only:)
    then show ?thesis using le False by (simp add: can_unmap_def)
  next
    case True
    note nx = vpn_next [OF al True]
    show ?thesis
    proof (cases "addr + LIMA_PAGE_SIZE \<le> last_addr")
      case next_le: True
      have "unat (addr + LIMA_PAGE_SIZE) mod 4096 = 0" using nx(1) al by simp
      then have "unat last_addr < 0xFFFFF000" "\<And>k. Suc (vpn addr) \<le> k \<Longrightarrow> k \<le> vpn last_addr \<Longrightarrow> backed vm k"
        using nxt next_le by (auto simp: can_unmap_def nx(2))
      then show ?thesis using bk by (metis le_antisym not_less_eq_eq)
    next
      case False
      then have lt: "unat last_addr < unat addr + 4096" using nx(1) by (simp add: word_le_nat_alt)
      then have "vpn last_addr = vpn addr" using le al by (rule vpn_same_page)
      moreover have "q < 1048575" using True q by linarith
      then have "unat addr \<le> 0xFFFFE000" using q by linarith
      ultimately show ?thesis using bk lt by (auto dest: le_antisym)
    qed
  qed
qed

lemma unmap_range_Some_imp:
  assumes "lima_vm_unmap_range addr last_addr vm = Some vm'"
  shows "can_unmap addr last_addr vm"
proof (rule lima_vm_unmap_range.raw_induct [where P = "\<lambda>addr last_addr vm _. can_unmap addr last_addr vm", OF _ assms])
  fix f addr last_addr vm y
  assume IH: "\<And>a l v y. f a l v = Some y \<Longrightarrow> can_unmap a l v"
    and body: "(if addr \<le> last_addr
      then case vm_bts vm (unat (LIMA_PBE addr)) of None \<Rightarrow> None
           | Some x \<Rightarrow> f (addr + LIMA_PAGE_SIZE) last_addr
               (set_entry (unat (LIMA_PBE addr)) (unat (LIMA_BTE addr)) 0 vm)
      else Some vm) = Some y"
  show "can_unmap addr last_addr vm"
  proof (cases "addr \<le> last_addr")
    case False
    then show ?thesis by (simp add: can_unmap_def)
  next
    case True
    with body obtain x where x: "vm_bts vm (unat (LIMA_PBE addr)) = Some x"
      and rest: "f (addr + LIMA_PAGE_SIZE) last_addr
        (set_entry (unat (LIMA_PBE addr)) (unat (LIMA_BTE addr)) 0 vm) = Some y"
      by (auto split: option.splits)
    have "backed vm (vpn addr)" using x by (simp add: backed_def unat_PBE)
    with IH [OF rest] show ?thesis by (rule can_unmap_step)
  qed
qed

lemma unmap_range_returns:
  assumes "unat addr mod 4096 = 0" and "addr \<le> last_addr"
  shows "lima_vm_unmap_range addr last_addr vm \<noteq> None \<longleftrightarrow>
    unat last_addr < 0xFFFFF000 \<and> (\<forall>k. vpn addr \<le> k \<and> k \<le> vpn last_addr \<longrightarrow> backed vm k)"
proof
  assume "lima_vm_unmap_range addr last_addr vm \<noteq> None"
  then show "unat last_addr < 0xFFFFF000 \<and> (\<forall>k. vpn addr \<le> k \<and> k \<le> vpn last_addr \<longrightarrow> backed vm k)"
    using unmap_range_Some_imp assms by (fastforce simp: can_unmap_def)
next
  assume "unat last_addr < 0xFFFFF000 \<and> (\<forall>k. vpn addr \<le> k \<and> k \<le> vpn last_addr \<longrightarrow> backed vm k)"
  then show "lima_vm_unmap_range addr last_addr vm \<noteq> None"
    using unmap_range_clears [of addr last_addr vm] assms by auto
qed

text \<open>
  C3: on a page-aligned start the unmap loop returns exactly when its last address lies below the last
  page of the 32-bit space and every page of the range has a table. Otherwise the loop counter wraps
  and the loop goes on until it meets a null table, or for ever: an object whose range ends at
  \<open>0xFFFFFFFF\<close> cannot be unmapped, nor one of which a part never got a table.
\<close>

theorem lima_vm_unmap_range_returns_iff:
  assumes "unat addr mod 4096 = 0" and "addr \<le> last_addr"
  shows "lima_vm_unmap_range addr last_addr vm \<noteq> None \<longleftrightarrow>
    unat last_addr < 0xFFFFF000 \<and> (\<forall>k. vpn addr \<le> k \<and> k \<le> vpn last_addr \<longrightarrow> vm_bts vm (k div 8192) \<noteq> None)"
  using unmap_range_returns [OF assms] by (simp only: backed_def)

theorem lima_vm_unmap_range_returns_iff_witness:
  "\<forall>vm. lima_vm_unmap_range 0xFFFFF000 0xFFFFFFFF vm = None"
  by (rule allI, subst not_Some_eq [symmetric])
    (use lima_vm_unmap_range_returns_iff [of "0xFFFFF000" "0xFFFFFFFF"] in simp)

section \<open>Attaching and detaching a buffer object\<close>

text \<open>
  What the driver relies on when it asks \<open>drm_mm\<close> for a range: a page-aligned start and room
  for all pages of the object below the last page of the address space.
\<close>

definition granted :: "u64 \<Rightarrow> u64 list \<Rightarrow> bool" where
  "granted start pages \<longleftrightarrow>
     unat start mod 4096 = 0 \<and> unat start + 4096 * List.length pages \<le> 0xFFFFF000"

definition page_range :: "u64 \<Rightarrow> nat \<Rightarrow> nat \<Rightarrow> bool" where
  "page_range start n k \<longleftrightarrow> unat start div 4096 \<le> k \<and> k < unat start div 4096 + n"

lemma granted_base:
  assumes "granted start pages"
  shows "unat (ucast start :: u32) = unat start"
    and "unat (ucast start :: u32) mod 4096 = 0"
    and "unat (ucast start :: u32) + 4096 * List.length pages \<le> 0xFFFFF000"
    and "vpn (ucast start) = unat start div 4096"
proof -
  have "unat start < 2 ^ 32" using assms by (simp add: granted_def)
  then show u: "unat (ucast start :: u32) = unat start"
    by (simp add: unat_ucast_u64_u32)
  show "unat (ucast start :: u32) mod 4096 = 0"
    "unat (ucast start :: u32) + 4096 * List.length pages \<le> 0xFFFFF000"
    "vpn (ucast start) = unat start div 4096"
    using assms by (simp_all only: u granted_def vpn_def)
qed

lemma pte_at_drm_mm [simp]:
  "pte_at (drm_mm_add n vm) = pte_at vm" "backed (drm_mm_add n vm) = backed vm"
  "pte_at (drm_mm_remove_node n vm) = pte_at vm" "backed (drm_mm_remove_node n vm) = backed vm"
  by (auto simp: fun_eq_iff drm_mm_add_def drm_mm_remove_node_def pte_at_def backed_def)

text \<open>Mapping and unmapping leave the range allocator and the reference count alone.\<close>

definition same_frame :: "lima_vm \<Rightarrow> lima_vm \<Rightarrow> bool" where
  "same_frame vm vm' \<longleftrightarrow> vm_mm vm' = vm_mm vm \<and> vm_refcount vm' = vm_refcount vm \<and>
     vp_dma (vm_pd vm') = vp_dma (vm_pd vm)"

lemma same_frame_refl [simp]: "same_frame vm vm"
  by (simp add: same_frame_def)

lemma same_frame_trans: "same_frame a b \<Longrightarrow> same_frame b c \<Longrightarrow> same_frame a c"
  by (simp add: same_frame_def)

lemma map_page_frame: "lima_vm_map_page alloc pa va vm = (r, vm') \<Longrightarrow> same_frame vm vm'"
  by (auto simp: lima_vm_map_page_def Let_def same_frame_def split: option.splits if_splits)

lemma unmap_range_frame:
  assumes "lima_vm_unmap_range addr last_addr vm = Some vm'"
  shows "same_frame vm vm'"
  by (rule lima_vm_unmap_range.raw_induct [where P = "\<lambda>_ _ vm vm'. same_frame vm vm'", OF _ assms])
    (fastforce simp: same_frame_def split: if_splits option.splits)

lemma map_pages_frame:
  assumes "map_pages (lima_vm_map_page alloc) lima_vm_unmap_range base pages vm = Some (r, vm')"
  shows "same_frame vm vm'"
proof -
  obtain r1 off vm1 where f: "foreach (map_step (lima_vm_map_page alloc) base) (0, vm) pages = (r1, (off, vm1))"
    by (metis prod_cases3)
  have "same_frame vm (snd (off, vm1))"
  proof (rule foreach_invariant [where P = "\<lambda>s. same_frame vm (snd s)", OF _ _ f])
    show "same_frame vm (snd (0, vm))" by simp
    show "same_frame vm (snd s')" if "same_frame vm (snd s)"
      "map_step (lima_vm_map_page alloc) base s x = (c, s')" for s x c s'
      using that by (auto simp: map_step_def split: prod.splits rc.splits
          dest!: map_page_frame simp: same_frame_def)
  qed
  then show ?thesis using assms f
    by (auto simp: map_pages_def bind_eq_Some_conv split: rc.splits if_splits
        dest!: unmap_range_frame simp: same_frame_def)
qed

lemma drm_mm_undo: "vm_mm vm' = vm_mm (drm_mm_add n vm) \<Longrightarrow> vm_mm (drm_mm_remove_node n vm') = vm_mm vm"
  by (simp add: drm_mm_add_def drm_mm_remove_node_def)

definition new_va :: "nat \<Rightarrow> u64 \<Rightarrow> u64 \<Rightarrow> lima_bo_va" where
  "new_va i start sz = \<lparr>bva_vm = i, bva_ref_count = 1, bva_start = start, bva_size = sz\<rparr>"

lemma bo_add_fresh:
  assumes fresh: "lima_vm_bo_find i (bo_va bo) = None" and kz: "ve_kzalloc env"
    and ins: "ve_insert env = Inr start" and sg: "sh_sgt (bo_base bo) = Some pages"
    and g: "granted start pages"
  obtains r vm' bo' where "lima_vm_bo_add env i True vm bo = Some (r, vm', bo')"
    and "r = OK \<Longrightarrow> (\<forall>k. pte_at vm' k =
           (if page_range start (List.length pages) k
            then pte_of (pages ! (k - unat start div 4096)) else pte_at vm k)) \<and>
         (\<forall>k. page_range start (List.length pages) k \<longrightarrow> backed vm' k) \<and>
         vm_mm vm' = vm_mm (drm_mm_add (start, lima_bo_size bo) vm) \<and>
         bo' = bo\<lparr>bo_va := bo_va bo @ [new_va i start (lima_bo_size bo)]\<rparr>"
    and "r \<noteq> OK \<Longrightarrow> bo' = bo \<and> vm_mm vm' = vm_mm vm \<and>
         (\<forall>k. pte_at vm' k = pte_at vm k \<or> page_range start (List.length pages) k \<and> pte_at vm' k = 0)"
    and "\<And>k. backed vm k \<Longrightarrow> backed vm' k"
proof -
  let ?node = "(start, lima_bo_size bo)"
  let ?map = "map_pages (lima_vm_map_page (ve_alloc env)) lima_vm_unmap_range (ucast start) pages"
  note gb = granted_base [OF g]
  obtain r vm1 where m: "?map (drm_mm_add ?node vm) = Some (r, vm1)"
    and ok: "r = OK \<Longrightarrow> (\<forall>k. pte_at vm1 k = (if page_range start (List.length pages) k
           then pte_of (pages ! (k - unat start div 4096)) else pte_at vm k)) \<and>
         (\<forall>k. page_range start (List.length pages) k \<longrightarrow> backed vm1 k)"
    and err: "r \<noteq> OK \<Longrightarrow> \<forall>k. pte_at vm1 k = pte_at vm k \<or>
           page_range start (List.length pages) k \<and> pte_at vm1 k = 0"
    and bk: "\<And>k. backed vm k \<Longrightarrow> backed vm1 k"
    by (rule lima_pt.map_pages_spec [OF gb(2,3), of "ve_alloc env" "drm_mm_add ?node vm"])
      (simp add: page_range_def gb(4))
  have fr: "vm_mm vm1 = vm_mm (drm_mm_add ?node vm)"
    using map_pages_frame [OF m] by (simp add: same_frame_def)
  have add: "lima_vm_bo_add env i True vm bo = (case r of
      E e \<Rightarrow> Some (E e, drm_mm_remove_node ?node vm1, bo)
    | OK \<Rightarrow> Some (OK, vm1, bo\<lparr>bo_va := bo_va bo @ [new_va i start (lima_bo_size bo)]\<rparr>))"
    using fresh kz ins sg m by (simp add: lima_vm_bo_add_def new_va_def split: rc.split)
  show thesis
  proof (cases r)
    case OK
    then show thesis using add ok bk fr by (intro that [of OK vm1]) auto
  next
    case (E e)
    then show thesis using add err bk drm_mm_undo [OF fr]
      by (intro that [of "E e" "drm_mm_remove_node ?node vm1" bo]) auto
  qed
qed

text \<open>
  C4: attaching a buffer object to an address space. The call always returns. On success the GPU
  address range of the object shows its pages one after the other, every other address is as before,
  and the object has a new attachment with one reference. On failure the object and the range
  allocator are as before, and so is every address outside the range; in the range there are only
  entries as before or cleared ones.
\<close>

theorem lima_vm_bo_add_spec:
  assumes "lima_vm_bo_find i (bo_va bo) = None" and "ve_kzalloc env"
    and "ve_insert env = Inr start" and "sh_sgt (bo_base bo) = Some pages"
    and "granted start pages"
  shows "\<exists>r vm' bo'. lima_vm_bo_add env i True vm bo = Some (r, vm', bo') \<and>
    (r = OK \<longrightarrow>
       (\<forall>va. fst (lima_vm_probe_pte vm' va) =
          (if page_range start (List.length pages) (vpn va)
           then pte_of (pages ! (vpn va - unat start div 4096)) else fst (lima_vm_probe_pte vm va))) \<and>
       bo' = bo\<lparr>bo_va := bo_va bo @ [new_va i start (lima_bo_size bo)]\<rparr> \<and>
       mm_nodes (vm_mm vm') = (start, lima_bo_size bo) # mm_nodes (vm_mm vm)) \<and>
    (r \<noteq> OK \<longrightarrow> bo' = bo \<and> vm_mm vm' = vm_mm vm \<and>
       (\<forall>va. fst (lima_vm_probe_pte vm' va) = fst (lima_vm_probe_pte vm va) \<or>
          page_range start (List.length pages) (vpn va) \<and> fst (lima_vm_probe_pte vm' va) = 0))"
proof -
  obtain r vm' bo' where a: "lima_vm_bo_add env i True vm bo = Some (r, vm', bo')"
    and ok: "r = OK \<Longrightarrow> (\<forall>k. pte_at vm' k =
           (if page_range start (List.length pages) k
            then pte_of (pages ! (k - unat start div 4096)) else pte_at vm k)) \<and>
         vm_mm vm' = vm_mm (drm_mm_add (start, lima_bo_size bo) vm) \<and>
         bo' = bo\<lparr>bo_va := bo_va bo @ [new_va i start (lima_bo_size bo)]\<rparr>"
    and err: "r \<noteq> OK \<Longrightarrow> bo' = bo \<and> vm_mm vm' = vm_mm vm \<and>
         (\<forall>k. pte_at vm' k = pte_at vm k \<or> page_range start (List.length pages) k \<and> pte_at vm' k = 0)"
    by (rule bo_add_fresh [OF assms, of vm]) simp
  show ?thesis
  proof (cases "r = OK")
    case True
    with a ok show ?thesis by (simp add: probe_pte drm_mm_add_def)
  next
    case False
    with a err show ?thesis by (simp add: probe_pte)
  qed
qed

section \<open>Detaching\<close>

lemma find_new_va:
  "lima_vm_bo_find i xs = None \<Longrightarrow> lima_vm_bo_find i (xs @ [new_va i start sz]) = Some (new_va i start sz)"
  by (induction xs) (auto simp: new_va_def)

lemma remove_new_va:
  "lima_vm_bo_find i xs = None \<Longrightarrow>
   va_remove i (va_update i (\<lambda>b. b\<lparr>bva_ref_count := c\<rparr>) (xs @ [new_va i start sz])) = xs"
  by (induction xs) (auto simp: new_va_def split: if_splits)

text \<open>The range \<open>lima_vm_bo_del\<close> hands to the unmap loop.\<close>

lemma del_range:
  fixes start sz :: u64
  assumes al: "unat start mod 4096 = 0" and n: "0 < n" "n < 1048576"
    and fit: "unat start + 4096 * n \<le> 4294967296" and sz: "unat sz = 4096 * n"
  defines "s \<equiv> (ucast start :: u32)" and "l \<equiv> ucast start + ucast sz - (1 :: u32)"
  shows "unat s mod 4096 = 0" "s \<le> l" "unat l = unat start + 4096 * n - 1"
    and "page_range start n k \<longleftrightarrow> vpn s \<le> k \<and> k \<le> vpn l"
proof -
  have u: "unat s = unat start" using fit n by (simp add: s_def unat_ucast_u64_u32)
  then show "unat s mod 4096 = 0" using al by simp
  have usz: "unat (ucast sz :: u32) = 4096 * n" using sz n by (simp add: unat_ucast_u64_u32)
  have l1: "l = s + (ucast sz - 1)" by (simp add: l_def s_def)
  have "ucast sz \<noteq> (0 :: u32)" using usz n by auto
  then have m1: "unat (ucast sz - 1 :: u32) = 4096 * n - 1" using usz by (simp add: unat_minus_one)
  have "unat (s + (ucast sz - 1)) = unat s + unat (ucast sz - 1 :: u32)"
    by (rule unat_add_no_wrap32) (use u m1 fit n in simp)
  then show l: "unat l = unat start + 4096 * n - 1" using n by (simp only: l1 u m1)
  then show "s \<le> l" using u n by (simp add: word_le_nat_alt)
  from al obtain q where q: "unat start = 4096 * q" by (metis mod_0_imp_dvd dvdE)
  have vs: "vpn s = q" using q u by (simp add: vpn_def)
  have "unat l div 4096 = q + n - 1"
    by (rule div_nat_eqI) (use l q n in \<open>simp_all add: algebra_simps\<close>)
  then have "vpn l = q + n - 1" by (simp add: vpn_def)
  then show "page_range start n k \<longleftrightarrow> vpn s \<le> k \<and> k \<le> vpn l"
    using q vs n by (auto simp: page_range_def)
qed

definition del_size :: "lima_bo \<Rightarrow> lima_bo_va \<Rightarrow> u64" where
  "del_size bo b = (if bo_heap_size bo \<noteq> 0 then bo_heap_size bo else bva_size b)"

lemma bo_del_last_eq:
  assumes "lima_vm_bo_find i (bo_va bo) = Some b" "bva_ref_count b = 1"
  shows "lima_vm_bo_del i vm bo = map_option
     (\<lambda>vm1. (drm_mm_remove_node (bva_start b, bva_size b) vm1,
        bo\<lparr>bo_va := va_remove i (va_update i (\<lambda>b. b\<lparr>bva_ref_count := 0\<rparr>) (bo_va bo))\<rparr>))
     (lima_vm_unmap_range (ucast (bva_start b)) (ucast (bva_start b) + ucast (del_size bo b) - 1) vm)"
  using assms by (simp add: lima_vm_bo_del_def Let_def del_size_def bind_Some_map_option)

text \<open>Dropping the last attachment clears the range and forgets the node.\<close>

lemma bo_del_last:
  assumes find: "lima_vm_bo_find i (bo_va bo) = Some b" and last: "bva_ref_count b = 1"
    and al: "unat (bva_start b) mod 4096 = 0" and n: "0 < n"
    and fit: "unat (bva_start b) + 4096 * n \<le> 0xFFFFF000"
    and sz: "unat (del_size bo b) = 4096 * n"
    and bk: "\<And>k. page_range (bva_start b) n k \<Longrightarrow> backed vm k"
  obtains vm' where "lima_vm_bo_del i vm bo = Some (vm',
      bo\<lparr>bo_va := va_remove i (va_update i (\<lambda>b. b\<lparr>bva_ref_count := 0\<rparr>) (bo_va bo))\<rparr>)"
    and "\<And>k. pte_at vm' k = (if page_range (bva_start b) n k then 0 else pte_at vm k)"
    and "vm_mm vm' = vm_mm (drm_mm_remove_node (bva_start b, bva_size b) vm)" "backed vm' = backed vm"
proof -
  let ?s = "ucast (bva_start b) :: u32" and ?l = "ucast (bva_start b) + ucast (del_size bo b) - 1 :: u32"
  have n20: "n < 1048576" and fit2: "unat (bva_start b) + 4096 * n \<le> 4294967296" using fit by simp_all
  note r = del_range [OF al n n20 fit2 sz]
  have "\<exists>vm1. lima_vm_unmap_range ?s ?l vm = Some vm1 \<and> backed vm1 = backed vm \<and> vm_mm vm1 = vm_mm vm \<and>
    vm_refcount vm1 = vm_refcount vm \<and> vm_pd vm1 = vm_pd vm \<and>
    (\<forall>k. pte_at vm1 k = (if ?s \<le> ?l \<and> vpn ?s \<le> k \<and> k \<le> vpn ?l then 0 else pte_at vm k))"
  proof (rule unmap_range_clears [OF r(1)])
    show "unat ?l < 0xFFFFF000" using r(3) fit n by linarith
    show "backed vm k" if "vpn ?s \<le> k" "k \<le> vpn ?l" for k using bk r(4) that by blast
  qed
  then obtain vm1 where um: "lima_vm_unmap_range ?s ?l vm = Some vm1" "backed vm1 = backed vm"
    "vm_mm vm1 = vm_mm vm" "\<And>k. pte_at vm1 k = (if page_range (bva_start b) n k then 0 else pte_at vm k)"
    using r(2,4) by auto
  have "lima_vm_bo_del i vm bo = Some (drm_mm_remove_node (bva_start b, bva_size b) vm1,
      bo\<lparr>bo_va := va_remove i (va_update i (\<lambda>b. b\<lparr>bva_ref_count := 0\<rparr>) (bo_va bo))\<rparr>)"
    by (simp add: bo_del_last_eq [OF find last] um(1))
  then show thesis by (rule that) (simp add: um(4), simp add: drm_mm_remove_node_def um(3), simp add: um(2))
qed

text \<open>
  dropping the last attachment of an object returns exactly when its range ends below the last
  page of the address space and every page of it has a table. A range that reaches the end of the
  32-bit space (which \<open>va_end\<close> of the Mali-400 allows) is never unmapped, and a heap object that
  grew while attached elsewhere, whose \<open>heap_size\<close> covers pages without a table in this
  address space, faults.
\<close>

theorem lima_vm_bo_del_returns_iff:
  assumes "lima_vm_bo_find i (bo_va bo) = Some b" and "bva_ref_count b = 1"
    and "unat (bva_start b) mod 4096 = 0" and "0 < n" and "n < 1048576"
    and "unat (bva_start b) + 4096 * n \<le> 4294967296"
    and "unat (if bo_heap_size bo \<noteq> 0 then bo_heap_size bo else bva_size b) = 4096 * n"
  shows "lima_vm_bo_del i vm bo \<noteq> None \<longleftrightarrow>
    unat (bva_start b) + 4096 * n < 4294967296 \<and>
    (\<forall>k. page_range (bva_start b) n k \<longrightarrow> vm_bts vm (k div 8192) \<noteq> None)"
proof -
  have sz: "unat (del_size bo b) = 4096 * n" using assms(7) by (simp add: del_size_def)
  note r = del_range [OF assms(3-6) sz]
  let ?l = "ucast (bva_start b) + ucast (del_size bo b) - 1 :: u32"
  from assms(3) obtain q where q: "unat (bva_start b) = 4096 * q" by (metis mod_0_imp_dvd dvdE)
  have "unat ?l < 0xFFFFF000 \<longleftrightarrow> q + n \<le> 1048575" using r(3) q assms(4) by linarith
  moreover have "unat (bva_start b) + 4096 * n < 4294967296 \<longleftrightarrow> q + n \<le> 1048575" using q by linarith
  ultimately have "unat ?l < 0xFFFFF000 \<longleftrightarrow> unat (bva_start b) + 4096 * n < 4294967296" by simp
  then show ?thesis
    using unmap_range_returns [OF r(1,2), of vm] r(4)
    by (simp add: bo_del_last_eq [OF assms(1,2)] backed_def)
qed


section \<open>The walk of the GPU\<close>

text \<open>
  What \<open>dma_alloc_coherent\<close> promises of the tables: page-aligned bus addresses.
\<close>

definition alloc_aligned :: "(nat \<Rightarrow> u64 option) \<Rightarrow> bool" where
  "alloc_aligned alloc \<longleftrightarrow> (\<forall>i d. alloc i = Some d \<longrightarrow> unat d mod 4096 = 0 \<and> unat d + 32768 < 2 ^ 64)"

text \<open>
  The directory agrees with the tables: 8 entries per table that point to its 8 page tables, null
  entries where there is none.
\<close>

definition pd_entry :: "vm_page option \<Rightarrow> nat \<Rightarrow> u32" where
  "pd_entry t j = (case t of None \<Rightarrow> 0
     | Some p \<Rightarrow> ucast ((vp_dma p + 4096 * of_nat j) OR ucast LIMA_VM_FLAG_PRESENT))"

definition table_ok :: "vm_page \<Rightarrow> bool" where
  "table_ok p \<longleftrightarrow> unat (vp_dma p) mod 4096 = 0 \<and> unat (vp_dma p) + 32768 \<le> 2 ^ 32"

definition vm_wf :: "lima_vm \<Rightarrow> bool" where
  "vm_wf vm \<longleftrightarrow>
     (\<forall>i p. vm_bts vm i = Some p \<longrightarrow> table_ok p) \<and>
     (\<forall>i j. j < 8 \<longrightarrow> vp_cpu (vm_pd vm) (8 * i + j) = pd_entry (vm_bts vm i) j)"

lemma write_pd_nth:
  "write_pd n j pts pd k =
     (if j \<le> k \<and> k < j + n then ucast ((pts + 4096 * of_nat (k - j)) OR ucast LIMA_VM_FLAG_PRESENT) else pd k)"
proof (induction n arbitrary: j pts pd)
  case (Suc n)
  show ?case
  proof (cases "Suc j \<le> k \<and> k < Suc j + n")
    case True
    then obtain i where k: "k = Suc j + i" using le_Suc_ex by blast
    then show ?thesis using Suc.IH True by (simp add: algebra_simps)
  next
    case False
    then show ?thesis using Suc.IH by auto
  qed
qed auto

lemma vm_wf_set_entry: "vm_wf (set_entry p b v vm) = vm_wf vm"
proof -
  have t: "\<exists>f. vm_bts (set_entry p b v vm) i = map_option (\<lambda>t. t\<lparr>vp_cpu := f t\<rparr>) (vm_bts vm i)" for i
  proof (cases "i = p")
    case True
    then show ?thesis
      by (intro exI [of _ "\<lambda>t. (vp_cpu t)(b := v)"]) (auto simp: set_entry_def split: option.split)
  next
    case False
    then show ?thesis
      by (intro exI [of _ vp_cpu], cases "vm_bts vm i") (auto simp: set_entry_def split: option.split)
  qed
  have e: "pd_entry (vm_bts (set_entry p b v vm) i) j = pd_entry (vm_bts vm i) j" for i j
    using t [of i] by (auto simp: pd_entry_def split: option.splits)
  have k: "(\<forall>q. vm_bts (set_entry p b v vm) i = Some q \<longrightarrow> table_ok q) \<longleftrightarrow>
      (\<forall>q. vm_bts vm i = Some q \<longrightarrow> table_ok q)" for i
    using t [of i] by (cases "vm_bts vm i") (auto simp: table_ok_def)
  show ?thesis by (simp only: vm_wf_def e k set_entry_frame)
qed

lemma vm_wf_map_page:
  assumes wf: "vm_wf vm" and al: "alloc_aligned alloc"
    and m: "lima_vm_map_page alloc pa va vm = (r, vm')"
  shows "vm_wf vm'"
proof (cases "r = OK \<and> vm_bts vm (unat (LIMA_PBE va)) = None")
  case False
  then show ?thesis using m wf map_page_E [of alloc pa va vm]
    by (cases r) (auto simp: lima_vm_map_page_def Let_def vm_wf_set_entry split: option.splits if_splits)
next
  case True
  let ?i = "unat (LIMA_PBE va)"
  from True m obtain pts where a: "alloc ?i = Some pts"
    and fit: "\<not> pts + ucast LIMA_PAGE_SIZE * of_nat LIMA_VM_NUM_PT_PER_BT - 1 > UINT32_MAX"
    and vm': "vm' = set_entry ?i (unat (LIMA_BTE va)) (ucast (pa OR ucast LIMA_VM_FLAGS_CACHE))
      (vm\<lparr>vm_pd := (vm_pd vm)\<lparr>vp_cpu := write_pd LIMA_VM_NUM_PT_PER_BT
            (push_bit LIMA_VM_NUM_PT_PER_BT_SHIFT ?i) pts (vp_cpu (vm_pd vm))\<rparr>,
          vm_bts := (vm_bts vm)(?i := Some \<lparr>vp_cpu = (\<lambda>_. 0), vp_dma = pts\<rparr>)\<rparr>)"
    by (auto simp: lima_vm_map_page_def Let_def split: option.splits if_splits)
  have al': "unat pts mod 4096 = 0" "unat pts + 32768 < 2 ^ 64" using al a by (auto simp: alloc_aligned_def)
  have "unat (32767 + pts) = unat (32767 :: u64) + unat pts"
    by (rule unat_add_no_wrap64) (use al'(2) in simp)
  then have u: "unat (32767 + pts) = unat pts + 32767" by simp
  have "32767 + pts \<le> 0xFFFFFFFF" using fit
    by (simp add: LIMA_PAGE_SIZE_def vm_geometry UINT32_MAX_def not_less)
  then have "unat pts + 32767 \<le> 0xFFFFFFFF" using u by (simp add: word_le_nat_alt)
  then have ok: "table_ok \<lparr>vp_cpu = (\<lambda>_. 0), vp_dma = pts\<rparr>" using al'(1) by (simp add: table_ok_def)
  have pb: "push_bit LIMA_VM_NUM_PT_PER_BT_SHIFT ?i = 8 * ?i" "LIMA_VM_NUM_PT_PER_BT = 8"
    by (simp_all add: vm_geometry push_bit_eq_mult)
  have "write_pd 8 (8 * ?i) pts (vp_cpu (vm_pd vm)) (8 * i + j) =
      pd_entry (((vm_bts vm)(?i := Some \<lparr>vp_cpu = (\<lambda>_. 0), vp_dma = pts\<rparr>)) i) j" if "j < 8" for i j
  proof (cases "i = ?i")
    case True
    then show ?thesis using that by (simp add: write_pd_nth pd_entry_def)
  next
    case False
    then have "\<not> (8 * ?i \<le> 8 * i + j \<and> 8 * i + j < 8 * ?i + 8)" using that by linarith
    then have "write_pd 8 (8 * ?i) pts (vp_cpu (vm_pd vm)) (8 * i + j) = vp_cpu (vm_pd vm) (8 * i + j)"
      by (simp only: write_pd_nth if_False)
    then show ?thesis using False wf that by (simp add: vm_wf_def)
  qed
  then show ?thesis unfolding vm' vm_wf_set_entry using wf ok
    by (auto simp: vm_wf_def pb)
qed

lemma vm_wf_cong: "vm_pd vm' = vm_pd vm \<Longrightarrow> vm_bts vm' = vm_bts vm \<Longrightarrow> vm_wf vm' = vm_wf vm"
  by (simp add: vm_wf_def)

lemma vm_wf_unmap_range:
  assumes "lima_vm_unmap_range addr last_addr vm = Some vm'" and "vm_wf vm"
  shows "vm_wf vm'"
proof -
  have "vm_wf vm \<longrightarrow> vm_wf vm'"
  proof (rule lima_vm_unmap_range.raw_induct [where P = "\<lambda>_ _ vm vm'. vm_wf vm \<longrightarrow> vm_wf vm'", OF _ assms(1)])
    fix f addr last_addr vm y
    assume IH: "\<And>a l v y. f a l v = Some y \<Longrightarrow> vm_wf v \<longrightarrow> vm_wf y"
      and body: "(if addr \<le> last_addr
        then case vm_bts vm (unat (LIMA_PBE addr)) of None \<Rightarrow> None
             | Some x \<Rightarrow> f (addr + LIMA_PAGE_SIZE) last_addr
                 (set_entry (unat (LIMA_PBE addr)) (unat (LIMA_BTE addr)) 0 vm)
        else Some vm) = Some y"
    show "vm_wf vm \<longrightarrow> vm_wf y"
    proof (cases "addr \<le> last_addr")
      case True
      with body have "f (addr + LIMA_PAGE_SIZE) last_addr
          (set_entry (unat (LIMA_PBE addr)) (unat (LIMA_BTE addr)) 0 vm) = Some y"
        by (auto split: option.splits)
      from IH [OF this] show ?thesis by (simp add: vm_wf_set_entry)
    qed (use body in simp)
  qed
  then show ?thesis using assms(2) by blast
qed

lemma vm_wf_map_pages:
  assumes "vm_wf vm" and al: "alloc_aligned alloc"
    and m: "map_pages (lima_vm_map_page alloc) lima_vm_unmap_range base pages vm = Some (r, vm')"
  shows "vm_wf vm'"
proof -
  obtain r1 off vm1 where f: "foreach (map_step (lima_vm_map_page alloc) base) (0, vm) pages = (r1, (off, vm1))"
    by (metis prod_cases3)
  have "vm_wf (snd (off, vm1))"
  proof (rule foreach_invariant [where P = "\<lambda>s. vm_wf (snd s)", OF _ _ f])
    show "vm_wf (snd (0, vm))" using assms(1) by simp
    show "vm_wf (snd s')" if "vm_wf (snd s)" "map_step (lima_vm_map_page alloc) base s x = (c, s')" for s x c s'
      using that vm_wf_map_page [OF _ al]
      by (cases s) (auto simp: map_step_def split: prod.splits rc.splits)
  qed
  then show ?thesis using m f vm_wf_unmap_range
    by (auto simp: map_pages_def bind_eq_Some_conv split: rc.splits if_splits)
qed

lemma vm_wf_mm [simp]:
  "vm_wf (drm_mm_add n vm) = vm_wf vm" "vm_wf (drm_mm_remove_node n vm) = vm_wf vm"
  "vm_wf (vm\<lparr>vm_mm := x\<rparr>) = vm_wf vm"
  by (simp_all add: vm_wf_def drm_mm_add_def drm_mm_remove_node_def)

text \<open>
  C6: the directory and the tables agree at all times: in a new address space, and after attaching an
  object, detaching it, or mapping more of its pages, whatever the outcome. Every table lies below
  4 GiB, and the directory holds the untruncated bus address of each page table.
\<close>

theorem lima_vm_directory_invariant:
  assumes al: "alloc_aligned alloc"
  shows "(\<forall>env vm. lima_vm_create (env\<lparr>vc_alloc := alloc\<rparr>) = Some vm \<longrightarrow> vm_wf vm) \<and>
    (\<forall>env i c vm bo r vm' bo'. vm_wf vm \<and>
       lima_vm_bo_add (env\<lparr>ve_alloc := alloc\<rparr>) i c vm bo = Some (r, vm', bo') \<longrightarrow> vm_wf vm') \<and>
    (\<forall>i vm bo vm' bo'. vm_wf vm \<and> lima_vm_bo_del i vm bo = Some (vm', bo') \<longrightarrow> vm_wf vm') \<and>
    (\<forall>i n vm bo r vm'. vm_wf vm \<and> lima_vm_map_bo alloc i n vm bo = Some (r, vm') \<longrightarrow> vm_wf vm')"
proof (intro conjI allI impI; (elim conjE)?)
  fix env vm assume c: "lima_vm_create (env\<lparr>vc_alloc := alloc\<rparr>) = Some vm"
  have blank: "vm_wf (vm_blank d)" for d by (simp add: vm_wf_def vm_blank_def pd_entry_def)
  show "vm_wf vm"
  proof (cases "vc_dlbu env")
    case None
    then show ?thesis using c blank by (auto simp: lima_vm_create_def split: if_splits option.splits)
  next
    case (Some d)
    then show ?thesis using c vm_wf_map_page [OF blank al]
      by (auto simp: lima_vm_create_def Let_def split: if_splits option.splits prod.splits rc.splits)
  qed
next
  fix env i c vm bo r vm' bo'
  assume wf: "vm_wf vm" and a: "lima_vm_bo_add (env\<lparr>ve_alloc := alloc\<rparr>) i c vm bo = Some (r, vm', bo')"
  have w: "vm_wf v" if "map_pages (lima_vm_map_page alloc) lima_vm_unmap_range base pages
      (drm_mm_add n vm) = Some (q, v)" for base pages n q v
    by (rule vm_wf_map_pages [OF _ al that]) (simp add: wf)
  show "vm_wf vm'" using a wf
    by (auto simp: lima_vm_bo_add_def Let_def bind_eq_Some_conv dest: w
        split: option.splits if_splits sum.splits rc.splits)
      (metis rc.exhaust vm_wf_mm(2) w)
next
  fix i vm bo vm' bo'
  assume wf: "vm_wf vm" and d: "lima_vm_bo_del i vm bo = Some (vm', bo')"
  show "vm_wf vm'" using d wf vm_wf_unmap_range
    by (auto simp: lima_vm_bo_del_def Let_def bind_eq_Some_conv split: if_splits)
next
  fix i n vm bo r vm'
  assume wf: "vm_wf vm" and d: "lima_vm_map_bo alloc i n vm bo = Some (r, vm')"
  show "vm_wf vm'" using d wf vm_wf_map_pages [OF wf al]
    by (auto simp: lima_vm_map_bo_def Let_def split: option.splits)
qed

text \<open>
  The two-level walk: from the directory the address of the page-table entry for \<open>va\<close> on the bus,
  \<open>None\<close> when the directory entry is not present.
\<close>

definition walk_pte_addr :: "(nat \<Rightarrow> u32) \<Rightarrow> u32 \<Rightarrow> u32 option" where
  "walk_pte_addr pd va =
     (let pde = pd (unat (LIMA_PDE va)) in
      if pde AND LIMA_VM_FLAG_PRESENT = 0 then None
      else Some ((pde AND NOT 4095) + 4 * LIMA_PTE va))"

lemma unat_PDE: "unat (LIMA_PDE va) = vpn va div 1024"
  by (simp add: LIMA_PDE_def vm_geometry unat_drop_bit_word vpn_def div_mult2_eq [symmetric])

lemma unat_PTE: "unat (LIMA_PTE va) = vpn va mod 1024"
proof -
  have "unat (LIMA_PTE va) = unat va mod 4194304 div 4096"
    by (simp only: LIMA_PTE_def PT_MASK_eq LIMA_VM_PT_SHIFT_def
        unat_drop_bit_word unat_and_mask_word) simp
  also have "\<dots> = unat va div 4096 mod 1024"
    using mod_mult2_eq [of "unat va" 4096 1024] by simp
  finally show ?thesis by (simp add: vpn_def)
qed

lemma present_entry:
  assumes "unat (a :: u64) mod 4096 = 0"
  shows "(ucast (a OR ucast LIMA_VM_FLAG_PRESENT) :: u32) AND LIMA_VM_FLAG_PRESENT \<noteq> 0"
    and "(ucast (a OR ucast LIMA_VM_FLAG_PRESENT) :: u32) AND NOT 4095 = ucast a"
proof -
  have f: "LIMA_VM_FLAG_PRESENT = 1" by (simp add: LIMA_VM_FLAG_PRESENT_def BIT_def)
  have "bit ((ucast (a OR ucast LIMA_VM_FLAG_PRESENT) :: u32) AND LIMA_VM_FLAG_PRESENT) 0"
    by (simp add: f bit_simps)
  then show "(ucast (a OR ucast LIMA_VM_FLAG_PRESENT) :: u32) AND LIMA_VM_FLAG_PRESENT \<noteq> 0"
    by (metis bit_0_eq bot_apply bot_bool_def)
  have "unat (a AND mask 12) = 0" using assms by (simp only: unat_and_mask_word) simp
  then have "take_bit 12 a = 0" by (metis take_bit_eq_mask unat_eq_0)
  then have low: "12 \<le> n" if "bit a n" for n
    using that by (metis bit_0_eq bit_take_bit_iff bot_apply bot_bool_def linorder_not_less)
  have m: "(4095 :: u32) = mask 12" by (simp add: mask_eq_decr_exp)
  show "(ucast (a OR ucast LIMA_VM_FLAG_PRESENT) :: u32) AND NOT 4095 = ucast a"
    unfolding m f by (rule bit_word_eqI) (auto simp: bit_simps not_less dest: low)
qed

lemma unat_mult4: "unat (w :: u32) < 1073741824 \<Longrightarrow> unat (4 * w) = 4 * unat w"
  by (simp add: unat_word_ariths)

lemma walk_address:
  assumes t: "table_ok p" and j: "j = vpn va mod 8192 div 1024"
  shows "ucast (vp_dma p + 4096 * of_nat j) + 4 * LIMA_PTE va = (ucast (vp_dma p) + 4 * LIMA_BTE va :: u32)"
proof -
  let ?d = "vp_dma p"
  have d: "unat ?d + 32768 \<le> 2 ^ 32" using t by (simp add: table_ok_def)
  have j8: "j < 8" using j by simp
  have bte: "unat (LIMA_BTE va) = 1024 * j + unat (LIMA_PTE va)"
  proof -
    have "vpn va mod 8192 mod 1024 = vpn va mod 1024" by (rule mod_mod_cancel) simp
    then show ?thesis using j mult_div_mod_eq [of 1024 "vpn va mod 8192"] by (simp add: unat_BTE unat_PTE)
  qed
  have "unat (4096 * of_nat j :: u64) = 4096 * j"
  proof -
    have "(4096 * of_nat j :: u64) = of_nat (4096 * j)" by simp
    also have "unat \<dots> = 4096 * j" using j8 by (simp only: unsigned_of_nat) (simp add: take_bit_nat_eq_self)
    finally show ?thesis .
  qed
  then have "unat (?d + 4096 * of_nat j) = unat ?d + 4096 * j"
    using unat_add_no_wrap64 [of ?d "4096 * of_nat j"] d j8 by simp
  then have a: "unat (ucast (?d + 4096 * of_nat j) :: u32) = unat ?d + 4096 * j"
    using d j8 by (simp add: unat_ucast_u64_u32)
  have c: "unat (ucast ?d :: u32) = unat ?d" using d by (simp add: unat_ucast_u64_u32)
  have p4: "unat (4 * LIMA_PTE va) = 4 * unat (LIMA_PTE va)" "unat (4 * LIMA_BTE va) = 4 * unat (LIMA_BTE va)"
    by (rule unat_mult4, simp add: unat_PTE unat_BTE less_trans [OF mod_less_divisor])+
  have pl: "unat (LIMA_PTE va) < 1024" by (simp add: unat_PTE)
  have "unat (ucast (?d + 4096 * of_nat j) + 4 * LIMA_PTE va :: u32) = unat ?d + 4096 * j + 4 * unat (LIMA_PTE va)"
    using unat_add_no_wrap32 [of "ucast (?d + 4096 * of_nat j)" "4 * LIMA_PTE va"] a p4 pl d j8 by simp
  moreover have "unat (ucast ?d + 4 * LIMA_BTE va :: u32) = unat ?d + 4 * unat (LIMA_BTE va)"
    using unat_add_no_wrap32 [of "ucast ?d" "4 * LIMA_BTE va"] c p4 bte pl d j8 by simp
  ultimately show ?thesis using bte by (simp only: word_unat_eq_iff) simp
qed

text \<open>
  C7: the walk the GPU makes, through \<open>LIMA_PDE\<close> and \<open>LIMA_PTE\<close> from the directory, ends at
  the word the CPU addresses with \<open>LIMA_PBE\<close> and \<open>LIMA_BTE\<close>: entry \<open>bte\<close> of the backing table,
  and it stops at the directory exactly where there is no table.
\<close>

theorem lima_vm_walk_reads_entry:
  assumes "vm_wf vm"
  shows "walk_pte_addr (vp_cpu (vm_pd vm)) va =
    (case vm_bts vm (unat (LIMA_PBE va)) of
       None \<Rightarrow> None
     | Some p \<Rightarrow> Some (ucast (vp_dma p) + 4 * LIMA_BTE va))"
proof -
  let ?i = "unat (LIMA_PBE va)" and ?j = "vpn va mod 8192 div 1024"
  have "vpn va div 1024 = 8 * (vpn va div 8192) + ?j"
    using div_mult2_eq [of "vpn va" 1024 8] mod_mult2_eq [of "vpn va" 1024 8] mult_div_mod_eq [of 8 "vpn va div 1024"]
    by simp
  then have idx: "unat (LIMA_PDE va) = 8 * ?i + ?j" by (simp only: unat_PDE unat_PBE)
  have j8: "?j < 8" by simp
  then have pde: "vp_cpu (vm_pd vm) (unat (LIMA_PDE va)) = pd_entry (vm_bts vm ?i) ?j"
    using assms unfolding idx vm_wf_def by blast
  show ?thesis
  proof (cases "vm_bts vm ?i")
    case None
    then show ?thesis using pde by (simp add: walk_pte_addr_def pd_entry_def)
  next
    case (Some p)
    then have t: "table_ok p" using assms by (auto simp: vm_wf_def)
    let ?a = "vp_dma p + 4096 * of_nat ?j"
    have "unat ?a mod 4096 = 0"
    proof -
      have e: "(4096 * of_nat ?j :: u64) = of_nat (4096 * ?j)" by simp
      have u: "unat (4096 * of_nat ?j :: u64) = 4096 * ?j"
        unfolding e using j8 by (simp only: unsigned_of_nat) (simp add: take_bit_nat_eq_self)
      have "unat ?a = unat (vp_dma p) + 4096 * ?j"
        using unat_add_no_wrap64 [of "vp_dma p" "4096 * of_nat ?j"] t j8 u by (simp add: table_ok_def)
      then show ?thesis using t by (simp add: table_ok_def)
    qed
    note pr = present_entry [OF this]
    have "vp_cpu (vm_pd vm) (unat (LIMA_PDE va)) = ucast (?a OR ucast LIMA_VM_FLAG_PRESENT)"
      using pde Some by (simp add: pd_entry_def)
    then have "walk_pte_addr (vp_cpu (vm_pd vm)) va = Some (ucast ?a + 4 * LIMA_PTE va)"
      using pr by (simp only: walk_pte_addr_def Let_def if_False)
    then show ?thesis using walk_address [OF t refl] Some by simp
  qed
qed

text \<open>
  C8: a mapped page is entered with its whole address: a page the 32-bit entry cannot hold is refused
  with \<open>ERANGE\<close>, and after a success the entry of \<open>va\<close>, its flag bits masked away, is the
  bus address of the page.
\<close>

theorem lima_vm_map_page_keeps_address:
  assumes al: "unat pa mod 4096 = 0"
  shows "(unat pa \<ge> 4294967296 \<longrightarrow> lima_vm_map_page alloc pa va vm = (E ERANGE, vm)) \<and>
    (fst (lima_vm_map_page alloc pa va vm) = OK \<longrightarrow>
       ucast (fst (lima_vm_probe_pte (snd (lima_vm_map_page alloc pa va vm)) va) AND NOT 4095) = pa)"
proof (intro conjI impI)
  assume "unat pa \<ge> 4294967296"
  then show "lima_vm_map_page alloc pa va vm = (E ERANGE, vm)"
    by (simp add: lima_vm_map_page_def Let_def UINT32_MAX_def LIMA_PAGE_SIZE_def word_less_nat_alt)
next
  assume ok: "fst (lima_vm_map_page alloc pa va vm) = OK"
  then obtain vm' where m: "lima_vm_map_page alloc pa va vm = (OK, vm')" by (metis prod.collapse)
  have "fst (lima_vm_probe_pte vm' va) = pte_of pa"
    using map_page_OK(2) [OF m, of "vpn va"] by (simp add: probe_pte)
  moreover have "ucast (pte_of pa AND NOT 4095) = pa"
  proof -
    have "unat (pa AND mask 12) = 0" using al by (simp only: unat_and_mask_word) simp
    then have "take_bit 12 pa = 0" by (metis take_bit_eq_mask unat_eq_0)
    then have low: "12 \<le> n" if "bit pa n" for n
      using that by (metis bit_0_eq bit_take_bit_iff bot_apply bot_bool_def linorder_not_less)
    have "unat pa < 2 ^ 32" using map_page_OK(4) [OF m] by simp
    then have "take_bit 32 pa = pa"
      by (simp add: word_unat_eq_iff unsigned_take_bit_eq take_bit_nat_eq_self)
    then have high: "n < 32" if "bit pa n" for n using that by (metis bit_take_bit_iff)
    have m: "(4095 :: u32) = mask 12" by (simp add: mask_eq_decr_exp)
    have f: "LIMA_VM_FLAGS_CACHE AND NOT (mask 12) = 0"
      by (simp add: LIMA_VM_FLAGS_CACHE_def regs BIT_def mask_eq_decr_exp)
    have fl: "n < 12" if "bit LIMA_VM_FLAGS_CACHE n" for n
    proof (rule ccontr)
      assume "\<not> n < 12"
      then have "bit (LIMA_VM_FLAGS_CACHE AND NOT (mask 12)) n"
        using that bit_imp_le_length [OF that] by (simp add: bit_simps)
      then show False by (simp add: f)
    qed
    show ?thesis unfolding pte_of_def m
      by (rule bit_word_eqI) (auto simp: bit_simps not_less dest: low high fl)
  qed
  ultimately show "ucast (fst (lima_vm_probe_pte (snd (lima_vm_map_page alloc pa va vm)) va) AND NOT 4095) = pa"
    using m by simp
qed

section \<open>A concrete address space\<close>

definition demo_alloc :: "nat \<Rightarrow> u64 option" where
  "demo_alloc i = Some 0x100000"

definition demo_vm_env :: vm_env where
  "demo_vm_env = \<lparr>ve_alloc = demo_alloc, ve_kzalloc = True, ve_insert = Inr 0x10000\<rparr>"

definition demo_bo :: lima_bo where
  "demo_bo = \<lparr>bo_base = (shmem_new 4096 True)\<lparr>sh_sgt := Some [0x5000]\<rparr>, bo_va = [], bo_heap_size = 0\<rparr>"

lemma demo_bo_facts [simp]:
  "lima_vm_bo_find i (bo_va demo_bo) = None" "sh_sgt (bo_base demo_bo) = Some [0x5000]"
  "bo_heap_size demo_bo = 0" "lima_bo_size demo_bo = 4096" "ve_kzalloc demo_vm_env"
  "ve_insert demo_vm_env = Inr 0x10000" "granted 0x10000 [0x5000]"
  by (simp_all add: demo_bo_def lima_bo_size_def shmem_new_def demo_vm_env_def granted_def)

lemma demo_aligned: "alloc_aligned demo_alloc"
  by (simp add: alloc_aligned_def demo_alloc_def)

lemma demo_blank_wf: "vm_wf (vm_blank 0x1000)"
  by (simp add: vm_wf_def vm_blank_def pd_entry_def)

lemma demo_map: "lima_vm_map_page demo_alloc 0x5000 0x10000 (drm_mm_add n (vm_blank 0x1000)) =
    (OK, snd (lima_vm_map_page demo_alloc 0x5000 0x10000 (drm_mm_add n (vm_blank 0x1000))))"
  by (simp add: lima_vm_map_page_def demo_alloc_def vm_blank_def drm_mm_add_def UINT32_MAX_def
      LIMA_PAGE_SIZE_def vm_geometry Let_def)

lemma demo_add: "\<exists>vm1 bo1. lima_vm_bo_add demo_vm_env i True (vm_blank 0x1000) demo_bo = Some (OK, vm1, bo1)"
proof -
  obtain vm1 where m: "lima_vm_map_page demo_alloc 0x5000 0x10000
      (drm_mm_add (0x10000, 4096) (vm_blank 0x1000)) = (OK, vm1)" using demo_map by blast
  have "ve_alloc demo_vm_env = demo_alloc" by (simp add: demo_vm_env_def)
  then show ?thesis by (simp add: lima_vm_bo_add_def map_pages_def map_step_def m)
qed

theorem lima_vm_bo_add_spec_witness:
  "\<exists>vm' bo'. lima_vm_bo_add demo_vm_env 3 True (vm_blank 0x1000) demo_bo = Some (OK, vm', bo') \<and>
     fst (lima_vm_probe_pte vm' 0x10000) = pte_of 0x5000"
proof -
  have v: "page_range 0x10000 1 (vpn 0x10000)" "vpn 0x10000 = 16" by (simp_all add: vpn_def page_range_def)
  obtain vm' bo' where a: "lima_vm_bo_add demo_vm_env 3 True (vm_blank 0x1000) demo_bo = Some (OK, vm', bo')"
    using demo_add by blast
  have "\<forall>va. fst (lima_vm_probe_pte vm' va) =
          (if page_range 0x10000 (List.length [0x5000 :: u64]) (vpn va)
           then pte_of ([0x5000] ! (vpn va - unat (0x10000 :: u64) div 4096))
           else fst (lima_vm_probe_pte (vm_blank 0x1000) va))"
    using lima_vm_bo_add_spec [of 3 demo_bo demo_vm_env "0x10000" "[0x5000]" "vm_blank 0x1000"] a
    by (auto simp del: One_nat_def)
  then have "fst (lima_vm_probe_pte vm' 0x10000) = pte_of 0x5000" using v by simp
  with a show ?thesis by blast
qed


theorem lima_vm_bo_del_returns_iff_witness:
  "lima_vm_bo_del 3 (vm_blank 0x1000)
     (demo_bo\<lparr>bo_va := [new_va 3 0xFFFFF000 4096]\<rparr>) = None"
proof -
  have "\<not> (lima_vm_bo_del 3 (vm_blank 0x1000) (demo_bo\<lparr>bo_va := [new_va 3 0xFFFFF000 4096]\<rparr>) \<noteq> None)"
    by (subst lima_vm_bo_del_returns_iff [where b = "new_va 3 0xFFFFF000 4096" and n = 1])
      (simp_all add: new_va_def demo_bo_def)
  then show ?thesis by blast
qed

theorem lima_vm_directory_invariant_witness:
  "\<exists>r vm' bo'. lima_vm_bo_add demo_vm_env 3 True (vm_blank 0x1000) demo_bo = Some (r, vm', bo') \<and> vm_wf vm'"
proof -
  obtain vm1 bo1 where a: "lima_vm_bo_add demo_vm_env 3 True (vm_blank 0x1000) demo_bo = Some (OK, vm1, bo1)"
    using demo_add by blast
  have "demo_vm_env\<lparr>ve_alloc := demo_alloc\<rparr> = demo_vm_env" by (simp add: demo_vm_env_def)
  then have "lima_vm_bo_add (demo_vm_env\<lparr>ve_alloc := demo_alloc\<rparr>) 3 True (vm_blank 0x1000) demo_bo =
      Some (OK, vm1, bo1)" using a by simp
  then have "vm_wf vm1" using lima_vm_directory_invariant [OF demo_aligned] demo_blank_wf by blast
  then show ?thesis using a by blast
qed

theorem lima_vm_walk_reads_entry_witness:
  "walk_pte_addr (vp_cpu (vm_pd (vm_blank 0x1000))) 0x10000 = None"
  using lima_vm_walk_reads_entry [OF demo_blank_wf, of "0x10000"] by (simp add: vm_blank_def)

theorem lima_vm_map_page_keeps_address_witness:
  "lima_vm_map_page demo_alloc 0x100000000 0x10000 (vm_blank 0x1000) = (E ERANGE, vm_blank 0x1000)"
  using lima_vm_map_page_keeps_address [of "0x100000000" demo_alloc "0x10000" "vm_blank 0x1000"] by simp

end
