(* ===== verification/Shmem_Lifecycle.thy ===== *)
theory Shmem_Lifecycle
  imports Shmem_Helper
begin

text \<open>
  The life of a native (not imported) SHMEM object as a state machine over the operations of
  \<open>Shmem_Helper\<close>. Two ghost numbers count what the callers hold: \<open>pins\<close> for
  \<open>drm_gem_shmem_pin\<close> and \<open>maps\<close> for user mappings. The invariant says that
  \<open>pages_use_count\<close> is exactly the number of users, that the array exists exactly while there
  is one, and that the object owns exactly one wiring per page it holds.
\<close>

section \<open>The core invariant and the two reference operations\<close>

definition held :: "nat option list option \<Rightarrow> nat \<Rightarrow> nat" where
  "held ps q = (case ps of None \<Rightarrow> 0 | Some xs \<Rightarrow> count_list xs (Some q))"

lemma held_simps [simp]:
  "held None q = 0"
  "held (Some xs) q = count_list xs (Some q)"
  by (simp_all add: held_def)

definition shmem_core :: "(nat \<Rightarrow> nat) \<Rightarrow> shmem \<Rightarrow> vmsys \<Rightarrow> bool" where
  "shmem_core w0 obj s \<longleftrightarrow>
     (sh_pages obj = None \<longleftrightarrow> sh_pages_use_count obj = 0) \<and>
     (\<forall>xs. sh_pages obj = Some xs \<longrightarrow>
        List.length xs = unat (drm_gem_shmem_npages (gem_size obj)) \<and> None \<notin> set xs) \<and>
     (\<forall>q. wire s q = w0 q + held (sh_pages obj) q)"

lemma shmem_core_wire_cong: "wire s' = wire s \<Longrightarrow> shmem_core w0 obj s' = shmem_core w0 obj s"
  by (simp add: shmem_core_def)

lemma frame_count [intro!]:
  "\<exists>ps c. obj\<lparr>sh_pages_use_count := x\<rparr> = obj\<lparr>sh_pages := ps, sh_pages_use_count := c\<rparr>"
  by (rule exI [of _ "sh_pages obj"], rule exI [of _ x]) simp

lemma get_pages_OK:
  assumes g: "drm_gem_shmem_get_pages env obj s = (OK, obj', s')"
    and core: "shmem_core w0 obj s" and room: "unat (sh_pages_use_count obj) < 4294967295"
  shows "shmem_core w0 obj' s'"
    and "unat (sh_pages_use_count obj') = Suc (unat (sh_pages_use_count obj))"
    and "\<exists>ps c. obj' = obj\<lparr>sh_pages := ps, sh_pages_use_count := c\<rparr>"
proof -
  let ?c = "sh_pages_use_count obj"
  have succ: "unat (?c + 1) = Suc (unat ?c)" using room by (rule unat_u32_succ)
  then have nz: "?c + 1 \<noteq> 0" by (metis nat.distinct(1) unsigned_0)
  have "shmem_core w0 obj' s' \<and> unat (sh_pages_use_count obj') = Suc (unat ?c) \<and>
      (\<exists>ps c. obj' = obj\<lparr>sh_pages := ps, sh_pages_use_count := c\<rparr>)"
  proof (cases "?c = 0")
    case False
    with g have eq: "obj' = obj\<lparr>sh_pages_use_count := ?c + 1\<rparr>" "s' = s"
      by (simp_all add: drm_gem_shmem_get_pages_def drm_gem_shmem_ref_first_def Let_def)
    have "\<exists>ps c. obj' = obj\<lparr>sh_pages := ps, sh_pages_use_count := c\<rparr>"
      unfolding eq(1) by (rule frame_count)
    moreover have "shmem_core w0 obj' s'"
      using core eq False nz by (simp add: shmem_core_def)
    ultimately show ?thesis using eq succ by simp
  next
    case True
    let ?o1 = "obj\<lparr>sh_pages_use_count := 1\<rparr>"
    from g True obtain pages s1 where
      f: "drm_gem_shmem_freebsd_get_pages env ?o1 s = (Inr pages, s1)"
      and eq: "obj' = ?o1\<lparr>sh_pages := Some pages\<rparr>" and w: "wire s' = wire s1"
      by (auto simp: drm_gem_shmem_get_pages_def drm_gem_shmem_ref_first_def Let_def
          split: sum.splits prod.splits if_splits)
    have "wire s1 q = w0 q + count_list pages (Some q)" for q
      using freebsd_get_pages_Inr(1) [OF f] core True by (simp add: shmem_core_def)
    then have "shmem_core w0 obj' s'"
      using freebsd_get_pages_Inr(2,3) [OF f] eq w by (simp add: shmem_core_def)
    moreover have "obj' = obj\<lparr>sh_pages := Some pages, sh_pages_use_count := 1\<rparr>"
      using eq by simp
    ultimately show ?thesis using True by auto
  qed
  then show "shmem_core w0 obj' s'" "unat (sh_pages_use_count obj') = Suc (unat ?c)"
    "\<exists>ps c. obj' = obj\<lparr>sh_pages := ps, sh_pages_use_count := c\<rparr>" by blast+
qed

lemma get_pages_E:
  assumes g: "drm_gem_shmem_get_pages env obj s = (E e, obj', s')"
  shows "obj' = obj" and "wire s' = wire s"
proof -
  have z: "sh_pages_use_count obj = 0" using g
    by (auto simp: drm_gem_shmem_get_pages_def drm_gem_shmem_ref_first_def Let_def split: if_splits)
  from g z obtain s1 where "drm_gem_shmem_freebsd_get_pages env (obj\<lparr>sh_pages_use_count := 1\<rparr>) s = (Inl e, s1)"
    "obj' = obj\<lparr>sh_pages_use_count := 0\<rparr>" "s' = s1"
    by (auto simp: drm_gem_shmem_get_pages_def drm_gem_shmem_ref_first_def Let_def
        split: sum.splits prod.splits if_splits)
  then show "obj' = obj" "wire s' = wire s" using z by (auto dest: freebsd_get_pages_Inl)
qed

lemma put_pages_Some:
  assumes core: "shmem_core w0 obj s" and pos: "0 < unat (sh_pages_use_count obj)"
  obtains obj' s' where "drm_gem_shmem_put_pages obj s = Some (obj', s')"
    "shmem_core w0 obj' s'"
    "unat (sh_pages_use_count obj') = unat (sh_pages_use_count obj) - 1"
    "\<exists>ps c. obj' = obj\<lparr>sh_pages := ps, sh_pages_use_count := c\<rparr>"
proof -
  let ?c = "sh_pages_use_count obj"
  have nz: "?c \<noteq> 0" using pos by auto
  then obtain xs where xs: "sh_pages obj = Some xs" using core by (auto simp: shmem_core_def)
  show thesis
  proof (cases "?c = 1")
    case False
    let ?o = "obj\<lparr>sh_pages_use_count := ?c - 1\<rparr>"
    have nz1: "?c - 1 \<noteq> 0" using False by simp
    have "drm_gem_shmem_put_pages obj s = Some (?o, s)"
      using nz False by (simp add: drm_gem_shmem_put_pages_def unref_cases)
    moreover have "shmem_core w0 ?o s" using core nz nz1 by (auto simp: shmem_core_def)
    moreover have "unat (sh_pages_use_count ?o) = unat ?c - 1"
      using unat_u32_pred [OF nz] by simp
    ultimately show thesis using that [OF _ _ _ frame_count] by blast
  next
    case True
    let ?o1 = "obj\<lparr>sh_pages_use_count := 0\<rparr>"
    let ?o2 = "obj\<lparr>sh_pages := None, sh_pages_use_count := 0\<rparr>"
    let ?s1 = "if sh_map_wc ?o1 then drm_gem_shmem_set_pages_memattr xs
        (drm_gem_shmem_npages (gem_size ?o1)) VM_MEMATTR_DEFAULT s else s"
    let ?s2 = "drm_gem_shmem_freebsd_put_pages ?o1 xs (sh_dirty_on_put ?o1)
        (sh_accessed_on_put ?o1) ?s1"
    have put: "drm_gem_shmem_put_pages obj s = Some (?o2, ?s2)"
      using True xs by (simp add: drm_gem_shmem_put_pages_def unref_cases Let_def)
    have "wire ?s2 q = w0 q" for q
      using core xs
      by (simp add: drm_gem_shmem_freebsd_put_pages_def Let_def wire_fold_put_one shmem_core_def)
    then have "shmem_core w0 ?o2 ?s2" by (simp add: shmem_core_def)
    with put that True show thesis by auto
  qed
qed

section \<open>The step relation\<close>

type_synonym shm_state = "shmem \<times> vmsys \<times> nat \<times> nat"

text \<open>
  One rule per public operation and result. The bound on the counters says that callers cannot hold
  \<open>2^32\<close> references, which the \<open>unsigned int\<close> counters rely on.
\<close>

definition room :: "shmem \<Rightarrow> bool" where
  "room obj \<longleftrightarrow> unat (sh_pages_use_count obj) < 4294967295 \<and>
     unat (sh_vmap_use_count obj) < 4294967295"

inductive shm_step :: "shm_state \<Rightarrow> shm_state \<Rightarrow> bool" where
  pin: "room obj \<Longrightarrow> drm_gem_shmem_pin env obj s = (OK, obj', s') \<Longrightarrow>
     shm_step (obj, s, p, m) (obj', s', Suc p, m)"
| pin_fail: "drm_gem_shmem_pin env obj s = (E e, obj', s') \<Longrightarrow>
     shm_step (obj, s, p, m) (obj', s', p, m)"
| unpin: "drm_gem_shmem_unpin obj s = Some (obj', s') \<Longrightarrow>
     shm_step (obj, s, Suc p, m) (obj', s', p, m)"
| mmap: "room obj \<Longrightarrow> drm_gem_shmem_mmap env obj s = (OK, wc, obj', s') \<Longrightarrow>
     shm_step (obj, s, p, m) (obj', s', p, Suc m)"
| mmap_fail: "drm_gem_shmem_mmap env obj s = (E e, wc, obj', s') \<Longrightarrow>
     shm_step (obj, s, p, m) (obj', s', p, m)"
| vm_open: "room obj \<Longrightarrow> 0 < m \<Longrightarrow>
     shm_step (obj, s, p, m) (drm_gem_shmem_vm_open obj, s, p, Suc m)"
| vm_close: "drm_gem_shmem_vm_close obj s = Some (obj', s') \<Longrightarrow>
     shm_step (obj, s, p, Suc m) (obj', s', p, m)"
| fault: "0 < m \<Longrightarrow> drm_gem_shmem_fault obj a v s = Some (r, s') \<Longrightarrow>
     shm_step (obj, s, p, m) (obj, s', p, m)"
| vmap: "room obj \<Longrightarrow> drm_gem_shmem_vmap env obj s = Some (r, a, obj', s') \<Longrightarrow>
     shm_step (obj, s, p, m) (obj', s', p, m)"
| vunmap: "drm_gem_shmem_vunmap obj s = Some (obj', s') \<Longrightarrow>
     shm_step (obj, s, p, m) (obj', s', p, m)"
| get_sgt: "room obj \<Longrightarrow> drm_gem_shmem_get_pages_sgt env obj s = Some (r, obj', s') \<Longrightarrow>
     shm_step (obj, s, p, m) (obj', s', p, m)"
| madvise: "drm_gem_shmem_madvise obj a = (u, obj') \<Longrightarrow>
     shm_step (obj, s, p, m) (obj', s, p, m)"
| purge: "drm_gem_shmem_is_purgeable obj \<Longrightarrow> drm_gem_shmem_purge obj s = Some (obj', s') \<Longrightarrow>
     shm_step (obj, s, p, m) (obj', s', p, m)"

definition users :: "shmem \<Rightarrow> nat \<Rightarrow> nat \<Rightarrow> nat" where
  "users obj p m = p + m + (if sh_vmap_use_count obj \<noteq> 0 then 1 else 0) +
     (if sh_sgt obj \<noteq> None then 1 else 0)"

fun shm_inv :: "(nat \<Rightarrow> nat) \<Rightarrow> shm_state \<Rightarrow> bool" where
  "shm_inv w0 (obj, s, p, m) \<longleftrightarrow>
     shmem_core w0 obj s \<and> \<not> gem_import obj \<and>
     unat (sh_pages_use_count obj) = users obj p m \<and>
     (sh_vmap_use_count obj \<noteq> 0 \<longleftrightarrow> sh_vaddr obj \<noteq> None)"

lemma shm_invI:
  assumes "shmem_core w0 obj' s'" "unat (sh_pages_use_count obj') = users obj' p m"
    and "\<not> gem_import obj'" "sh_vmap_use_count obj' \<noteq> 0 \<longleftrightarrow> sh_vaddr obj' \<noteq> None"
  shows "shm_inv w0 (obj', s', p, m)"
  using assms by simp

text \<open>Taking the pages for one more user, and dropping them for one less.\<close>

lemma inv_get_pages:
  assumes "shm_inv w0 (obj, s, p, m)" and "room obj"
    and "drm_gem_shmem_get_pages env obj s = (OK, obj', s')"
  shows "shmem_core w0 obj' s'" "unat (sh_pages_use_count obj') = Suc (users obj p m)"
    and "\<exists>ps c. obj' = obj\<lparr>sh_pages := ps, sh_pages_use_count := c\<rparr>"
  using get_pages_OK [OF assms(3), of w0] assms(1,2) by (auto simp: room_def)

lemma inv_put_pages:
  assumes "shmem_core w0 obj s" "0 < unat (sh_pages_use_count obj)"
    and "drm_gem_shmem_put_pages obj s = Some (obj', s')"
  shows "shmem_core w0 obj' s'" "unat (sh_pages_use_count obj') = unat (sh_pages_use_count obj) - 1"
    and "\<exists>ps c. obj' = obj\<lparr>sh_pages := ps, sh_pages_use_count := c\<rparr>"
  using put_pages_Some [OF assms(1,2)] assms(3) by (metis Pair_inject option.inject)+

section \<open>Every operation keeps the invariant\<close>

lemma users_frame [simp]:
  "users (obj\<lparr>sh_pages := ps, sh_pages_use_count := c\<rparr>) p m = users obj p m"
  by (simp add: users_def)

lemma inv_pin:
  assumes "shm_inv w0 (obj, s, p, m)" "room obj" "drm_gem_shmem_get_pages env obj s = (OK, obj', s')"
  shows "shm_inv w0 (obj', s', Suc p, m)" and "shm_inv w0 (obj', s', p, Suc m)"
proof -
  note g = inv_get_pages [OF assms]
  from g(3) obtain ps c where eq: "obj' = obj\<lparr>sh_pages := ps, sh_pages_use_count := c\<rparr>" by blast
  show "shm_inv w0 (obj', s', Suc p, m)" "shm_inv w0 (obj', s', p, Suc m)"
    using g(1,2) eq assms(1) by (auto simp: users_def)
qed

lemma inv_get_fail:
  assumes "shm_inv w0 (obj, s, p, m)" "drm_gem_shmem_get_pages env obj s = (E e, obj', s')"
  shows "shm_inv w0 (obj', s', p, m)"
  using shmem_core_wire_cong [OF get_pages_E(2) [OF assms(2)], of w0 obj] get_pages_E(1) [OF assms(2)]
    assms(1) by simp

lemma inv_put:
  assumes inv: "shm_inv w0 (obj, s, p, m)" and n: "users obj p m = Suc n"
    and put: "drm_gem_shmem_put_pages obj s = Some (obj', s')"
    and fewer: "users obj' p' m' = n"
  shows "shm_inv w0 (obj', s', p', m')"
proof -
  have core: "shmem_core w0 obj s" and pos: "0 < unat (sh_pages_use_count obj)"
    using inv n by simp_all
  note g = inv_put_pages [OF core pos put]
  from g(3) obtain ps c where eq: "obj' = obj\<lparr>sh_pages := ps, sh_pages_use_count := c\<rparr>" by blast
  show ?thesis using g(1,2) eq inv n fewer by simp
qed

lemma put_users:
  assumes "drm_gem_shmem_put_pages obj s = Some (obj', s')" "shmem_core w0 obj s"
    and "0 < unat (sh_pages_use_count obj)"
  shows "users obj' p m = users obj p m"
  using inv_put_pages(3) [OF assms(2,3,1)] by auto

lemma inv_unpin:
  assumes "shm_inv w0 (obj, s, Suc p, m)" "drm_gem_shmem_put_pages obj s = Some (obj', s')"
  shows "shm_inv w0 (obj', s', p, m)"
proof (rule inv_put [OF assms(1) _ assms(2)])
  show "users obj (Suc p) m = Suc (users obj p m)" by (simp add: users_def)
  show "users obj' p m = users obj p m"
    by (rule put_users [OF assms(2), of w0]) (use assms(1) in \<open>simp_all add: users_def\<close>)
qed

lemma inv_refs: "shm_inv w0 (obj\<lparr>gem_refs := r\<rparr>, s, p, m) = shm_inv w0 (obj, s, p, m)"
  by (simp add: shmem_core_def users_def)

lemma inv_vm_close:
  assumes "shm_inv w0 (obj, s, p, Suc m)" "drm_gem_shmem_vm_close obj s = Some (obj', s')"
  shows "shm_inv w0 (obj', s', p, m)"
proof -
  from assms(2) obtain o1 where put: "drm_gem_shmem_put_pages obj s = Some (o1, s')"
    and eq: "obj' = o1\<lparr>gem_refs := gem_refs o1 - 1\<rparr>"
    by (auto simp: drm_gem_shmem_vm_close_def bind_eq_Some_conv)
  have "shm_inv w0 (o1, s', p, m)"
  proof (rule inv_put [OF assms(1) _ put])
    show "users obj p (Suc m) = Suc (users obj p m)" by (simp add: users_def)
    show "users o1 p m = users obj p m"
      by (rule put_users [OF put, of w0]) (use assms(1) in \<open>simp_all add: users_def\<close>)
  qed
  then show ?thesis by (simp only: eq inv_refs)
qed

lemma inv_vm_open:
  assumes "shm_inv w0 (obj, s, p, m)" "room obj" "0 < m"
  shows "shm_inv w0 (drm_gem_shmem_vm_open obj, s, p, Suc m)"
proof -
  have pos: "0 < unat (sh_pages_use_count obj)" using assms by (simp add: users_def)
  then have nz: "sh_pages_use_count obj \<noteq> 0" by auto
  have succ: "unat (sh_pages_use_count obj + 1) = Suc (unat (sh_pages_use_count obj))"
    using assms(2) by (simp add: room_def unat_u32_succ)
  then have "sh_pages_use_count obj + 1 \<noteq> 0" by (metis nat.distinct(1) unsigned_0)
  then have "shm_inv w0 (obj\<lparr>sh_pages_use_count := sh_pages_use_count obj + 1\<rparr>, s, p, Suc m)"
    using assms nz succ by (simp add: shmem_core_def users_def)
  then show ?thesis using nz
    by (simp only: drm_gem_shmem_vm_open_def Let_def inv_refs if_True not_False_eq_True)
qed

lemma inv_fault:
  assumes "shm_inv w0 (obj, s, p, m)" "drm_gem_shmem_fault obj a v s = Some (r, s')"
  shows "shm_inv w0 (obj, s', p, m)"
proof -
  have "wire s' = wire s" using assms(2)
    by (auto simp: drm_gem_shmem_fault_def split: option.splits if_splits)
  from shmem_core_wire_cong [OF this, of w0 obj] show ?thesis using assms(1) by simp
qed

lemma core_vmap_fields [simp]:
  "shmem_core w0 (obj\<lparr>sh_vmap_use_count := x\<rparr>) s = shmem_core w0 obj s"
  "shmem_core w0 (obj\<lparr>sh_vaddr := a\<rparr>) s = shmem_core w0 obj s"
  "shmem_core w0 (obj\<lparr>sh_sgt := g\<rparr>) s = shmem_core w0 obj s"
  "shmem_core w0 (obj\<lparr>sh_madv := i\<rparr>) s = shmem_core w0 obj s"
  "shmem_core w0 (obj\<lparr>gem_mmap_offset := b\<rparr>) s = shmem_core w0 obj s"
  by (simp_all add: shmem_core_def)

lemma inv_vmap:
  assumes inv: "shm_inv w0 (obj, s, p, m)" and room: "room obj"
    and vm: "drm_gem_shmem_vmap env obj s = Some (r, a, obj', s')"
  shows "shm_inv w0 (obj', s', p, m)"
proof (cases "sh_vmap_use_count obj = 0")
  case False
  have "unat (sh_vmap_use_count obj + 1) = Suc (unat (sh_vmap_use_count obj))"
    using room by (simp add: room_def unat_u32_succ)
  then have "sh_vmap_use_count obj + 1 \<noteq> 0" by (metis nat.distinct(1) unsigned_0)
  then show ?thesis using inv vm False
    by (auto simp: drm_gem_shmem_vmap_def drm_gem_shmem_ref_first_def users_def)
next
  case True
  let ?o1 = "obj\<lparr>sh_vmap_use_count := 1\<rparr>"
  have imp: "\<not> gem_import obj" and core1: "shmem_core w0 ?o1 s"
    and cnt: "unat (sh_pages_use_count obj) = users obj p m"
    and room1: "unat (sh_pages_use_count ?o1) < 4294967295" using inv room by (auto simp: room_def)
  obtain r2 o2 s2 where g: "drm_gem_shmem_get_pages env ?o1 s = (r2, o2, s2)"
    by (metis prod_cases3)
  show ?thesis
  proof (cases r2)
    case (E e)
    note f = get_pages_E [OF g [unfolded E]]
    have "obj' = ?o1\<lparr>sh_vmap_use_count := 0\<rparr>" "s' = s2"
      using vm True imp g E f by (auto simp: drm_gem_shmem_vmap_def drm_gem_shmem_ref_first_def)
    moreover have "?o1\<lparr>sh_vmap_use_count := 0\<rparr> = obj\<lparr>sh_vmap_use_count := 0\<rparr>" by simp
    moreover have "shmem_core w0 obj s2 = shmem_core w0 obj s"
      by (rule shmem_core_wire_cong [OF f(2)])
    ultimately show ?thesis using inv True by (simp add: users_def)
  next
    case OK
    note f = get_pages_OK [OF g [unfolded OK] core1 room1]
    from f(3) obtain ps c where o2: "o2 = ?o1\<lparr>sh_pages := ps, sh_pages_use_count := c\<rparr>" by blast
    have c2: "unat (sh_pages_use_count o2) = Suc (users obj p m)" using f(2) cnt by simp
    show ?thesis
    proof (cases "e_vmap env")
      case (Some v)
      then have "obj' = o2\<lparr>sh_vaddr := Some v\<rparr>" "s' = s2"
        using vm True imp g OK by (auto simp: drm_gem_shmem_vmap_def drm_gem_shmem_ref_first_def Let_def)
      then show ?thesis using f(1) c2 o2 inv True by (simp add: users_def)
    next
      case None
      let ?o3 = "o2\<lparr>sh_vaddr := None\<rparr>"
      from vm True imp g OK None obtain o4 where
        put: "drm_gem_shmem_put_pages ?o3 s2 = Some (o4, s')"
        and eq: "obj' = o4\<lparr>sh_vmap_use_count := 0\<rparr>"
        by (auto simp: drm_gem_shmem_vmap_def drm_gem_shmem_ref_first_def Let_def bind_eq_Some_conv)
      have core3: "shmem_core w0 ?o3 s2" using f(1) by simp
      have pos3: "0 < unat (sh_pages_use_count ?o3)" using c2 by simp
      note h = inv_put_pages [OF core3 pos3 put]
      from h(3) obtain ps' c' where "o4 = ?o3\<lparr>sh_pages := ps', sh_pages_use_count := c'\<rparr>" by blast
      then show ?thesis using h(1,2) eq c2 o2 inv True by (simp add: users_def shmem_core_def)
    qed
  qed
qed

lemma inv_vunmap:
  assumes inv: "shm_inv w0 (obj, s, p, m)"
    and vu: "drm_gem_shmem_vunmap obj s = Some (obj', s')"
  shows "shm_inv w0 (obj', s', p, m)"
proof -
  let ?v = "sh_vmap_use_count obj"
  have imp: "\<not> gem_import obj" and core: "shmem_core w0 obj s"
    and cnt: "unat (sh_pages_use_count obj) = users obj p m" using inv by simp_all
  consider "?v = 0" | "?v \<noteq> 0" "?v \<noteq> 1" | "?v = 1" by blast
  then show ?thesis
  proof cases
    case 1
    then have "obj' = obj\<lparr>sh_vmap_use_count := 0\<rparr>" "s' = s"
      using vu imp by (auto simp: drm_gem_shmem_vunmap_def unref_cases)
    then show ?thesis using inv 1 by (simp add: users_def)
  next
    case 2
    then have "obj' = obj\<lparr>sh_vmap_use_count := ?v - 1\<rparr>" "s' = s"
      using vu imp by (auto simp: drm_gem_shmem_vunmap_def unref_cases)
    then show ?thesis using inv 2 by (simp add: users_def)
  next
    case 3
    let ?o1 = "obj\<lparr>sh_vmap_use_count := 0\<rparr>"
    from vu imp 3 obtain o2 where put: "drm_gem_shmem_put_pages ?o1 s = Some (o2, s')"
      and eq: "obj' = o2\<lparr>sh_vaddr := None\<rparr>"
      by (auto simp: drm_gem_shmem_vunmap_def unref_cases bind_eq_Some_conv)
    have core1: "shmem_core w0 ?o1 s" using core by simp
    have pos: "0 < unat (sh_pages_use_count ?o1)" using cnt 3 by (simp add: users_def)
    note h = inv_put_pages [OF core1 pos put]
    from h(3) obtain ps c where "o2 = ?o1\<lparr>sh_pages := ps, sh_pages_use_count := c\<rparr>" by blast
    then show ?thesis using h(1,2) eq cnt 3 imp by (simp add: users_def)
  qed
qed

lemma inv_get_sgt:
  assumes inv: "shm_inv w0 (obj, s, p, m)" and room: "room obj"
    and sg: "drm_gem_shmem_get_pages_sgt env obj s = Some (r, obj', s')"
  shows "shm_inv w0 (obj', s', p, m)"
proof (cases "e_lock env = OK \<and> sh_sgt obj = None")
  case False
  then have "obj' = obj" "s' = s" using sg
    by (auto simp: drm_gem_shmem_get_pages_sgt_def drm_gem_shmem_get_pages_sgt_locked_def
        split: rc.splits option.splits)
  then show ?thesis using inv by simp
next
  case True
  then have sg1: "drm_gem_shmem_get_pages_sgt_locked env obj s = Some (r, obj', s')"
    and none: "sh_sgt obj = None" using sg by (simp_all add: drm_gem_shmem_get_pages_sgt_def)
  have core: "shmem_core w0 obj s" and r1: "unat (sh_pages_use_count obj) < 4294967295"
    using inv room by (simp_all add: room_def)
  obtain r2 o2 s2 where g: "drm_gem_shmem_get_pages env obj s = (r2, o2, s2)" by (metis prod_cases3)
  show ?thesis
  proof (cases r2)
    case (E e)
    then have "obj' = o2" "s' = s2" using sg1 none g
      by (auto simp: drm_gem_shmem_get_pages_sgt_locked_def)
    then show ?thesis using inv_get_fail [OF inv g [unfolded E]] by simp
  next
    case OK
    note f = inv_get_pages [OF inv room g [unfolded OK]]
    from f(3) obtain ps c where o2: "o2 = obj\<lparr>sh_pages := ps, sh_pages_use_count := c\<rparr>" by blast
    have fail: ?thesis if put: "drm_gem_shmem_put_pages o2 s2 = Some (obj', s')"
    proof -
      have pos: "0 < unat (sh_pages_use_count o2)" using f(2) by simp
      note h = inv_put_pages [OF f(1) pos put]
      from h(3) obtain ps' c' where "obj' = o2\<lparr>sh_pages := ps', sh_pages_use_count := c'\<rparr>" by blast
      then show ?thesis using h(1,2) o2 inv f(2) by simp
    qed
    show ?thesis
    proof (cases "e_pages_to_sg env = OK \<and> (\<exists>sgt. e_dma_map env = Inr sgt)")
      case True
      then obtain sgt where "e_dma_map env = Inr sgt" "e_pages_to_sg env = OK" by blast
      then have "obj' = o2\<lparr>sh_sgt := Some sgt\<rparr>" "s' = s2" using sg1 none g OK
        by (auto simp: drm_gem_shmem_get_pages_sgt_locked_def)
      then show ?thesis using f(1,2) o2 inv none by (simp add: users_def)
    next
      case False
      then show ?thesis using fail sg1 none g OK
        by (auto simp: drm_gem_shmem_get_pages_sgt_locked_def bind_eq_Some_conv
            split: rc.splits sum.splits)
    qed
  qed
qed

lemma inv_madvise:
  assumes "shm_inv w0 (obj, s, p, m)" "drm_gem_shmem_madvise obj a = (u, obj')"
  shows "shm_inv w0 (obj', s, p, m)"
  using assms by (auto simp: drm_gem_shmem_madvise_def users_def split: prod.splits)

lemma wire_zap: "wire (fold zap_one ps s) = wire s"
proof (induction ps arbitrary: s)
  case (Cons x ps)
  then show ?case by (cases x) simp_all
qed simp

lemma inv_purge:
  assumes inv: "shm_inv w0 (obj, s, p, m)" and pu: "drm_gem_shmem_purge obj s = Some (obj', s')"
  shows "shm_inv w0 (obj', s', p, m)"
proof -
  from pu obtain s1 g o2 where z: "drm_gem_shmem_zap_ptes obj s = Some s1" and g: "sh_sgt obj = Some g"
    and put: "drm_gem_shmem_put_pages (obj\<lparr>sh_sgt := None\<rparr>) s1 = Some (o2, s')"
    and eq: "obj' = o2\<lparr>sh_madv := -1, gem_mmap_offset := False\<rparr>"
    by (auto simp: drm_gem_shmem_purge_def bind_eq_Some_conv split: option.splits if_splits)
  let ?o = "obj\<lparr>sh_sgt := None\<rparr>"
  have w: "wire s1 = wire s" using z
    by (auto simp: drm_gem_shmem_zap_ptes_def Let_def wire_zap split: option.splits if_splits)
  have core: "shmem_core w0 ?o s1"
    using inv shmem_core_wire_cong [OF w, of w0 obj] by simp
  have pos: "0 < unat (sh_pages_use_count ?o)" using inv g by (simp add: users_def)
  note h = inv_put_pages [OF core pos put]
  from h(3) obtain ps c where "o2 = ?o\<lparr>sh_pages := ps, sh_pages_use_count := c\<rparr>" by blast
  then show ?thesis using h(1,2) eq inv g by (simp add: users_def shmem_core_def)
qed

lemma shm_step_inv:
  assumes "shm_step x y" "shm_inv w0 x"
  shows "shm_inv w0 y"
  using assms
proof (induction rule: shm_step.induct)
  case pin
  then show ?case
    by (auto simp del: shm_inv.simps simp: drm_gem_shmem_pin_def split: rc.splits intro: inv_pin)
next
  case (pin_fail env obj s e obj' s' p m)
  then show ?case
    by (cases "e_lock env") (auto simp del: shm_inv.simps simp: drm_gem_shmem_pin_def intro: inv_get_fail)
next
  case unpin
  then show ?case by (metis drm_gem_shmem_unpin_def inv_unpin)
next
  case (mmap obj env s wc obj' s' p m)
  then have "drm_gem_shmem_get_pages env obj s = (OK, obj', s')"
    by (auto simp: drm_gem_shmem_mmap_def split: rc.splits prod.splits)
  then show ?case using mmap inv_pin(2) by blast
next
  case (mmap_fail env obj s e wc obj' s' p m)
  then have "drm_gem_shmem_get_pages env obj s = (E e, obj', s')"
    by (auto simp: drm_gem_shmem_mmap_def split: rc.splits prod.splits)
  then show ?case using mmap_fail inv_get_fail by blast
next
  case vm_open
  then show ?case using inv_vm_open by blast
next
  case vm_close
  then show ?case using inv_vm_close by blast
next
  case fault
  then show ?case using inv_fault by blast
next
  case vmap
  then show ?case using inv_vmap by blast
next
  case vunmap
  then show ?case using inv_vunmap by blast
next
  case get_sgt
  then show ?case using inv_get_sgt by blast
next
  case madvise
  then show ?case using inv_madvise by blast
next
  case purge
  then show ?case using inv_purge by blast
qed

section \<open>Reachable objects\<close>

inductive shm_reachable :: "u64 \<Rightarrow> bool \<Rightarrow> (nat \<Rightarrow> nat) \<Rightarrow> shm_state \<Rightarrow> bool"
  for sz wc w0 where
  created: "wire s = w0 \<Longrightarrow> shm_reachable sz wc w0 (shmem_new sz wc, s, 0, 0)"
| step: "shm_reachable sz wc w0 x \<Longrightarrow> shm_step x y \<Longrightarrow> shm_reachable sz wc w0 y"

lemma reachable_inv: "shm_reachable sz wc w0 x \<Longrightarrow> shm_inv w0 x"
proof (induction rule: shm_reachable.induct)
  case created
  then show ?case by (simp add: shmem_new_def shmem_core_def users_def)
next
  case step
  then show ?case using shm_step_inv by blast
qed

lemma reachable_steps:
  assumes "shm_step\<^sup>*\<^sup>* x y" "shm_reachable sz wc w0 x"
  shows "shm_reachable sz wc w0 y"
  using assms by (induction rule: rtranclp_induct) (auto intro: shm_reachable.step)

lemmas shm_fields = shmem_core_def users_def room_def held_def

text \<open>Dropping the reference of a user never dereferences a null array.\<close>

lemma inv_put_ok:
  assumes "shmem_core w0 obj s" "sh_pages_use_count obj \<noteq> 0"
  shows "drm_gem_shmem_put_pages obj s \<noteq> None"
  using put_pages_Some [OF assms(1)] assms(2) by (metis option.distinct(1) unat_gt_0)

lemma inv_vunmap_ok:
  assumes "shm_inv w0 (obj, s, p, m)"
  shows "drm_gem_shmem_vunmap obj s \<noteq> None"
proof (cases "sh_vmap_use_count obj = 1")
  case True
  let ?o = "obj\<lparr>sh_vmap_use_count := 0\<rparr>"
  have "shmem_core w0 ?o s" "sh_pages_use_count ?o \<noteq> 0"
    using assms True by (auto simp: users_def)
  from inv_put_ok [OF this] show ?thesis using True assms
    by (auto simp: drm_gem_shmem_vunmap_def unref_cases bind_eq_None_conv)
next
  case False
  then show ?thesis using assms by (auto simp: drm_gem_shmem_vunmap_def unref_cases)
qed

lemma inv_vmap_ok:
  assumes inv: "shm_inv w0 (obj, s, p, m)" and room: "room obj"
  shows "drm_gem_shmem_vmap env obj s \<noteq> None"
proof (cases "sh_vmap_use_count obj = 0")
  case False
  then show ?thesis using inv by (auto simp: drm_gem_shmem_vmap_def drm_gem_shmem_ref_first_def)
next
  case True
  let ?o1 = "obj\<lparr>sh_vmap_use_count := 1\<rparr>"
  have core1: "shmem_core w0 ?o1 s" and r1: "unat (sh_pages_use_count ?o1) < 4294967295"
    using inv room by (auto simp: room_def)
  obtain r o2 s2 where g: "drm_gem_shmem_get_pages env ?o1 s = (r, o2, s2)" by (metis prod_cases3)
  show ?thesis
  proof (cases r)
    case E
    then show ?thesis using True inv g by (auto simp: drm_gem_shmem_vmap_def drm_gem_shmem_ref_first_def)
  next
    case OK
    note f = get_pages_OK [OF g [unfolded OK] core1 r1]
    have "shmem_core w0 (o2\<lparr>sh_vaddr := None\<rparr>) s2" "sh_pages_use_count (o2\<lparr>sh_vaddr := None\<rparr>) \<noteq> 0"
      using f(1,2) by auto
    from inv_put_ok [OF this] show ?thesis using True inv g OK
      by (auto simp: drm_gem_shmem_vmap_def drm_gem_shmem_ref_first_def Let_def bind_eq_None_conv
          split: option.splits)
  qed
qed

lemma inv_get_sgt_ok:
  assumes inv: "shm_inv w0 (obj, s, p, m)" and room: "room obj"
  shows "drm_gem_shmem_get_pages_sgt env obj s \<noteq> None"
proof -
  obtain r o2 s2 where g: "drm_gem_shmem_get_pages env obj s = (r, o2, s2)" by (metis prod_cases3)
  have "drm_gem_shmem_put_pages o2 s2 \<noteq> None" if "r = OK"
  proof -
    note f = inv_get_pages [OF inv room g [unfolded that]]
    have "sh_pages_use_count o2 \<noteq> 0" using f(2) by auto
    then show ?thesis using inv_put_ok [OF f(1)] by blast
  qed
  then show ?thesis using g
    by (auto simp: drm_gem_shmem_get_pages_sgt_def drm_gem_shmem_get_pages_sgt_locked_def
        bind_eq_None_conv split: rc.splits option.splits sum.splits)
qed

lemma inv_purge_ok:
  assumes inv: "shm_inv w0 (obj, s, p, m)" and "drm_gem_shmem_is_purgeable obj" "gem_filp obj"
  shows "drm_gem_shmem_purge obj s \<noteq> None"
proof -
  from assms(2) obtain g where g: "sh_sgt obj = Some g"
    by (auto simp: drm_gem_shmem_is_purgeable_def drm_gem_shmem_purgeable_def)
  let ?o = "obj\<lparr>sh_sgt := None\<rparr>"
  have cnt: "0 < unat (sh_pages_use_count obj)" using inv g by (simp add: users_def)
  then have nz: "sh_pages_use_count obj \<noteq> 0" by auto
  then obtain xs where xs: "sh_pages obj = Some xs" using inv by (auto simp: shmem_core_def)
  let ?s1 = "fold zap_one (take (unat (drm_gem_shmem_npages (gem_size obj))) xs) s"
  have z: "drm_gem_shmem_zap_ptes obj s = Some ?s1" using xs by (simp add: drm_gem_shmem_zap_ptes_def)
  have "shmem_core w0 ?o ?s1"
    using inv shmem_core_wire_cong [OF wire_zap, of w0 obj] by simp
  moreover have "0 < unat (sh_pages_use_count ?o)" using cnt by simp
  ultimately obtain o2 s2 where put: "drm_gem_shmem_put_pages ?o ?s1 = Some (o2, s2)"
    and fr: "\<exists>ps c. o2 = ?o\<lparr>sh_pages := ps, sh_pages_use_count := c\<rparr>"
    by (rule put_pages_Some)
  from fr assms(3) have "gem_filp o2" by auto
  then show ?thesis using z g put by (simp add: drm_gem_shmem_purge_def)
qed

lemma fault_index_bound:
  "drm_gem_shmem_fault_index a v n = Some i \<Longrightarrow> unat i < unat n"
  by (auto simp: drm_gem_shmem_fault_index_def Let_def word_less_nat_alt word_le_nat_alt
      split: if_splits)

lemma inv_fault_ok:
  assumes "shm_inv w0 (obj, s, p, m)"
  shows "drm_gem_shmem_fault obj a v s \<noteq> None"
proof -
  have nn: "pages ! unat i \<noteq> None"
    if "sh_pages obj = Some pages"
      "drm_gem_shmem_fault_index a v (drm_gem_shmem_npages (gem_size obj)) = Some i" for pages i
  proof -
    have "unat i < List.length pages" "None \<notin> set pages"
      using assms that fault_index_bound [OF that(2)] by (auto simp: shmem_core_def)
    then show ?thesis by (metis nth_mem)
  qed
  show ?thesis
    using nn by (simp add: drm_gem_shmem_fault_def del: not_None_eq split: option.split) blast
qed

section \<open>Properties\<close>

text \<open>
  C1: whatever sequence of operations a native object has been through, its page array exists exactly
  while somebody uses it, \<open>pages_use_count\<close> is the number of users (pins, mappings, the kernel
  mapping, the DMA table), and every physical page carries exactly the wirings it had before plus
  one for each place it has in the array: nothing leaks and nothing is unwired twice.
\<close>

theorem shmem_reachable_accounting:
  assumes "shm_reachable sz wc w0 (obj, s, p, m)"
  shows "(sh_pages obj = None \<longleftrightarrow> sh_pages_use_count obj = 0) \<and>
    unat (sh_pages_use_count obj) =
      p + m + (if sh_vmap_use_count obj \<noteq> 0 then 1 else 0) + (if sh_sgt obj \<noteq> None then 1 else 0) \<and>
    (\<forall>q. wire s q = w0 q + (case sh_pages obj of None \<Rightarrow> 0 | Some xs \<Rightarrow> count_list xs (Some q)))"
  using reachable_inv [OF assms] by (simp add: shm_fields)

text \<open>
  C2: in every reachable state the operations a caller may issue run to their end: dropping a pin or a
  mapping, mapping into the kernel and out of it, building the scatter table, a user fault and a
  purge of a purgeable object never follow a null pointer.
\<close>

theorem shmem_reachable_no_null_deref:
  assumes "shm_reachable sz wc w0 (obj, s, p, m)" and "room obj"
  shows "(p + m \<noteq> 0 \<longrightarrow> drm_gem_shmem_unpin obj s \<noteq> None \<and> drm_gem_shmem_vm_close obj s \<noteq> None) \<and>
    drm_gem_shmem_vmap env obj s \<noteq> None \<and> drm_gem_shmem_vunmap obj s \<noteq> None \<and>
    drm_gem_shmem_get_pages_sgt env obj s \<noteq> None \<and> drm_gem_shmem_fault obj a v s \<noteq> None \<and>
    (drm_gem_shmem_is_purgeable obj \<and> gem_filp obj \<longrightarrow> drm_gem_shmem_purge obj s \<noteq> None)"
proof -
  note inv = reachable_inv [OF assms(1)]
  have "drm_gem_shmem_put_pages obj s \<noteq> None" if "p + m \<noteq> 0"
    by (rule inv_put_ok [of w0]) (use inv that in \<open>auto simp: users_def\<close>)
  then have "p + m \<noteq> 0 \<longrightarrow> drm_gem_shmem_unpin obj s \<noteq> None \<and> drm_gem_shmem_vm_close obj s \<noteq> None"
    by (auto simp: drm_gem_shmem_unpin_def drm_gem_shmem_vm_close_def)
  then show ?thesis
    using inv_vmap_ok [OF inv assms(2)] inv_vunmap_ok [OF inv] inv_get_sgt_ok [OF inv assms(2)]
      inv_fault_ok [OF inv] inv_purge_ok [OF inv] by blast
qed

lemma free_all_pages:
  assumes inv: "shm_inv w0 (obj, s, 0, 0)" and v: "sh_vmap_use_count obj = 0"
  shows "\<exists>obj' s'. drm_gem_shmem_free obj s = Some (obj', s') \<and> sh_pages obj' = None \<and>
    sh_pages_use_count obj' = 0 \<and> sh_sgt obj' = None \<and> wire s' = w0"
proof (cases "sh_pages obj")
  case None
  then show ?thesis using inv v by (auto simp: drm_gem_shmem_free_def shm_fields)
next
  case (Some xs)
  let ?o = "obj\<lparr>sh_sgt := None\<rparr>"
  have core: "shmem_core w0 ?o s" using inv by simp
  have one: "unat (sh_pages_use_count ?o) = 1"
    using inv Some v by (auto simp: shm_fields unat_eq_0 split: if_splits)
  then have pos: "0 < unat (sh_pages_use_count ?o)" by simp
  obtain o2 s2 where put: "drm_gem_shmem_put_pages ?o s = Some (o2, s2)"
    and c2: "shmem_core w0 o2 s2" "unat (sh_pages_use_count o2) = unat (sh_pages_use_count ?o) - 1"
    and fr: "\<exists>ps c. o2 = ?o\<lparr>sh_pages := ps, sh_pages_use_count := c\<rparr>"
    by (rule put_pages_Some [OF core pos])
  have z: "sh_pages_use_count o2 = 0" using c2(2) one by (simp add: unat_eq_0)
  then have "sh_pages o2 = None" "wire s2 = w0" using c2(1) by (auto simp: shmem_core_def)
  moreover have "sh_sgt o2 = None" using fr by auto
  ultimately show ?thesis using put z Some inv by (simp add: drm_gem_shmem_free_def)
qed

text \<open>
  Releasing an object nobody pins or maps any more gives back every page: the use count is then
  zero, so the warnings of \<open>drm_gem_shmem_free\<close> do not fire, and every physical page has the
  wirings it had before the object existed.
\<close>

theorem shmem_free_returns_all_pages:
  assumes "shm_reachable sz wc w0 (obj, s, 0, 0)" and "sh_vmap_use_count obj = 0"
  shows "\<exists>obj' s'. drm_gem_shmem_free obj s = Some (obj', s') \<and> sh_pages obj' = None \<and>
    sh_pages_use_count obj' = 0 \<and> sh_sgt obj' = None \<and> wire s' = w0"
  by (rule free_all_pages [OF reachable_inv [OF assms(1)] assms(2)])

section \<open>A concrete object\<close>

text \<open>A one-page object pinned once; the page it gets is number 7.\<close>

definition demo_env :: shmem_env where
  "demo_env = \<lparr>e_contig = True, e_resident = 0, e_contig_run = None, e_read_page = (\<lambda>_. Inr 7),
     e_kvmalloc = True, e_pages_to_sg = OK, e_dma_map = Inr [28672], e_vmap = Some 0, e_lock = OK,
     e_dmabuf_vmap = Inl EINVAL, e_dmabuf_mmap = OK, e_create_object = Inr False,
     e_object_init = OK, e_mmap_offset = OK, e_handle_create = Inr 1\<rparr>"

definition demo_vmsys :: vmsys where
  "demo_vmsys = \<lparr>wire = (\<lambda>_. 0), attr = (\<lambda>_. VM_MEMATTR_DEFAULT), user_mapped = (\<lambda>_. False),
     dirty_pages = {}, accessed_pages = {}, contig_alloc_pages = 0, teardown_pages = 0,
     teardown_objects = 0\<rparr>"

definition demo_pinned :: "shmem \<times> vmsys" where
  "demo_pinned = snd (drm_gem_shmem_pin demo_env (shmem_new 4096 False) demo_vmsys)"

lemma demo_pin:
  "drm_gem_shmem_pin demo_env (shmem_new 4096 False) demo_vmsys =
    (OK, (shmem_new 4096 False)\<lparr>sh_pages := Some [Some 7], sh_pages_use_count := 1\<rparr>,
     demo_vmsys\<lparr>wire := (\<lambda>_. 0)(7 := 1)\<rparr>)"
  by (simp add: drm_gem_shmem_pin_def drm_gem_shmem_get_pages_def demo_env_def
      drm_gem_shmem_ref_first_def shmem_new_def drm_gem_shmem_freebsd_get_pages_def
      drm_gem_shmem_npages_def PAGE_SHIFT_def drm_gem_shmem_freebsd_try_contig_def wire_page_def
      demo_vmsys_def)

lemma demo_pinned_eq:
  "demo_pinned =
    ((shmem_new 4096 False)\<lparr>sh_pages := Some [Some 7], sh_pages_use_count := 1\<rparr>,
     demo_vmsys\<lparr>wire := (\<lambda>_. 0)(7 := 1)\<rparr>)"
  "drm_gem_shmem_pin demo_env (shmem_new 4096 False) demo_vmsys = (OK, demo_pinned)"
  by (simp_all add: demo_pinned_def demo_pin)

lemma demo_reachable: "shm_reachable 4096 False (\<lambda>_. 0) (fst demo_pinned, snd demo_pinned, 1, 0)"
proof -
  have "shm_reachable 4096 False (\<lambda>_. 0) (shmem_new 4096 False, demo_vmsys, 0, 0)"
    by (rule shm_reachable.created) (simp add: demo_vmsys_def)
  moreover have "shm_step (shmem_new 4096 False, demo_vmsys, 0, 0)
      (fst demo_pinned, snd demo_pinned, Suc 0, 0)"
    by (rule shm_step.pin [where env = demo_env])
      (simp add: room_def shmem_new_def, simp add: demo_pinned_eq(2))
  ultimately show ?thesis by (simp add: shm_reachable.step)
qed

theorem shmem_reachable_accounting_witness:
  "unat (sh_pages_use_count (fst demo_pinned)) = 1 \<and> wire (snd demo_pinned) 7 = 1"
  using shmem_reachable_accounting [OF demo_reachable]
  by (simp add: demo_pinned_eq(1) shmem_new_def)

theorem shmem_reachable_no_null_deref_witness:
  "drm_gem_shmem_unpin (fst demo_pinned) (snd demo_pinned) \<noteq> None \<and>
   drm_gem_shmem_fault (fst demo_pinned) 0 0 (snd demo_pinned) \<noteq> None"
proof -
  have "room (fst demo_pinned)" by (simp add: room_def demo_pinned_eq(1) shmem_new_def)
  from shmem_reachable_no_null_deref [OF demo_reachable this, of demo_env 0 0] show ?thesis by simp
qed

lemma demo_reachable_unpinned:
  "shm_reachable 4096 False (\<lambda>_. 0)
     ((shmem_new 4096 False)\<lparr>sh_sgt := Some [28672], sh_pages := Some [Some 7], sh_pages_use_count := 1\<rparr>,
      demo_vmsys\<lparr>wire := (\<lambda>_. 0)(7 := 1)\<rparr>, 0, 0)"
proof -
  have "shm_reachable 4096 False (\<lambda>_. 0) (shmem_new 4096 False, demo_vmsys, 0, 0)"
    by (rule shm_reachable.created) (simp add: demo_vmsys_def)
  moreover have "drm_gem_shmem_get_pages_sgt demo_env (shmem_new 4096 False) demo_vmsys =
      Some (Inr [28672], (fst demo_pinned)\<lparr>sh_sgt := Some [28672]\<rparr>, snd demo_pinned)"
    using demo_pinned_eq(2)
    by (simp add: drm_gem_shmem_get_pages_sgt_def drm_gem_shmem_get_pages_sgt_locked_def
        drm_gem_shmem_pin_def demo_env_def shmem_new_def case_prod_beta)
  then have "shm_step (shmem_new 4096 False, demo_vmsys, 0, 0)
      ((fst demo_pinned)\<lparr>sh_sgt := Some [28672]\<rparr>, snd demo_pinned, 0, 0)"
    by (rule shm_step.get_sgt [rotated]) (simp add: room_def shmem_new_def)
  ultimately show ?thesis by (auto simp: demo_pinned_eq(1) shmem_new_def intro: shm_reachable.step)
qed

theorem shmem_free_returns_all_pages_witness:
  "\<exists>obj' s'. drm_gem_shmem_free ((shmem_new 4096 False)\<lparr>sh_sgt := Some [28672],
      sh_pages := Some [Some 7], sh_pages_use_count := 1\<rparr>)
      (demo_vmsys\<lparr>wire := (\<lambda>_. 0)(7 := 1)\<rparr>) = Some (obj', s') \<and> wire s' = (\<lambda>_. 0)"
proof -
  have "sh_vmap_use_count ((shmem_new 4096 False)\<lparr>sh_sgt := Some [28672],
      sh_pages := Some [Some 7], sh_pages_use_count := 1\<rparr>) = 0" by (simp add: shmem_new_def)
  from shmem_free_returns_all_pages [OF demo_reachable_unpinned this] show ?thesis by blast
qed

end
