(* ===== verification/Lima_Gem.thy ===== *)
theory Lima_Gem
  imports Lima_VM_Spec Shmem_Lifecycle
begin

text \<open>
  Buffer objects (\<open>lima_gem.c\<close>): the growable heap object, creation, the hooks of the GEM core
  and the small ioctl bodies. Job submission is in \<open>Lima_Submit\<close>.
\<close>

definition LIMA_BO_FLAG_HEAP :: u32 where "LIMA_BO_FLAG_HEAP = 1"
definition LIMA_GEM_WAIT_READ :: u32 where "LIMA_GEM_WAIT_READ = 0x01"
definition LIMA_GEM_WAIT_WRITE :: u32 where "LIMA_GEM_WAIT_WRITE = 0x02"

section \<open>The heap object\<close>

record heap_env =
  he_init_nr_pages :: u32                \<comment> \<open>module parameter \<open>lima_heap_init_nr_pages\<close>\<close>
  he_kvmalloc :: bool
  he_read_page :: "nat \<Rightarrow> errno + nat"  \<comment> \<open>\<open>shmem_read_mapping_page\<close>: a wired page\<close>
  he_sg_alloc :: rc                      \<comment> \<open>\<open>sg_alloc_table_from_pages\<close>\<close>
  he_kmalloc :: bool
  he_dma_map :: "errno + u64 list"       \<comment> \<open>\<open>dma_map_sgtable\<close>: the bus address of each page\<close>
  he_alloc :: "nat \<Rightarrow> u64 option"      \<comment> \<open>tables of the address space\<close>

text \<open>The loop over the pages to add: a failure keeps the pages got so far in the array.\<close>

fun heap_read_pages ::
  "(nat \<Rightarrow> errno + nat) \<Rightarrow> nat list \<Rightarrow> nat option list \<Rightarrow> vmsys \<Rightarrow> rc \<times> nat option list \<times> vmsys" where
  "heap_read_pages rd [] pages s = (OK, pages, s)"
| "heap_read_pages rd (i # is) pages s =
     (case rd i of
        Inl e \<Rightarrow> (E e, pages, s)
      | Inr p \<Rightarrow> heap_read_pages rd is (pages[i := Some p]) (wire_page p s))"

definition heap_new_size :: "u32 \<Rightarrow> lima_bo \<Rightarrow> u64" where
  "heap_new_size nr bo =
     min (if bo_heap_size bo \<noteq> 0 then bo_heap_size bo * 2 else ucast (push_bit PAGE_SHIFT nr))
       (gem_size (bo_base bo))"

definition set_shmem :: "(shmem \<Rightarrow> shmem) \<Rightarrow> lima_bo \<Rightarrow> lima_bo" where
  "set_shmem f bo = bo\<lparr>bo_base := f (bo_base bo)\<rparr>"

text \<open>
  \<open>vmo\<close> is the address space to map into, with its number, or none. The result is the code, the
  object, the address space and the VM system.
\<close>

definition lima_heap_alloc ::
  "heap_env \<Rightarrow> lima_bo \<Rightarrow> (nat \<times> lima_vm) option \<Rightarrow> vmsys \<Rightarrow>
   (rc \<times> lima_bo \<times> lima_vm option \<times> vmsys) option" where
  "lima_heap_alloc env bo vmo s =
     (let old_size = bo_heap_size bo; new_size = heap_new_size (he_init_nr_pages env) bo;
          base = bo_base bo; vm0 = map_option snd vmo in
      if bo_heap_size bo \<ge> gem_size base then Some (E ENOSPC, bo, vm0, s)
      else if \<not> gem_filp base then Some (E EINVAL, bo, vm0, s)
      else if sh_pages base = None \<and> \<not> he_kvmalloc env then Some (E ENOMEM, bo, vm0, s)
      else
        let (pages0, bo0) =
              (case sh_pages base of
                 Some ps \<Rightarrow> (ps, bo)
               | None \<Rightarrow>
                   let ps = replicate (unat (drop_bit PAGE_SHIFT (gem_size base))) None in
                   (ps, set_shmem (\<lambda>b. b\<lparr>sh_pages_use_count := 1\<rparr>) bo));
            (r, pages, s1) = heap_read_pages (he_read_page env)
              [unat (drop_bit PAGE_SHIFT old_size) ..< unat (drop_bit PAGE_SHIFT new_size)] pages0 s;
            bo1 = set_shmem (\<lambda>b. b\<lparr>sh_pages := Some pages\<rparr>) bo0
        in
        case r of
          E e \<Rightarrow> Some (E e, bo1, vm0, s1)
        | OK \<Rightarrow>
          (case he_sg_alloc env of
             E e \<Rightarrow> Some (E e, bo1, vm0, s1)
           | OK \<Rightarrow>
             if sh_sgt base = None \<and> \<not> he_kmalloc env then Some (E ENOMEM, bo1, vm0, s1)
             else case he_dma_map env of
               Inl e \<Rightarrow> Some (E e, set_shmem (\<lambda>b. b\<lparr>sh_sgt := None\<rparr>) bo1, vm0, s1)
             | Inr sgt \<Rightarrow>
                 let bo2 = set_shmem (\<lambda>b. b\<lparr>sh_sgt := Some sgt\<rparr>) bo1 in
                 (case vmo of
                    None \<Rightarrow> Some (OK, bo2\<lparr>bo_heap_size := new_size\<rparr>, None, s1)
                  | Some (i, vm) \<Rightarrow> do {
                      (r2, vm2) \<leftarrow> lima_vm_map_bo (he_alloc env) i
                                     (unat (drop_bit PAGE_SHIFT old_size)) vm bo2;
                      (case r2 of
                         E e \<Rightarrow> Some (E e, set_shmem (\<lambda>b. b\<lparr>sh_sgt := None\<rparr>) bo2, Some vm2, s1)
                       | OK \<Rightarrow> Some (OK, bo2\<lparr>bo_heap_size := new_size\<rparr>, Some vm2, s1))
                    })))"

section \<open>Creation and the hooks of the GEM core\<close>

text \<open>\<open>kzalloc\<close> answers; the result is the hook \<open>gem_create_object\<close>'s \<open>map_wc\<close>.\<close>

definition lima_gem_create_object :: "bool \<Rightarrow> errno + bool" where
  "lima_gem_create_object kzalloc = (if \<not> kzalloc then Inl ENOMEM else Inr True)"

definition lima_gem_free_object :: "lima_bo \<Rightarrow> vmsys \<Rightarrow> (shmem \<times> vmsys) option" where
  "lima_gem_free_object bo s = drm_gem_shmem_free (bo_base bo) s"

definition drm_gem_object_get :: "lima_bo \<Rightarrow> lima_bo" where
  "drm_gem_object_get bo = set_shmem (\<lambda>b. b\<lparr>gem_refs := gem_refs b + 1\<rparr>) bo"

text \<open>The last reference runs the \<open>free\<close> hook: the object is then \<open>None\<close>.\<close>

definition drm_gem_object_put :: "lima_bo \<Rightarrow> vmsys \<Rightarrow> (lima_bo option \<times> vmsys) option" where
  "drm_gem_object_put bo s =
     (if gem_refs (bo_base bo) - 1 = 0
      then do { (_, s1) \<leftarrow> lima_gem_free_object bo s; Some (None, s1) }
      else Some (Some (set_shmem (\<lambda>b. b\<lparr>gem_refs := gem_refs b - 1\<rparr>) bo), s))"

text \<open>
  \<open>drm_gem_handle_create\<close> gives a handle that holds a reference of its own, or fails without
  one; its answer is \<open>e_handle_create\<close>.
\<close>

definition lima_gem_create_handle ::
  "shmem_env \<Rightarrow> heap_env \<Rightarrow> u32 \<Rightarrow> u32 \<Rightarrow> vmsys \<Rightarrow>
   ((errno + u32) \<times> lima_bo option \<times> vmsys) option" where
  "lima_gem_create_handle env henv sz flags s =
     (case drm_gem_shmem_create env (ucast sz) of
        Inl e \<Rightarrow> Some (Inl e, None, s)
      | Inr sh \<Rightarrow>
          let bo = \<lparr>bo_base = sh, bo_va = [], bo_heap_size = 0\<rparr> in do {
            (err, bo1, s1) \<leftarrow>
              (if flags AND LIMA_BO_FLAG_HEAP \<noteq> 0 then do {
                 (r, bo1, _, s1) \<leftarrow> lima_heap_alloc henv bo None s;
                 Some (r, bo1, s1) }
               else do {
                 (g, sh1, s1) \<leftarrow> drm_gem_shmem_get_pages_sgt env sh s;
                 Some (rc_of_sum g, bo\<lparr>bo_base := sh1\<rparr>, s1) });
            let (res, bo2) = (case err of
               E e \<Rightarrow> (Inl e, bo1)
             | OK \<Rightarrow> (case e_handle_create env of
                 Inl e \<Rightarrow> (Inl e, bo1)
               | Inr h \<Rightarrow> (Inr h, drm_gem_object_get bo1)));
            (bo3, s2) \<leftarrow> drm_gem_object_put bo2 s1;
            Some (res, bo3, s2)
          })"

definition lima_gem_object_open ::
  "vm_env \<Rightarrow> nat \<Rightarrow> lima_vm \<Rightarrow> lima_bo \<Rightarrow> (rc \<times> lima_vm \<times> lima_bo) option" where
  "lima_gem_object_open env i vm bo = lima_vm_bo_add env i True vm bo"

definition lima_gem_object_close :: "nat \<Rightarrow> lima_vm \<Rightarrow> lima_bo \<Rightarrow> (lima_vm \<times> lima_bo) option" where
  "lima_gem_object_close i vm bo = lima_vm_bo_del i vm bo"

definition lima_gem_pin :: "shmem_env \<Rightarrow> lima_bo \<Rightarrow> vmsys \<Rightarrow> rc \<times> lima_bo \<times> vmsys" where
  "lima_gem_pin env bo s =
     (if bo_heap_size bo \<noteq> 0 then (E EINVAL, bo, s)
      else let (r, sh, s1) = drm_gem_shmem_pin env (bo_base bo) s in (r, bo\<lparr>bo_base := sh\<rparr>, s1))"

definition lima_gem_vmap ::
  "shmem_env \<Rightarrow> lima_bo \<Rightarrow> vmsys \<Rightarrow> (rc \<times> nat option \<times> lima_bo \<times> vmsys) option" where
  "lima_gem_vmap env bo s =
     (if bo_heap_size bo \<noteq> 0 then Some (E EINVAL, None, bo, s)
      else do {
        (r, a, sh, s1) \<leftarrow> drm_gem_shmem_vmap env (bo_base bo) s;
        Some (r, a, bo\<lparr>bo_base := sh\<rparr>, s1) })"

definition lima_gem_mmap :: "shmem_env \<Rightarrow> lima_bo \<Rightarrow> vmsys \<Rightarrow> rc \<times> bool \<times> lima_bo \<times> vmsys" where
  "lima_gem_mmap env bo s =
     (if bo_heap_size bo \<noteq> 0 then (E EINVAL, False, bo, s)
      else let (r, wc, sh, s1) = drm_gem_shmem_mmap env (bo_base bo) s
        in (r, wc, bo\<lparr>bo_base := sh\<rparr>, s1))"

text \<open>
  The object a handle names is a parameter; the result carries the GPU address and, as the offset of
  the mapping, the object's number.
\<close>

definition lima_gem_get_info :: "nat \<Rightarrow> lima_bo option \<Rightarrow> u64 \<Rightarrow> (errno + (u32 \<times> u64)) option" where
  "lima_gem_get_info i obj offset =
     (case obj of
        None \<Rightarrow> Some (Inl ENOENT)
      | Some bo \<Rightarrow> do { va \<leftarrow> lima_vm_get_va i bo; Some (Inr (va, offset)) })"

text \<open>
  \<open>resv_wait\<close> is the kernel's answer, in its own codes; \<open>timeout\<close> is in jiffies.
\<close>

definition lima_gem_wait :: "(bool \<Rightarrow> int \<Rightarrow> rc) \<Rightarrow> u32 \<Rightarrow> int \<Rightarrow> rc" where
  "lima_gem_wait resv_wait opc timeout =
     (let write = (opc AND LIMA_GEM_WAIT_WRITE \<noteq> 0) in
      if opc = 0 then OK
      else let ret = resv_wait write timeout in
        if ret = E ETIME then E (if timeout \<noteq> 0 then ETIMEDOUT else EBUSY) else ret)"

end
