(* ===== verification/Lima_Gem_Spec.thy ===== *)
theory Lima_Gem_Spec
  imports Lima_Gem
begin

text \<open>
  Properties of buffer objects: how a heap object grows and what its failures leave behind, and that
  creating an object for user space either hands over one reference or gives everything back.
\<close>

section \<open>The page loop of the heap\<close>

lemma count_list_update:
  "i < List.length xs \<Longrightarrow>
   count_list (xs[i := y]) x + (if xs ! i = x then 1 else 0) = count_list xs x + (if y = x then 1 else 0)"
proof (induction xs arbitrary: i)
  case (Cons z xs)
  show ?case
  proof (cases i)
    case (Suc k)
    then show ?thesis using Cons.IH [of k] Cons.prems
      by (cases "y = x"; cases "xs ! k = x") simp_all
  qed (use Cons in auto)
qed simp

lemma heap_read_length:
  "heap_read_pages rd is pages s = (r, pages', s') \<Longrightarrow> List.length pages' = List.length pages"
  by (induction "is" arbitrary: pages s) (auto split: sum.splits)

lemma heap_read_other:
  "heap_read_pages rd is pages s = (r, pages', s') \<Longrightarrow> k \<notin> set is \<Longrightarrow> pages' ! k = pages ! k"
  by (induction "is" arbitrary: pages s) (auto split: sum.splits)

lemma heap_read_OK:
  "heap_read_pages rd is pages s = (OK, pages', s') \<Longrightarrow> distinct is \<Longrightarrow>
   (\<And>i. i \<in> set is \<Longrightarrow> i < List.length pages) \<Longrightarrow> k \<in> set is \<Longrightarrow> \<exists>p. rd k = Inr p \<and> pages' ! k = Some p"
proof (induction "is" arbitrary: pages s)
  case (Cons i "is")
  then obtain p where p: "rd i = Inr p"
    and r: "heap_read_pages rd is (pages[i := Some p]) (wire_page p s) = (OK, pages', s')"
    by (auto split: sum.splits)
  show ?case
  proof (cases "k = i")
    case True
    then have "pages' ! k = pages[i := Some p] ! k"
      using heap_read_other [OF r] Cons.prems(2) by auto
    then show ?thesis using p True Cons.prems(3) [of i] by simp
  next
    case False
    then show ?thesis using Cons.IH [OF r] Cons.prems by auto
  qed
qed simp

text \<open>
  Into empty slots every page is entered with the one wiring it came with.
\<close>

lemma heap_read_wire:
  "heap_read_pages rd is pages s = (r, pages', s') \<Longrightarrow> distinct is \<Longrightarrow>
   (\<And>i. i \<in> set is \<Longrightarrow> i < List.length pages \<and> pages ! i = None) \<Longrightarrow>
   wire s' q + count_list pages (Some q) = wire s q + count_list pages' (Some q)"
proof (induction "is" arbitrary: pages s)
  case (Cons i "is")
  show ?case
  proof (cases "rd i")
    case (Inl e)
    then show ?thesis using Cons.prems(1) by simp
  next
    case (Inr p)
    then have r: "heap_read_pages rd is (pages[i := Some p]) (wire_page p s) = (r, pages', s')"
      using Cons.prems(1) by simp
    have i: "i < List.length pages" "pages ! i = None" using Cons.prems(3) by auto
    have "wire s' q + count_list (pages[i := Some p]) (Some q) =
        wire (wire_page p s) q + count_list pages' (Some q)"
    proof (rule Cons.IH [OF r])
      show "j < List.length (pages[i := Some p]) \<and> pages[i := Some p] ! j = None" if "j \<in> set is" for j
        using that Cons.prems(2,3) by (auto simp: nth_list_update)
    qed (use Cons.prems(2) in simp)
    moreover have "count_list (pages[i := Some p]) (Some q) = count_list pages (Some q) + (if p = q then 1 else 0)"
      using count_list_update [OF i(1), of "Some p" "Some q"] i(2) by simp
    moreover have "wire (wire_page p s) q = wire s q + (if p = q then 1 else 0)" by (simp add: wire_page_def)
    ultimately show ?thesis by simp
  qed
qed simp

text \<open>
  Reading pages that are in the array already wires each of them once more and changes nothing else.
\<close>

lemma heap_read_again:
  assumes "inj f" "distinct is" "\<And>i. i \<in> set is \<Longrightarrow> i < List.length pages \<and> pages ! i = Some (f i)"
  shows "\<exists>s'. heap_read_pages (\<lambda>i. Inr (f i)) is pages s = (OK, pages, s') \<and>
    (\<forall>i. wire s' (f i) = wire s (f i) + (if i \<in> set is then 1 else 0))"
  using assms(2,3)
proof (induction "is" arbitrary: s)
  case (Cons i "is")
  have same: "pages[i := Some (f i)] = pages" using Cons.prems(2) [of i] by (metis list.set_intros(1) list_update_id)
  obtain s' where "heap_read_pages (\<lambda>i. Inr (f i)) is pages (wire_page (f i) s) = (OK, pages, s')"
    "\<forall>j. wire s' (f j) = wire (wire_page (f i) s) (f j) + (if j \<in> set is then 1 else 0)"
    using Cons.IH [of "wire_page (f i) s"] Cons.prems by auto
  then show ?case using same Cons.prems(1)
    by (auto simp: wire_page_def inj_eq [OF assms(1)])
qed simp

lemma heap_read_first:
  assumes "inj f" "distinct is" "\<And>i. i \<in> set is \<Longrightarrow> i < List.length pages"
  shows "\<exists>pages' s'. heap_read_pages (\<lambda>i. Inr (f i)) is pages s = (OK, pages', s') \<and>
    List.length pages' = List.length pages \<and> (\<forall>i \<in> set is. pages' ! i = Some (f i)) \<and>
    (\<forall>i. wire s' (f i) = wire s (f i) + (if i \<in> set is then 1 else 0))"
proof -
  have "\<exists>pages' s'. heap_read_pages (\<lambda>i. Inr (f i)) is pages s = (OK, pages', s') \<and>
      (\<forall>i. wire s' (f i) = wire s (f i) + (if i \<in> set is then 1 else 0))"
    using assms(2)
  proof (induction "is" arbitrary: pages s)
    case (Cons i "is")
    obtain pages' s' where "heap_read_pages (\<lambda>i. Inr (f i)) is (pages[i := Some (f i)]) (wire_page (f i) s) = (OK, pages', s')"
      "\<forall>j. wire s' (f j) = wire (wire_page (f i) s) (f j) + (if j \<in> set is then 1 else 0)"
      using Cons.IH [of "pages[i := Some (f i)]" "wire_page (f i) s"] Cons.prems by auto
    then show ?case using Cons.prems by (auto simp: wire_page_def inj_eq [OF assms(1)])
  qed simp
  then obtain pages' s' where r: "heap_read_pages (\<lambda>i. Inr (f i)) is pages s = (OK, pages', s')"
    and w: "\<And>i. wire s' (f i) = wire s (f i) + (if i \<in> set is then 1 else 0)" by blast
  show ?thesis
    using r heap_read_length [OF r] heap_read_OK [OF r assms(2,3)] w by fastforce
qed

section \<open>Growing\<close>

abbreviation old_pages :: "lima_bo \<Rightarrow> nat" where
  "old_pages bo \<equiv> unat (drop_bit PAGE_SHIFT (bo_heap_size bo))"

abbreviation new_pages :: "u32 \<Rightarrow> lima_bo \<Rightarrow> nat" where
  "new_pages nr bo \<equiv> unat (drop_bit PAGE_SHIFT (heap_new_size nr bo))"

text \<open>A heap object: its array, when there is one, has a slot for every page.\<close>

definition heap_shape :: "lima_bo \<Rightarrow> bool" where
  "heap_shape bo \<longleftrightarrow>
     (\<forall>ps. sh_pages (bo_base bo) = Some ps \<longrightarrow> List.length ps = unat (drop_bit PAGE_SHIFT (gem_size (bo_base bo))))"

definition heap_slots :: "lima_bo \<Rightarrow> nat option list" where
  "heap_slots bo = (case sh_pages (bo_base bo) of
     Some ps \<Rightarrow> ps | None \<Rightarrow> replicate (unat (drop_bit PAGE_SHIFT (gem_size (bo_base bo)))) None)"

definition heap_base0 :: "lima_bo \<Rightarrow> lima_bo" where
  "heap_base0 bo = (case sh_pages (bo_base bo) of
     Some ps \<Rightarrow> bo | None \<Rightarrow> set_shmem (\<lambda>b. b\<lparr>sh_pages_use_count := 1\<rparr>) bo)"

lemma set_shmem_simps [simp]:
  "bo_base (set_shmem f bo) = f (bo_base bo)" "bo_va (set_shmem f bo) = bo_va bo"
  "bo_heap_size (set_shmem f bo) = bo_heap_size bo"
  by (simp_all add: set_shmem_def)

lemma new_pages_bound: "new_pages nr bo \<le> unat (drop_bit PAGE_SHIFT (gem_size (bo_base bo)))"
  by (simp add: unat_drop_bit_word heap_new_size_def min_def word_le_nat_alt div_le_mono not_le)

text \<open>Without an address space: every outcome in terms of the page loop.\<close>

lemma heap_alloc_eq:
  assumes "bo_heap_size bo < gem_size (bo_base bo)" "gem_filp (bo_base bo)"
    and "sh_pages (bo_base bo) = None \<longrightarrow> he_kvmalloc env"
    and h: "heap_read_pages (he_read_page env)
      [old_pages bo ..< new_pages (he_init_nr_pages env) bo] (heap_slots bo) s = (r1, pages, s1)"
    and b1: "b1 = set_shmem (\<lambda>b. b\<lparr>sh_pages := Some pages\<rparr>) (heap_base0 bo)"
  shows "lima_heap_alloc env bo vmo s = (case r1 of
      E e \<Rightarrow> Some (E e, b1, map_option snd vmo, s1)
    | OK \<Rightarrow> (case he_sg_alloc env of
        E e \<Rightarrow> Some (E e, b1, map_option snd vmo, s1)
      | OK \<Rightarrow> if sh_sgt (bo_base bo) = None \<and> \<not> he_kmalloc env then Some (E ENOMEM, b1, map_option snd vmo, s1)
          else case he_dma_map env of
            Inl e \<Rightarrow> Some (E e, set_shmem (\<lambda>b. b\<lparr>sh_sgt := None\<rparr>) b1, map_option snd vmo, s1)
          | Inr sgt \<Rightarrow> (case vmo of
              None \<Rightarrow> Some (OK, (set_shmem (\<lambda>b. b\<lparr>sh_sgt := Some sgt\<rparr>) b1)
                \<lparr>bo_heap_size := heap_new_size (he_init_nr_pages env) bo\<rparr>, None, s1)
            | Some (i, vm) \<Rightarrow> do {
                (r2, vm2) \<leftarrow> lima_vm_map_bo (he_alloc env) i (old_pages bo) vm
                  (set_shmem (\<lambda>b. b\<lparr>sh_sgt := Some sgt\<rparr>) b1);
                (case r2 of
                   E e \<Rightarrow> Some (E e, set_shmem (\<lambda>b. b\<lparr>sh_sgt := None\<rparr>)
                     (set_shmem (\<lambda>b. b\<lparr>sh_sgt := Some sgt\<rparr>) b1), Some vm2, s1)
                 | OK \<Rightarrow> Some (OK, (set_shmem (\<lambda>b. b\<lparr>sh_sgt := Some sgt\<rparr>) b1)
                     \<lparr>bo_heap_size := heap_new_size (he_init_nr_pages env) bo\<rparr>, Some vm2, s1)) })))"
proof -
  have g: "\<not> gem_size (bo_base bo) \<le> bo_heap_size bo" using assms(1) by simp
  have k: "(sh_pages (bo_base bo) = None \<and> \<not> he_kvmalloc env) = False" using assms(3) by blast
  have pair: "(case sh_pages (bo_base bo) of
      None \<Rightarrow> (replicate (unat (drop_bit PAGE_SHIFT (gem_size (bo_base bo)))) None,
               set_shmem (\<lambda>b. b\<lparr>sh_pages_use_count := 1\<rparr>) bo)
    | Some ps \<Rightarrow> (ps, bo)) = (heap_slots bo, heap_base0 bo)"
    by (simp add: heap_slots_def heap_base0_def split: option.split)
  show ?thesis
    unfolding lima_heap_alloc_def Let_def pair prod.case h b1
    by (simp only: g assms(2) k if_False not_True_eq_False)
qed

lemma heap_alloc_cases:
  assumes "lima_heap_alloc env bo None s = Some (r, bo', v, s')"
    and "bo_heap_size bo < gem_size (bo_base bo)" "gem_filp (bo_base bo)"
    and "sh_pages (bo_base bo) = None \<longrightarrow> he_kvmalloc env"
  obtains r1 pages where "heap_read_pages (he_read_page env) [old_pages bo ..< new_pages (he_init_nr_pages env) bo]
      (heap_slots bo) s = (r1, pages, s')"
    and "v = None"
    and "r = OK \<Longrightarrow> r1 = OK \<and> (\<exists>sgt. he_dma_map env = Inr sgt \<and>
      bo' = (set_shmem (\<lambda>b. b\<lparr>sh_pages := Some pages, sh_sgt := Some sgt\<rparr>) (heap_base0 bo))
        \<lparr>bo_heap_size := heap_new_size (he_init_nr_pages env) bo\<rparr>)"
    and "r \<noteq> OK \<Longrightarrow> bo_heap_size bo' = bo_heap_size bo \<and> bo_va bo' = bo_va bo \<and>
      (\<exists>g. bo_base bo' = (bo_base (heap_base0 bo))\<lparr>sh_pages := Some pages, sh_sgt := g\<rparr>)"
proof -
  obtain r1 pages s1 where h: "heap_read_pages (he_read_page env)
      [old_pages bo ..< new_pages (he_init_nr_pages env) bo] (heap_slots bo) s = (r1, pages, s1)"
    by (metis prod_cases3)
  let ?b1 = "set_shmem (\<lambda>b. b\<lparr>sh_pages := Some pages\<rparr>) (heap_base0 bo)"
  note eq = heap_alloc_eq [OF assms(2-4) h refl]
  have hs: "bo_heap_size (heap_base0 bo) = bo_heap_size bo" "bo_va (heap_base0 bo) = bo_va bo"
    by (auto simp: heap_base0_def split: option.split)
  have s1: "s1 = s'" "v = None" using assms(1) unfolding eq
    by (auto split: rc.splits if_splits sum.splits)
  have ok: "r1 = OK \<and> (\<exists>sgt. he_dma_map env = Inr sgt \<and>
      bo' = (set_shmem (\<lambda>b. b\<lparr>sh_pages := Some pages, sh_sgt := Some sgt\<rparr>) (heap_base0 bo))
        \<lparr>bo_heap_size := heap_new_size (he_init_nr_pages env) bo\<rparr>)" if "r = OK"
    using assms(1) that unfolding eq by (auto simp: set_shmem_def split: rc.splits if_splits sum.splits)
  have err: "bo_heap_size bo' = bo_heap_size bo \<and> bo_va bo' = bo_va bo \<and>
      (\<exists>g. bo_base bo' = (bo_base (heap_base0 bo))\<lparr>sh_pages := Some pages, sh_sgt := g\<rparr>)" if "r \<noteq> OK"
  proof -
    have "bo' = ?b1 \<or> bo' = set_shmem (\<lambda>b. b\<lparr>sh_sgt := None\<rparr>) ?b1"
      using assms(1) that unfolding eq by (auto split: rc.splits if_splits sum.splits)
    moreover have "bo_base ?b1 = (bo_base (heap_base0 bo))
        \<lparr>sh_pages := Some pages, sh_sgt := sh_sgt (bo_base (heap_base0 bo))\<rparr>" by simp
    ultimately show ?thesis using hs by (metis set_shmem_simps)
  qed
  show thesis by (rule that [OF h [unfolded s1(1)] s1(2) ok err])
qed

lemma heap_alloc_OK_guards:
  assumes "lima_heap_alloc env bo vmo s = Some (OK, bo', v, s')"
  shows "bo_heap_size bo < gem_size (bo_base bo)" "gem_filp (bo_base bo)"
    "sh_pages (bo_base bo) = None \<longrightarrow> he_kvmalloc env"
  using assms by (auto simp: lima_heap_alloc_def Let_def split: if_splits)

lemma doubled:
  assumes "0 < w" "unat (w :: u64) < 9223372036854775808"
  shows "w < w * 2"
proof -
  have "unat (w * 2) = unat w * 2"
    using assms(2) by (simp add: unat_word_ariths)
  then show ?thesis using assms(1) by (simp add: word_less_nat_alt)
qed

text \<open>
  Growing a heap object. On success its size is twice the old one, or the initial size, cut at the
  size of the object; a heap that had a size has grown; every page of the added part is entered in
  the array, and no other slot has changed. Growth that has reached the size of the object is refused
  with \<open>ENOSPC\<close>, so an object grows only finitely often.
\<close>

theorem lima_heap_alloc_grows:
  assumes ok: "lima_heap_alloc env bo None s = Some (OK, bo', v, s')" and shape: "heap_shape bo"
    and small: "unat (gem_size (bo_base bo)) < 9223372036854775808"
  shows "bo_heap_size bo' = min (if bo_heap_size bo \<noteq> 0 then bo_heap_size bo * 2
           else ucast (push_bit PAGE_SHIFT (he_init_nr_pages env))) (gem_size (bo_base bo)) \<and>
    (bo_heap_size bo \<noteq> 0 \<longrightarrow> bo_heap_size bo < bo_heap_size bo') \<and>
    gem_size (bo_base bo') = gem_size (bo_base bo) \<and> heap_shape bo' \<and>
    (\<exists>ps. sh_pages (bo_base bo') = Some ps \<and>
       (\<forall>k. old_pages bo \<le> k \<and> k < unat (drop_bit PAGE_SHIFT (bo_heap_size bo')) \<longrightarrow>
          (\<exists>p. he_read_page env k = Inr p \<and> ps ! k = Some p)) \<and>
       (\<forall>k. k < old_pages bo \<longrightarrow> ps ! k = heap_slots bo ! k)) \<and>
    (bo_heap_size bo' = gem_size (bo_base bo') \<longrightarrow>
       (\<forall>env' s. lima_heap_alloc env' bo' None s = Some (E ENOSPC, bo', None, s)))"
proof -
  note g = heap_alloc_OK_guards [OF ok]
  let ?n = "new_pages (he_init_nr_pages env) bo"
  obtain pages sgt where h: "heap_read_pages (he_read_page env) [old_pages bo ..< ?n]
      (heap_slots bo) s = (OK, pages, s')"
    and bo': "bo' = (set_shmem (\<lambda>b. b\<lparr>sh_pages := Some pages, sh_sgt := Some sgt\<rparr>) (heap_base0 bo))
        \<lparr>bo_heap_size := heap_new_size (he_init_nr_pages env) bo\<rparr>"
    by (rule heap_alloc_cases [OF ok g]) auto
  have len: "List.length (heap_slots bo) = unat (drop_bit PAGE_SHIFT (gem_size (bo_base bo)))"
    using shape by (auto simp: heap_slots_def heap_shape_def split: option.split)
  have inr: "\<And>i. i \<in> set [old_pages bo ..< ?n] \<Longrightarrow> i < List.length (heap_slots bo)"
    using new_pages_bound [of "he_init_nr_pages env" bo] by (simp add: len)
  have sz: "bo_heap_size bo' = heap_new_size (he_init_nr_pages env) bo" using bo' by simp
  have gs: "gem_size (bo_base bo') = gem_size (bo_base bo)"
    using bo' by (simp add: heap_base0_def split: option.split)
  have ps: "sh_pages (bo_base bo') = Some pages" using bo' by simp
  have "heap_shape bo'" using heap_read_length [OF h] len gs ps by (simp add: heap_shape_def)
  moreover have "bo_heap_size bo < bo_heap_size bo'" if nz: "bo_heap_size bo \<noteq> 0"
  proof -
    have "unat (bo_heap_size bo) < 9223372036854775808"
      using g(1) small by (simp add: word_less_nat_alt)
    then have "bo_heap_size bo < bo_heap_size bo * 2" using nz by (simp add: doubled word_gt_0)
    then show ?thesis using g(1) nz unfolding sz heap_new_size_def by (simp add: min_def)
  qed
  moreover have "ps' = pages \<Longrightarrow> old_pages bo \<le> k \<Longrightarrow> k < ?n \<Longrightarrow> \<exists>p. he_read_page env k = Inr p \<and> ps' ! k = Some p" for k ps'
    using heap_read_OK [OF h _ inr] by auto
  moreover have "k < old_pages bo \<Longrightarrow> pages ! k = heap_slots bo ! k" for k
    using heap_read_other [OF h] by auto
  moreover have "lima_heap_alloc env' bo' None t = Some (E ENOSPC, bo', None, t)"
    if "bo_heap_size bo' = gem_size (bo_base bo')" for env' t
    using that by (simp add: lima_heap_alloc_def Let_def)
  ultimately show ?thesis using sz gs ps by (simp add: heap_new_size_def)
qed

text \<open>
  a growth that fails after its pages were read keeps them in the array and does not count them
  in \<open>heap_size\<close>; the next growth reads, and so wires, the same pages again. After a failure and
  a success each page of the added part carries two wirings for its one slot in the array, of which
  the release returns one.
\<close>

theorem lima_heap_alloc_retry_wires_twice:
  assumes f: "he_read_page env = (\<lambda>i. Inr (f i))" and inj: "inj f"
    and shape: "heap_shape bo" and sg: "he_sg_alloc env = E e"
    and guards: "bo_heap_size bo < gem_size (bo_base bo)" "gem_filp (bo_base bo)" "he_kvmalloc env" "he_kmalloc env"
    and i: "old_pages bo \<le> i" "i < new_pages (he_init_nr_pages env) bo"
  shows "\<exists>bo1 s1 bo2 s2 pages.
    lima_heap_alloc env bo None s = Some (E e, bo1, None, s1) \<and> bo_heap_size bo1 = bo_heap_size bo \<and>
    lima_heap_alloc (env\<lparr>he_sg_alloc := OK, he_dma_map := Inr sgt\<rparr>) bo1 None s1 = Some (OK, bo2, None, s2) \<and>
    sh_pages (bo_base bo2) = Some pages \<and> pages ! i = Some (f i) \<and> sh_pages (bo_base bo1) = Some pages \<and>
    wire s2 (f i) = wire s (f i) + 2"
proof -
  let ?is = "[old_pages bo ..< new_pages (he_init_nr_pages env) bo]"
  let ?env2 = "env\<lparr>he_sg_alloc := OK, he_dma_map := Inr sgt\<rparr>"
  have len: "List.length (heap_slots bo) = unat (drop_bit PAGE_SHIFT (gem_size (bo_base bo)))"
    using shape by (auto simp: heap_slots_def heap_shape_def split: option.split)
  have inr: "\<And>i. i \<in> set ?is \<Longrightarrow> i < List.length (heap_slots bo)"
    using new_pages_bound [of "he_init_nr_pages env" bo] by (simp add: len)
  have d: "distinct ?is" by simp
  obtain pages s1 where h1: "heap_read_pages (\<lambda>i. Inr (f i)) ?is (heap_slots bo) s = (OK, pages, s1)"
    and l1: "List.length pages = List.length (heap_slots bo)"
    and p1: "\<And>i. i \<in> set ?is \<Longrightarrow> pages ! i = Some (f i)"
    and w1: "\<And>i. wire s1 (f i) = wire s (f i) + (if i \<in> set ?is then 1 else 0)"
    using heap_read_first [OF inj d inr, where s = s] by blast
  have "\<And>i. i \<in> set ?is \<Longrightarrow> i < List.length pages \<and> pages ! i = Some (f i)" using inr l1 p1 by simp
  from heap_read_again [OF inj d this] obtain s2 where
    h2: "heap_read_pages (\<lambda>i. Inr (f i)) ?is pages s1 = (OK, pages, s2)"
    and w2: "\<forall>i. wire s2 (f i) = wire s1 (f i) + (if i \<in> set ?is then 1 else 0)" by blast
  let ?bo1 = "set_shmem (\<lambda>b. b\<lparr>sh_pages := Some pages\<rparr>) (heap_base0 bo)"
  have h1': "heap_read_pages (he_read_page env) ?is (heap_slots bo) s = (OK, pages, s1)" using h1 f by simp
  have r1: "lima_heap_alloc env bo None s = Some (E e, ?bo1, None, s1)"
    using heap_alloc_eq [OF guards(1,2) _ h1' refl, of None] guards(3) sg by simp
  have b1: "bo_heap_size ?bo1 = bo_heap_size bo" "gem_size (bo_base ?bo1) = gem_size (bo_base bo)"
    "gem_filp (bo_base ?bo1) = gem_filp (bo_base bo)" "sh_pages (bo_base ?bo1) = Some pages"
    by (simp_all add: heap_base0_def split: option.split)
  have ns: "heap_new_size nr ?bo1 = heap_new_size nr bo" for nr by (simp only: heap_new_size_def b1)
  have hb: "heap_slots ?bo1 = pages" "heap_base0 ?bo1 = ?bo1"
    by (simp_all add: heap_slots_def heap_base0_def)
  have h2': "heap_read_pages (he_read_page ?env2) [old_pages ?bo1 ..< new_pages (he_init_nr_pages ?env2) ?bo1]
      (heap_slots ?bo1) s1 = (OK, pages, s2)" using h2 f by (simp add: ns b1 hb del: set_shmem_simps)
  have "\<exists>bo2. lima_heap_alloc ?env2 ?bo1 None s1 = Some (OK, bo2, None, s2) \<and> sh_pages (bo_base bo2) = Some pages"
    using heap_alloc_eq [OF _ _ _ h2' refl, of None] guards b1 by (auto simp: hb)
  then obtain bo2 where r2: "lima_heap_alloc ?env2 ?bo1 None s1 = Some (OK, bo2, None, s2)"
    and ps: "sh_pages (bo_base bo2) = Some pages" by blast
  have "i \<in> set ?is" using i by simp
  then have "wire s2 (f i) = wire s (f i) + 2" "pages ! i = Some (f i)" using w1 w2 p1 by simp_all
  then show ?thesis using r1 r2 ps b1 by blast
qed

text \<open>The address of the first added page, and the entries the extension writes.\<close>

definition grow_va :: "lima_bo \<Rightarrow> lima_bo_va \<Rightarrow> u32" where
  "grow_va bo b = ucast (bva_start b) + push_bit PAGE_SHIFT (of_nat (old_pages bo))"

lemma grow_va_page:
  assumes "unat (bva_start b) + 4096 * n \<le> 0xFFFFF000" "old_pages bo \<le> n" and al: "unat (bva_start b) mod 4096 = 0"
  shows "unat (grow_va bo b) = unat (bva_start b) + 4096 * old_pages bo"
    "vpn (grow_va bo b) = unat (bva_start b) div 4096 + old_pages bo" "unat (grow_va bo b) mod 4096 = 0"
proof -
  let ?o = "old_pages bo"
  have "?o < 1048576" using assms(1,2) by linarith
  then have o4: "unat (of_nat (4096 * ?o) :: u32) = 4096 * ?o" by (intro unat_of_nat_u32) linarith
  have shift: "push_bit PAGE_SHIFT (of_nat ?o) = (of_nat (4096 * ?o) :: u32)" by (simp add: push_bit_eq_mult PAGE_SHIFT_val)
  have st: "unat (ucast (bva_start b) :: u32) = unat (bva_start b)" using assms(1) by (simp add: unat_ucast_u64_u32)
  have "unat (ucast (bva_start b) + of_nat (4096 * ?o) :: u32) = unat (ucast (bva_start b) :: u32) + unat (of_nat (4096 * ?o) :: u32)"
    by (rule unat_add_no_wrap32) (use st o4 assms(1,2) in simp)
  then show ub: "unat (grow_va bo b) = unat (bva_start b) + 4096 * ?o" by (simp only: grow_va_def shift st o4)
  show "vpn (grow_va bo b) = unat (bva_start b) div 4096 + ?o" by (simp only: vpn_def ub)
  show "unat (grow_va bo b) mod 4096 = 0" using al by (simp only: ub) simp
qed

lemma grow_maps:
  assumes al: "unat (bva_start b) mod 4096 = 0" and fit: "unat (bva_start b) + 4096 * List.length sgt \<le> 0xFFFFF000"
    and len: "old_pages bo \<le> List.length sgt"
  obtains r vm' where
    "map_pages (lima_vm_map_page alloc) lima_vm_unmap_range (grow_va bo b) (drop (old_pages bo) sgt) vm = Some (r, vm')"
    "r = OK \<Longrightarrow> \<forall>k. pte_at vm' k = (if unat (bva_start b) div 4096 + old_pages bo \<le> k \<and> k < unat (bva_start b) div 4096 + List.length sgt
       then pte_of (sgt ! (k - unat (bva_start b) div 4096)) else pte_at vm k)"
    "r \<noteq> OK \<Longrightarrow> \<forall>k. pte_at vm' k = pte_at vm k \<or>
       unat (bva_start b) div 4096 + old_pages bo \<le> k \<and> k < unat (bva_start b) div 4096 + List.length sgt \<and> pte_at vm' k = 0"
proof -
  let ?o = "old_pages bo" and ?st = "unat (bva_start b) div 4096" and ?rest = "drop (old_pages bo) sgt"
  note va = grow_va_page [OF fit len al]
  have ft: "unat (grow_va bo b) + 4096 * List.length ?rest \<le> 0xFFFFF000" using fit len by (simp only: va) simp
  have "pte_of (?rest ! (k - vpn (grow_va bo b))) = pte_of (sgt ! (k - ?st))" if "vpn (grow_va bo b) \<le> k" for k
  proof -
    have "?o + (k - vpn (grow_va bo b)) = k - ?st" using that va by simp
    then show ?thesis using len by (metis nth_drop)
  qed
  note eq = this
  obtain r vm' where
    "map_pages (lima_vm_map_page alloc) lima_vm_unmap_range (grow_va bo b) ?rest vm = Some (r, vm')"
    "r = OK \<Longrightarrow> \<forall>k. pte_at vm' k = (if vpn (grow_va bo b) \<le> k \<and> k < vpn (grow_va bo b) + List.length ?rest
      then pte_of (?rest ! (k - vpn (grow_va bo b))) else pte_at vm k)"
    "r \<noteq> OK \<Longrightarrow> \<forall>k. pte_at vm' k = pte_at vm k \<or>
      vpn (grow_va bo b) \<le> k \<and> k < vpn (grow_va bo b) + List.length ?rest \<and> pte_at vm' k = 0"
    by (rule lima_pt.map_pages_spec [OF va(3) ft, of alloc vm]) blast
  then show thesis using that [of r vm'] eq va(2) len by simp
qed

text \<open>The whole call: the pages are read, then the table is built, then it is mapped.\<close>

lemma heap_alloc_mapped:
  fixes env bo pages
  defines "b1 \<equiv> set_shmem (\<lambda>b. b\<lparr>sh_pages := Some pages\<rparr>) (heap_base0 bo)"
  assumes guards: "bo_heap_size bo < gem_size (bo_base bo)" "gem_filp (bo_base bo)" "sh_pages (bo_base bo) = None \<longrightarrow> he_kvmalloc env"
    and h: "heap_read_pages (he_read_page env) [old_pages bo ..< new_pages (he_init_nr_pages env) bo] (heap_slots bo) s = (r1, pages, s1)"
    and dm: "he_dma_map env = Inr sgt" and b: "lima_vm_bo_find i (bo_va bo) = Some b"
    and m: "map_pages (lima_vm_map_page (he_alloc env)) lima_vm_unmap_range (grow_va bo b) (drop (old_pages bo) sgt) vm = Some (r2, vm2)"
  shows "lima_heap_alloc env bo (Some (i, vm)) s =
    (if r1 \<noteq> OK then Some (r1, b1, Some vm, s1)
     else if he_sg_alloc env \<noteq> OK then Some (he_sg_alloc env, b1, Some vm, s1)
     else if sh_sgt (bo_base bo) = None \<and> \<not> he_kmalloc env then Some (E ENOMEM, b1, Some vm, s1)
     else if r2 \<noteq> OK then Some (r2, set_shmem (\<lambda>b. b\<lparr>sh_sgt := None\<rparr>) (set_shmem (\<lambda>b. b\<lparr>sh_sgt := Some sgt\<rparr>) b1), Some vm2, s1)
     else Some (OK, (set_shmem (\<lambda>b. b\<lparr>sh_sgt := Some sgt\<rparr>) b1)\<lparr>bo_heap_size := heap_new_size (he_init_nr_pages env) bo\<rparr>, Some vm2, s1))"
proof -
  have "bo_va (heap_base0 bo) = bo_va bo" by (auto simp: heap_base0_def split: option.split)
  then have "lima_vm_map_bo (he_alloc env) i (old_pages bo) vm (set_shmem (\<lambda>b. b\<lparr>sh_sgt := Some sgt\<rparr>) b1) = Some (r2, vm2)"
    using m b by (simp add: lima_vm_map_bo_def grow_va_def b1_def)
  then show ?thesis unfolding b1_def
    by (subst heap_alloc_eq [OF guards h refl])
      (cases r2; cases r1; cases "he_sg_alloc env"; cases "sh_sgt (bo_base bo)"; simp add: dm)
qed

text \<open>
  C9: a heap object growing while attached: the GPU sees the added pages behind the ones it had, at the
  object's address, and no other address changes. The call returns on every path; on failure every
  entry outside the added part is as before.
\<close>

theorem lima_heap_alloc_extends_mapping:
  assumes guards: "bo_heap_size bo < gem_size (bo_base bo)" "gem_filp (bo_base bo)"
      "sh_pages (bo_base bo) = None \<longrightarrow> he_kvmalloc env"
    and dm: "he_dma_map env = Inr sgt"
    and b: "lima_vm_bo_find i (bo_va bo) = Some b" "unat (bva_start b) mod 4096 = 0"
    and fit: "unat (bva_start b) + 4096 * List.length sgt \<le> 0xFFFFF000"
    and len: "old_pages bo \<le> List.length sgt"
  shows "\<exists>r bo' vm' s'. lima_heap_alloc env bo (Some (i, vm)) s = Some (r, bo', Some vm', s') \<and>
    (r = OK \<longrightarrow> (\<forall>va. fst (lima_vm_probe_pte vm' va) =
       (if unat (bva_start b) div 4096 + old_pages bo \<le> vpn va \<and> vpn va < unat (bva_start b) div 4096 + List.length sgt
        then pte_of (sgt ! (vpn va - unat (bva_start b) div 4096)) else fst (lima_vm_probe_pte vm va)))) \<and>
    (r \<noteq> OK \<longrightarrow> bo_heap_size bo' = bo_heap_size bo \<and>
      (\<forall>va. fst (lima_vm_probe_pte vm' va) = fst (lima_vm_probe_pte vm va) \<or>
       unat (bva_start b) div 4096 + old_pages bo \<le> vpn va \<and> vpn va < unat (bva_start b) div 4096 + List.length sgt \<and>
       fst (lima_vm_probe_pte vm' va) = 0))"
proof -
  obtain r1 pages s1 where h: "heap_read_pages (he_read_page env)
      [old_pages bo ..< new_pages (he_init_nr_pages env) bo] (heap_slots bo) s = (r1, pages, s1)"
    by (metis prod_cases3)
  show ?thesis
  proof (rule grow_maps [OF b(2) fit len, of "he_alloc env" vm])
    fix r2 vm2
    assume m: "map_pages (lima_vm_map_page (he_alloc env)) lima_vm_unmap_range (grow_va bo b) (drop (old_pages bo) sgt) vm = Some (r2, vm2)"
      and ok: "r2 = OK \<Longrightarrow> \<forall>k. pte_at vm2 k = (if unat (bva_start b) div 4096 + old_pages bo \<le> k \<and> k < unat (bva_start b) div 4096 + List.length sgt
        then pte_of (sgt ! (k - unat (bva_start b) div 4096)) else pte_at vm k)"
      and err: "r2 \<noteq> OK \<Longrightarrow> \<forall>k. pte_at vm2 k = pte_at vm k \<or>
        unat (bva_start b) div 4096 + old_pages bo \<le> k \<and> k < unat (bva_start b) div 4096 + List.length sgt \<and> pte_at vm2 k = 0"
    have "bo_heap_size (heap_base0 bo) = bo_heap_size bo" by (simp add: heap_base0_def split: option.split)
    then show ?thesis using ok err unfolding heap_alloc_mapped [OF guards h dm b(1) m] by (cases "r2 = OK") (simp_all add: probe_pte)
  qed
qed

section \<open>Creating an object for user space\<close>

lemma get_sgt_fields:
  assumes "drm_gem_shmem_get_pages_sgt env obj s = Some (r, obj', s')" "shmem_core w0 obj s"
    and "room obj"
  shows "\<exists>ps c g. obj' = obj\<lparr>sh_pages := ps, sh_pages_use_count := c, sh_sgt := g\<rparr>"
proof -
  have self: "\<exists>ps c g. obj = obj\<lparr>sh_pages := ps, sh_pages_use_count := c, sh_sgt := g\<rparr>"
    by (rule exI [of _ "sh_pages obj"], rule exI [of _ "sh_pages_use_count obj"], rule exI [of _ "sh_sgt obj"]) simp
  obtain r1 o1 s1 where g: "drm_gem_shmem_get_pages env obj s = (r1, o1, s1)" by (metis prod_cases3)
  have o1: "\<exists>ps c. o1 = obj\<lparr>sh_pages := ps, sh_pages_use_count := c\<rparr>"
  proof (cases r1)
    case OK
    then show ?thesis using get_pages_OK(3) [OF g [unfolded OK] assms(2)] assms(3) by (simp add: room_def)
  next
    case (E e)
    have "o1 = obj" using get_pages_E(1) [OF g [unfolded E]] .
    then show ?thesis using exI [of _ "sh_pages obj"] by (intro exI [of _ "sh_pages obj"] exI [of _ "sh_pages_use_count obj"]) simp
  qed
  then obtain ps c where o1: "o1 = obj\<lparr>sh_pages := ps, sh_pages_use_count := c\<rparr>" by blast
  have o1g: "\<exists>ps c g. o1 = obj\<lparr>sh_pages := ps, sh_pages_use_count := c, sh_sgt := g\<rparr>"
    unfolding o1 by (rule exI [of _ ps], rule exI [of _ c], rule exI [of _ "sh_sgt obj"]) simp
  have put: "\<exists>ps c g. o2 = obj\<lparr>sh_pages := ps, sh_pages_use_count := c, sh_sgt := g\<rparr>"
    if p: "drm_gem_shmem_put_pages o1 s1 = Some (o2, s2)" and r1: "r1 = OK" for o2 s2
  proof -
    have core: "shmem_core w0 o1 s1" and pos: "0 < unat (sh_pages_use_count o1)"
      using get_pages_OK(1,2) [OF g [unfolded r1] assms(2)] assms(3) by (simp_all add: room_def)
    obtain ps' c' where "o2 = o1\<lparr>sh_pages := ps', sh_pages_use_count := c'\<rparr>"
      using inv_put_pages(3) [OF core pos p] by blast
    then show ?thesis unfolding o1
      by (intro exI [of _ ps'] exI [of _ c'] exI [of _ "sh_sgt obj"]) simp
  qed
  have "obj' = obj \<or> obj' = o1 \<or> (\<exists>g. obj' = o1\<lparr>sh_sgt := g\<rparr>) \<or>
      r1 = OK \<and> (\<exists>s2. drm_gem_shmem_put_pages o1 s1 = Some (obj', s2))"
    using assms(1) g
    by (auto simp: drm_gem_shmem_get_pages_sgt_def drm_gem_shmem_get_pages_sgt_locked_def bind_eq_Some_conv
        split: rc.splits option.splits sum.splits)
  moreover have "\<exists>ps c g. o1\<lparr>sh_sgt := g'\<rparr> = obj\<lparr>sh_pages := ps, sh_pages_use_count := c, sh_sgt := g\<rparr>" for g'
    unfolding o1 by (rule exI [of _ ps], rule exI [of _ c], rule exI [of _ g']) simp
  ultimately show ?thesis using self o1g put by blast
qed

text \<open>Releasing a heap object that holds its array alone.\<close>

lemma heap_free:
  assumes "\<not> gem_import sh" "sh_pages sh = Some ps" "sh_pages_use_count sh = 1"
    and "List.length ps = unat (drm_gem_shmem_npages (gem_size sh))"
    and "\<And>q. wire s q = w0 q + count_list ps (Some q)"
  shows "\<exists>sh' s'. drm_gem_shmem_free sh s = Some (sh', s') \<and> wire s' = w0"
proof -
  let ?o = "sh\<lparr>sh_sgt := None\<rparr>"
  let ?o1 = "?o\<lparr>sh_pages_use_count := 0\<rparr>"
  let ?s1 = "if sh_map_wc ?o1 then drm_gem_shmem_set_pages_memattr ps
      (drm_gem_shmem_npages (gem_size ?o1)) VM_MEMATTR_DEFAULT s else s"
  let ?s2 = "drm_gem_shmem_freebsd_put_pages ?o1 ps (sh_dirty_on_put ?o1) (sh_accessed_on_put ?o1) ?s1"
  have "drm_gem_shmem_put_pages ?o s = Some (?o1\<lparr>sh_pages := None\<rparr>, ?s2)"
    using assms(2,3) by (simp add: drm_gem_shmem_put_pages_def unref_cases Let_def)
  moreover have "wire ?s2 = w0"
    by (rule ext) (use assms(4,5) in \<open>simp add: drm_gem_shmem_freebsd_put_pages_def Let_def wire_fold_put_one\<close>)
  ultimately show ?thesis using assms(1,2) by (simp add: drm_gem_shmem_free_def Let_def)
qed

lemma create_fields:
  assumes "drm_gem_shmem_create env sz = Inr sh"
  shows "\<exists>wc. sh = shmem_new (drm_gem_shmem_align_size sz) wc"
  using assms by (auto simp: drm_gem_shmem_create_def drm_gem_shmem_create_internal_def Let_def
      split: sum.splits rc.splits)

lemma new_core: "shm_inv (wire s) (shmem_new sz wc, s, 0, 0)" "room (shmem_new sz wc)"
  by (simp_all add: shm_fields shmem_new_def)

text \<open>The two ways of giving a new object its pages.\<close>

lemma create_plain:
  assumes g: "drm_gem_shmem_get_pages_sgt env (shmem_new sz wc) s = Some (r, sh, s1)"
  shows "gem_refs sh = 1" "gem_size sh = sz" "\<exists>sh' s'. drm_gem_shmem_free sh s1 = Some (sh', s') \<and> wire s' = wire s"
    "wire s1 q = wire s q + held (sh_pages sh) q"
proof -
  have inv: "shm_inv (wire s) (sh, s1, 0, 0)" by (rule inv_get_sgt [OF new_core g])
  obtain ps c u where eq: "sh = (shmem_new sz wc)\<lparr>sh_pages := ps, sh_pages_use_count := c, sh_sgt := u\<rparr>"
    using get_sgt_fields [OF g _ new_core(2), of "wire s"] new_core(1) [of s sz wc] by auto
  then have v: "sh_vmap_use_count sh = 0" by (simp add: shmem_new_def)
  show "gem_refs sh = 1" "gem_size sh = sz" using eq by (simp_all add: shmem_new_def)
  show "\<exists>sh' s'. drm_gem_shmem_free sh s1 = Some (sh', s') \<and> wire s' = wire s"
    using free_all_pages [OF inv v] by blast
  show "wire s1 q = wire s q + held (sh_pages sh) q" using inv by (simp add: shmem_core_def)
qed

lemma create_heap:
  assumes h: "lima_heap_alloc henv \<lparr>bo_base = shmem_new sz wc, bo_va = [], bo_heap_size = 0\<rparr> None s =
      Some (r, bo, v, s1)"
  shows "gem_refs (bo_base bo) = 1" "gem_size (bo_base bo) = sz" "bo_va bo = []"
    "\<exists>sh' s'. drm_gem_shmem_free (bo_base bo) s1 = Some (sh', s') \<and> wire s' = wire s"
    "wire s1 q = wire s q + held (sh_pages (bo_base bo)) q"
proof -
  let ?bo = "\<lparr>bo_base = shmem_new sz wc, bo_va = [], bo_heap_size = 0\<rparr>"
  have "gem_refs (bo_base bo) = 1 \<and> gem_size (bo_base bo) = sz \<and> bo_va bo = [] \<and>
    (\<exists>sh' s'. drm_gem_shmem_free (bo_base bo) s1 = Some (sh', s') \<and> wire s' = wire s) \<and>
    wire s1 q = wire s q + held (sh_pages (bo_base bo)) q"
  proof (cases "sz = 0 \<or> \<not> he_kvmalloc henv")
    case True
    have "lima_heap_alloc henv ?bo None s = Some (E ENOSPC, ?bo, None, s)" if "sz = 0"
      using that by (simp add: lima_heap_alloc_def shmem_new_def Let_def)
    moreover have "lima_heap_alloc henv ?bo None s = Some (E ENOMEM, ?bo, None, s)"
      if "sz \<noteq> 0" "\<not> he_kvmalloc henv"
      using that by (simp add: lima_heap_alloc_def shmem_new_def Let_def)
    ultimately have "bo = ?bo" "s1 = s" using h True by (cases "sz = 0"; simp)+
    then show ?thesis by (simp add: shmem_new_def drm_gem_shmem_free_def)
  next
    case False
    then have g: "bo_heap_size ?bo < gem_size (bo_base ?bo)" "gem_filp (bo_base ?bo)"
      "sh_pages (bo_base ?bo) = None \<longrightarrow> he_kvmalloc henv"
      by (simp_all add: shmem_new_def word_gt_0)
    have slots: "heap_slots ?bo = replicate (unat (drop_bit PAGE_SHIFT sz)) None"
      "heap_base0 ?bo = set_shmem (\<lambda>b. b\<lparr>sh_pages_use_count := 1\<rparr>) ?bo"
      by (simp_all add: heap_slots_def heap_base0_def shmem_new_def)
    obtain r1 pages where p: "heap_read_pages (he_read_page henv)
        [old_pages ?bo ..< new_pages (he_init_nr_pages henv) ?bo] (heap_slots ?bo) s = (r1, pages, s1)"
      and base: "\<exists>u. bo_base bo = (bo_base (heap_base0 ?bo))\<lparr>sh_pages := Some pages, sh_sgt := u\<rparr>"
      and va: "bo_va bo = []"
    proof (rule heap_alloc_cases [OF h g])
      fix r1 pages
      assume p: "heap_read_pages (he_read_page henv)
          [old_pages ?bo ..< new_pages (he_init_nr_pages henv) ?bo] (heap_slots ?bo) s = (r1, pages, s1)"
        and ok: "r = OK \<Longrightarrow> r1 = OK \<and> (\<exists>sgt. he_dma_map henv = Inr sgt \<and>
          bo = (set_shmem (\<lambda>b. b\<lparr>sh_pages := Some pages, sh_sgt := Some sgt\<rparr>) (heap_base0 ?bo))
            \<lparr>bo_heap_size := heap_new_size (he_init_nr_pages henv) ?bo\<rparr>)"
        and err: "r \<noteq> OK \<Longrightarrow> bo_heap_size bo = bo_heap_size ?bo \<and> bo_va bo = bo_va ?bo \<and>
          (\<exists>g. bo_base bo = (bo_base (heap_base0 ?bo))\<lparr>sh_pages := Some pages, sh_sgt := g\<rparr>)"
      have "(\<exists>u. bo_base bo = (bo_base (heap_base0 ?bo))\<lparr>sh_pages := Some pages, sh_sgt := u\<rparr>) \<and> bo_va bo = []"
      proof (cases "r = OK")
        case True
        with ok obtain sgt where "bo = (set_shmem (\<lambda>b. b\<lparr>sh_pages := Some pages, sh_sgt := Some sgt\<rparr>) (heap_base0 ?bo))
            \<lparr>bo_heap_size := heap_new_size (he_init_nr_pages henv) ?bo\<rparr>" by blast
        then show ?thesis by (auto simp: slots)
      next
        case False
        with err show ?thesis by simp
      qed
      with p that show thesis by blast
    qed
    have gsz: "gem_size (bo_base ?bo) = sz" by (simp add: shmem_new_def)
    have nb: "new_pages (he_init_nr_pages henv) ?bo \<le> unat (drop_bit PAGE_SHIFT sz)"
      using new_pages_bound [of "he_init_nr_pages henv" ?bo] unfolding gsz .
    have w: "wire s1 q + count_list (heap_slots ?bo) (Some q) = wire s q + count_list pages (Some q)" for q
      by (rule heap_read_wire [OF p]) (use nb in \<open>auto simp: slots\<close>)
    have "count_list (heap_slots ?bo) (Some q) = 0" for q by (simp add: slots count_list_0_iff)
    then have w1: "wire s1 q = wire s q + count_list pages (Some q)" for q using w [of q] by simp
    have len: "List.length pages = unat (drm_gem_shmem_npages sz)"
      using heap_read_length [OF p] by (simp add: slots drm_gem_shmem_npages_def)
    obtain u where b: "bo_base bo = (bo_base (heap_base0 ?bo))\<lparr>sh_pages := Some pages, sh_sgt := u\<rparr>"
      using base by blast
    then have b': "\<not> gem_import (bo_base bo)" "sh_pages (bo_base bo) = Some pages"
      "sh_pages_use_count (bo_base bo) = 1" "gem_size (bo_base bo) = sz" "gem_refs (bo_base bo) = 1"
      unfolding slots by (simp_all add: shmem_new_def)
    have "\<exists>sh' s'. drm_gem_shmem_free (bo_base bo) s1 = Some (sh', s') \<and> wire s' = wire s"
      by (rule heap_free [OF b'(1-3)]) (use len w1 b' in simp_all)
    then show ?thesis using b' va w1 by simp
  qed
  then show "gem_refs (bo_base bo) = 1" "gem_size (bo_base bo) = sz" "bo_va bo = []"
    "\<exists>sh' s'. drm_gem_shmem_free (bo_base bo) s1 = Some (sh', s') \<and> wire s' = wire s"
    "wire s1 q = wire s q + held (sh_pages (bo_base bo)) q" by blast+
qed

text \<open>
  creating an object for user space, plain or heap, always returns. On failure nothing is left: no
  object and every page with the wirings it had before. On success the object has exactly one
  reference, that of the handle, the page-aligned size asked for, and one wiring per page it holds.
\<close>

theorem lima_gem_create_handle_balanced:
  "\<exists>res bo' s'. lima_gem_create_handle env henv sz flags s = Some (res, bo', s') \<and>
    (case res of
       Inl e \<Rightarrow> bo' = None \<and> wire s' = wire s
     | Inr h \<Rightarrow> (\<exists>bo. bo' = Some bo \<and> gem_refs (bo_base bo) = 1 \<and> bo_va bo = [] \<and>
         gem_size (bo_base bo) = drm_gem_shmem_align_size (ucast sz) \<and>
         (\<forall>q. wire s' q = wire s q + held (sh_pages (bo_base bo)) q)))"
proof (cases "drm_gem_shmem_create env (ucast sz)")
  case (Inl e)
  then show ?thesis by (simp add: lima_gem_create_handle_def)
next
  case (Inr sh)
  let ?sz = "drm_gem_shmem_align_size (ucast sz)"
  obtain wc where sh: "sh = shmem_new ?sz wc" using create_fields [OF Inr] by blast
  let ?bo = "\<lparr>bo_base = shmem_new ?sz wc, bo_va = [], bo_heap_size = 0\<rparr>"
  have "\<exists>err bo1 s1. (if flags AND LIMA_BO_FLAG_HEAP \<noteq> 0 then do {
                 (r, bo1, _, s1) \<leftarrow> lima_heap_alloc henv ?bo None s;
                 Some (r, bo1, s1) }
               else do {
                 (g, sh1, s1) \<leftarrow> drm_gem_shmem_get_pages_sgt env (shmem_new ?sz wc) s;
                 Some (rc_of_sum g, ?bo\<lparr>bo_base := sh1\<rparr>, s1) }) = Some (err, bo1, s1) \<and>
      gem_refs (bo_base bo1) = 1 \<and> gem_size (bo_base bo1) = ?sz \<and> bo_va bo1 = [] \<and>
      (\<exists>sh' s'. drm_gem_shmem_free (bo_base bo1) s1 = Some (sh', s') \<and> wire s' = wire s) \<and>
      (\<forall>q. wire s1 q = wire s q + held (sh_pages (bo_base bo1)) q)"
  proof (cases "flags AND LIMA_BO_FLAG_HEAP \<noteq> 0")
    case True
    have "lima_heap_alloc henv ?bo None s \<noteq> None"
      by (auto simp: lima_heap_alloc_def Let_def split: prod.splits rc.splits sum.splits)
    then obtain r bo1 v s1 where h: "lima_heap_alloc henv ?bo None s = Some (r, bo1, v, s1)"
      by (metis option.exhaust prod_cases4)
    show ?thesis using True create_heap [OF h] h by simp
  next
    case False
    obtain g sh1 s1 where g: "drm_gem_shmem_get_pages_sgt env (shmem_new ?sz wc) s = Some (g, sh1, s1)"
      using inv_get_sgt_ok [OF new_core] by (metis option.exhaust prod_cases3)
    show ?thesis using False create_plain [OF g] g by simp
  qed
  then obtain err bo1 s1 where step: "(if flags AND LIMA_BO_FLAG_HEAP \<noteq> 0 then do {
                 (r, bo1, _, s1) \<leftarrow> lima_heap_alloc henv ?bo None s;
                 Some (r, bo1, s1) }
               else do {
                 (g, sh1, s1) \<leftarrow> drm_gem_shmem_get_pages_sgt env (shmem_new ?sz wc) s;
                 Some (rc_of_sum g, ?bo\<lparr>bo_base := sh1\<rparr>, s1) }) = Some (err, bo1, s1)"
    and b: "gem_refs (bo_base bo1) = 1" "gem_size (bo_base bo1) = ?sz" "bo_va bo1 = []"
    and fr: "\<exists>sh' s'. drm_gem_shmem_free (bo_base bo1) s1 = Some (sh', s') \<and> wire s' = wire s"
    and w: "\<forall>q. wire s1 q = wire s q + held (sh_pages (bo_base bo1)) q" by blast
  obtain sh' s' where f: "drm_gem_shmem_free (bo_base bo1) s1 = Some (sh', s')" "wire s' = wire s"
    using fr by blast
  have put_fail: "drm_gem_object_put bo1 s1 = Some (None, s')"
    using b(1) f(1) by (simp add: drm_gem_object_put_def lima_gem_free_object_def)
  have eq: "lima_gem_create_handle env henv sz flags s =
      do { (bo3, s2) \<leftarrow> drm_gem_object_put
             (case err of E e \<Rightarrow> bo1 | OK \<Rightarrow> (case e_handle_create env of Inl e \<Rightarrow> bo1 | Inr h \<Rightarrow> drm_gem_object_get bo1)) s1;
           Some (case err of E e \<Rightarrow> Inl e | OK \<Rightarrow> e_handle_create env, bo3, s2) }"
    unfolding lima_gem_create_handle_def Inr sum.case sh Let_def step bind.bind_lunit prod.case
    by (simp split: rc.split sum.split)
  show ?thesis
  proof (cases "\<exists>h. err = OK \<and> e_handle_create env = Inr h")
    case True
    then obtain h where h: "err = OK" "e_handle_create env = Inr h" by blast
    have "drm_gem_object_put (drm_gem_object_get bo1) s1 =
        Some (Some (set_shmem (\<lambda>b. b\<lparr>gem_refs := 1\<rparr>) (drm_gem_object_get bo1)), s1)"
      using b(1) by (simp add: drm_gem_object_put_def drm_gem_object_get_def set_shmem_def)
    then show ?thesis unfolding eq using h b w by (simp add: drm_gem_object_get_def)
  next
    case False
    then have "\<exists>e. lima_gem_create_handle env henv sz flags s = Some (Inl e, None, s')"
      unfolding eq using put_fail by (cases err; cases "e_handle_create env") auto
    then show ?thesis using f(2) by auto
  qed
qed

section \<open>A concrete heap\<close>

text \<open>A heap of two pages that starts with one; the page of index \<open>i\<close> is \<open>7 + i\<close>.\<close>

definition demo_heap :: lima_bo where
  "demo_heap = \<lparr>bo_base = shmem_new 8192 True, bo_va = [new_va 3 0x10000 8192], bo_heap_size = 0\<rparr>"

definition demo_heap_env :: heap_env where
  "demo_heap_env = \<lparr>he_init_nr_pages = 1, he_kvmalloc = True, he_read_page = (\<lambda>i. Inr (7 + i)),
     he_sg_alloc = OK, he_kmalloc = True, he_dma_map = Inr [0x5000], he_alloc = demo_alloc\<rparr>"

lemma demo_heap_facts:
  "bo_heap_size demo_heap = 0" "gem_size (bo_base demo_heap) = 8192" "gem_filp (bo_base demo_heap)"
  "sh_pages (bo_base demo_heap) = None" "heap_shape demo_heap" "heap_new_size 1 demo_heap = 4096"
  "lima_vm_bo_find 3 (bo_va demo_heap) = Some (new_va 3 0x10000 8192)"
  by (simp_all add: demo_heap_def shmem_new_def heap_shape_def heap_new_size_def new_va_def PAGE_SHIFT_def)

lemma demo_heap_first:
  "\<exists>bo' s'. lima_heap_alloc demo_heap_env demo_heap None demo_vmsys = Some (OK, bo', None, s')"
  by (simp add: lima_heap_alloc_def demo_heap_env_def demo_heap_facts Let_def PAGE_SHIFT_def)

theorem lima_heap_alloc_grows_witness:
  "\<exists>bo' v s'. lima_heap_alloc demo_heap_env demo_heap None demo_vmsys = Some (OK, bo', v, s') \<and>
     bo_heap_size bo' = 4096"
proof -
  obtain bo' s' where a: "lima_heap_alloc demo_heap_env demo_heap None demo_vmsys = Some (OK, bo', None, s')"
    using demo_heap_first by blast
  have "unat (gem_size (bo_base demo_heap)) < 9223372036854775808" by (simp add: demo_heap_facts)
  note t = lima_heap_alloc_grows [OF a demo_heap_facts(5) this]
  have "bo_heap_size bo' = 4096"
    using conjunct1 [OF t] by (simp add: demo_heap_facts demo_heap_env_def PAGE_SHIFT_def)
  then show ?thesis using a by blast
qed

theorem lima_heap_alloc_retry_wires_twice_witness:
  "\<exists>bo1 s1 bo2 s2. lima_heap_alloc (demo_heap_env\<lparr>he_sg_alloc := E ENOMEM\<rparr>) demo_heap None demo_vmsys =
       Some (E ENOMEM, bo1, None, s1) \<and>
     lima_heap_alloc (demo_heap_env\<lparr>he_sg_alloc := OK\<rparr>) bo1 None s1 = Some (OK, bo2, None, s2) \<and>
     sh_pages (bo_base bo2) = sh_pages (bo_base bo1) \<and> wire s2 7 = 2"
proof -
  let ?env = "demo_heap_env\<lparr>he_sg_alloc := E ENOMEM\<rparr>"
  have e: "?env\<lparr>he_sg_alloc := OK, he_dma_map := Inr [0x5000]\<rparr> = demo_heap_env\<lparr>he_sg_alloc := OK\<rparr>"
    by (simp add: demo_heap_env_def)
  have inj: "inj (\<lambda>i :: nat. 7 + i)" by (simp add: inj_def)
  have n: "0 < new_pages (he_init_nr_pages ?env) demo_heap"
    by (simp add: demo_heap_env_def demo_heap_facts PAGE_SHIFT_def)
  have w: "wire demo_vmsys 7 = 0" by (simp add: demo_vmsys_def)
  have c: "he_read_page ?env = (\<lambda>i. Inr (7 + i))" "he_sg_alloc ?env = E ENOMEM" "he_kvmalloc ?env" "he_kmalloc ?env"
    by (simp_all add: demo_heap_env_def)
  have lt: "bo_heap_size demo_heap < gem_size (bo_base demo_heap)" "old_pages demo_heap \<le> 0"
    by (simp_all add: demo_heap_facts)
  obtain bo1 s1 bo2 s2 pages where "lima_heap_alloc ?env demo_heap None demo_vmsys = Some (E ENOMEM, bo1, None, s1)"
    "lima_heap_alloc (demo_heap_env\<lparr>he_sg_alloc := OK\<rparr>) bo1 None s1 = Some (OK, bo2, None, s2)"
    "sh_pages (bo_base bo2) = Some pages" "sh_pages (bo_base bo1) = Some pages"
    "wire s2 (7 + 0) = wire demo_vmsys (7 + 0) + 2"
    using lima_heap_alloc_retry_wires_twice [OF c(1) inj demo_heap_facts(5) c(2) lt(1) demo_heap_facts(3) c(3,4) lt(2) n,
        of demo_vmsys "[0x5000]"] unfolding e by blast
  then show ?thesis using w by auto
qed

lemma demo_heap_first_mapped:
  "\<exists>bo' vm' s'. lima_heap_alloc demo_heap_env demo_heap (Some (3, vm_blank 0x1000)) demo_vmsys =
     Some (OK, bo', Some vm', s')"
proof -
  have m: "lima_vm_map_page demo_alloc 0x5000 0x10000 (vm_blank 0x1000) =
      (OK, snd (lima_vm_map_page demo_alloc 0x5000 0x10000 (vm_blank 0x1000)))"
    by (simp add: lima_vm_map_page_def demo_alloc_def vm_blank_def UINT32_MAX_def LIMA_PAGE_SIZE_def
        vm_geometry Let_def)
  then obtain vm1 where m1: "lima_vm_map_page demo_alloc 0x5000 0x10000 (vm_blank 0x1000) = (OK, vm1)" by blast
  have va: "bo_va demo_heap = [new_va 3 0x10000 8192]" by (simp add: demo_heap_def)
  show ?thesis
    by (simp add: lima_heap_alloc_def demo_heap_env_def demo_heap_facts Let_def lima_vm_map_bo_def va new_va_def
        map_pages_def map_step_def m1 set_shmem_def PAGE_SHIFT_def)
qed

theorem lima_heap_alloc_extends_mapping_witness:
  "\<exists>bo' vm' s'. lima_heap_alloc demo_heap_env demo_heap (Some (3, vm_blank 0x1000)) demo_vmsys =
     Some (OK, bo', Some vm', s') \<and> fst (lima_vm_probe_pte vm' 0x10000) = pte_of 0x5000"
proof -
  have v: "vpn 0x10000 = 16" by (simp add: vpn_def)
  have f: "bva_start (new_va 3 0x10000 8192) = 0x10000" by (simp add: new_va_def)
  have fd: "unat (0x10000 :: u64) div 4096 = 16" by simp
  obtain bo' vm' s' where a: "lima_heap_alloc demo_heap_env demo_heap (Some (3, vm_blank 0x1000)) demo_vmsys =
     Some (OK, bo', Some vm', s')" using demo_heap_first_mapped by blast
  have "\<forall>va. fst (lima_vm_probe_pte vm' va) =
       (if 16 + old_pages demo_heap \<le> vpn va \<and> vpn va < 16 + List.length [0x5000 :: u64]
        then pte_of ([0x5000] ! (vpn va - 16)) else fst (lima_vm_probe_pte (vm_blank 0x1000) va))"
    using lima_heap_alloc_extends_mapping [of demo_heap demo_heap_env "[0x5000]" 3 "new_va 3 0x10000 8192"
        "vm_blank 0x1000" demo_vmsys, unfolded f fd] a
    by (auto simp: demo_heap_facts demo_heap_env_def)
  then have "fst (lima_vm_probe_pte vm' 0x10000) = pte_of 0x5000"
    using v by (simp add: demo_heap_facts)
  then show ?thesis using a by blast
qed

end
