(* ===== verification/Lima_GP.thy ===== *)
theory Lima_GP
  imports Lima_IP Lima_Gem_Spec
begin

text \<open>
  The geometry processor (\<open>lima_gp.c\<close>): its interrupt, resets, the start of a job and the recovery
  from an exhausted heap. A job is the record \<open>lima_sched_task\<close>; its buffer objects are numbers
  into a store of objects, its fence a number into a store of fences. \<open>async_reset\<close> of the block is passed and returned.
\<close>

section \<open>Jobs\<close>

record lima_sched_task =
  t_vm :: nat
  t_frame :: "u32 list"          \<comment> \<open>the frame, word by word\<close>
  t_bos :: "nat list"
  t_recoverable :: bool
  t_heap :: "nat option"
  t_fence :: "nat option"

definition frame_word :: "u32 list \<Rightarrow> u32 \<Rightarrow> u32" where
  "frame_word f reg = f ! unat (drop_bit 2 reg)"

definition set_frame_word :: "u32 \<Rightarrow> u32 \<Rightarrow> lima_sched_task \<Rightarrow> lima_sched_task" where
  "set_frame_word reg v task = task\<lparr>t_frame := (t_frame task)[unat (drop_bit 2 reg) := v]\<rparr>"

definition LIMA_GP_FRAME_REG_NUM :: nat where "LIMA_GP_FRAME_REG_NUM = 6"

section \<open>Interrupt\<close>

text \<open>
  The result: the return value, the current task, the new \<open>pipe->error\<close> (none when it is not
  written), whether \<open>lima_sched_pipe_task_done\<close> is called, and the history.
\<close>

definition lima_gp_irq_handler ::
  "hw \<Rightarrow> u32 \<Rightarrow> lima_sched_task option \<Rightarrow> io \<Rightarrow>
   bool \<times> lima_sched_task option \<times> bool option \<times> bool \<times> io" where
  "lima_gp_irq_handler hw base task io =
     (let (state, io1) = readl hw (base + LIMA_GP_INT_STAT) io;
          (status, io2) = readl hw (base + LIMA_GP_STATUS) io1 in
      if state = 0 then (False, task, None, False, io2)
      else
        let (task1, error, done, io3) =
              (if state AND LIMA_GP_IRQ_MASK_ERROR \<noteq> 0 then
                 (if state AND LIMA_GP_IRQ_MASK_ERROR = LIMA_GP_IRQ_PLBU_OUT_OF_MEM then task
                  else map_option (\<lambda>t. t\<lparr>t_recoverable := False\<rparr>) task,
                  True, True, writel 0 (base + LIMA_GP_INT_MASK) io2)
               else
                 let valid = (state AND (LIMA_GP_IRQ_VS_END_CMD_LST OR LIMA_GP_IRQ_PLBU_END_CMD_LST) \<noteq> 0);
                     active = (status AND (LIMA_GP_STATUS_VS_ACTIVE OR LIMA_GP_STATUS_PLBU_ACTIVE) \<noteq> 0)
                 in (task, False, valid \<and> \<not> active, io2));
            io4 = writel state (base + LIMA_GP_INT_CLEAR) io3
        in (True, task1, Some error, done, io4))"

section \<open>Resets\<close>

definition lima_gp_soft_reset_async :: "u32 \<Rightarrow> bool \<Rightarrow> io \<Rightarrow> bool \<times> io" where
  "lima_gp_soft_reset_async base async_reset io =
     (if async_reset then (async_reset, io)
      else
        let io1 = writel 0 (base + LIMA_GP_INT_MASK) io;
            io2 = writel LIMA_GP_IRQ_RESET_COMPLETED (base + LIMA_GP_INT_CLEAR) io1;
            io3 = writel LIMA_GP_CMD_SOFT_RESET (base + LIMA_GP_CMD) io2
        in (True, io3))"

definition lima_gp_soft_reset_async_wait :: "hw \<Rightarrow> u32 \<Rightarrow> bool \<Rightarrow> io \<Rightarrow> rc \<times> bool \<times> io" where
  "lima_gp_soft_reset_async_wait hw base async_reset io =
     (if \<not> async_reset then (OK, async_reset, io)
      else
        let (err, io1) = readl_poll_timeout hw (base + LIMA_GP_INT_RAWSTAT)
              (\<lambda>v. v AND LIMA_GP_IRQ_RESET_COMPLETED \<noteq> 0) 100 io in
        (case err of
           E e \<Rightarrow> (E e, async_reset, io1)
         | OK \<Rightarrow>
             let io2 = writel LIMA_GP_IRQ_MASK_ALL (base + LIMA_GP_INT_CLEAR) io1;
                 io3 = writel LIMA_GP_IRQ_MASK_USED (base + LIMA_GP_INT_MASK) io2
             in (OK, False, io3)))"

definition lima_gp_hard_reset_poll :: "hw \<Rightarrow> u32 \<Rightarrow> io \<Rightarrow> bool \<times> io" where
  "lima_gp_hard_reset_poll hw base io =
     (let io1 = writel 0xC01A0000 (base + LIMA_GP_PERF_CNT_0_LIMIT) io;
          (v, io2) = readl hw (base + LIMA_GP_PERF_CNT_0_LIMIT) io1
      in (v = 0xC01A0000, io2))"

definition lima_gp_hard_reset :: "hw \<Rightarrow> u32 \<Rightarrow> io \<Rightarrow> (rc \<times> io) option" where
  "lima_gp_hard_reset hw base io =
     (let io1 = writel 0xC0FFE000 (base + LIMA_GP_PERF_CNT_0_LIMIT) io;
          io2 = writel 0 (base + LIMA_GP_INT_MASK) io1;
          io3 = writel LIMA_GP_CMD_RESET (base + LIMA_GP_CMD) io2 in do {
      (ret, io4) \<leftarrow> lima_poll_timeout hw (lima_gp_hard_reset_poll hw base) 10 100 io3;
      (case ret of
         E e \<Rightarrow> Some (E e, io4)
       | OK \<Rightarrow>
           let io5 = writel 0 (base + LIMA_GP_PERF_CNT_0_LIMIT) io4;
               io6 = writel LIMA_GP_IRQ_MASK_ALL (base + LIMA_GP_INT_CLEAR) io5;
               io7 = writel LIMA_GP_IRQ_MASK_USED (base + LIMA_GP_INT_MASK) io6
           in Some (OK, io7)) })"

section \<open>Jobs on the geometry processor\<close>

definition lima_gp_task_validate :: "lima_sched_task \<Rightarrow> rc" where
  "lima_gp_task_validate task =
     (let f = frame_word (t_frame task) in
      if f LIMA_GP_VSCL_START_ADDR > f LIMA_GP_VSCL_END_ADDR \<or>
         f LIMA_GP_PLBUCL_START_ADDR > f LIMA_GP_PLBUCL_END_ADDR \<or>
         f LIMA_GP_PLBU_ALLOC_START_ADDR > f LIMA_GP_PLBU_ALLOC_END_ADDR
      then E EINVAL
      else if f LIMA_GP_VSCL_START_ADDR = f LIMA_GP_VSCL_END_ADDR \<and>
              f LIMA_GP_PLBUCL_START_ADDR = f LIMA_GP_PLBUCL_END_ADDR
      then E EINVAL
      else OK)"

text \<open>The loop that looks for the heap of the job; null when an object is not in the address space.\<close>

fun gp_patch_heap :: "(nat \<Rightarrow> lima_bo) \<Rightarrow> nat list \<Rightarrow> lima_sched_task \<Rightarrow> lima_sched_task option" where
  "gp_patch_heap bos [] task = Some task"
| "gp_patch_heap bos (b # bs) task =
     (if bo_heap_size (bos b) \<noteq> 0 then do {
        va \<leftarrow> lima_vm_get_va (t_vm task) (bos b);
        (if va = frame_word (t_frame task) LIMA_GP_PLBU_ALLOC_START_ADDR then
           Some ((set_frame_word LIMA_GP_PLBU_ALLOC_END_ADDR
             (frame_word (t_frame task) LIMA_GP_PLBU_ALLOC_START_ADDR + ucast (bo_heap_size (bos b))) task)
               \<lparr>t_recoverable := True, t_heap := Some b\<rparr>)
         else gp_patch_heap bos bs task)
      } else gp_patch_heap bos bs task)"

definition gp_start_cmd :: "u32 list \<Rightarrow> u32" where
  "gp_start_cmd fr =
     (let f = frame_word fr;
          c1 = (if f LIMA_GP_VSCL_START_ADDR \<noteq> f LIMA_GP_VSCL_END_ADDR then LIMA_GP_CMD_START_VS else 0)
      in if f LIMA_GP_PLBUCL_START_ADDR \<noteq> f LIMA_GP_PLBUCL_END_ADDR
         then c1 OR LIMA_GP_CMD_START_PLBU else c1)"

definition lima_gp_task_run ::
  "hw \<Rightarrow> u32 \<Rightarrow> (nat \<Rightarrow> lima_bo) \<Rightarrow> lima_sched_task \<Rightarrow> bool \<Rightarrow> io \<Rightarrow>
   (lima_sched_task \<times> bool \<times> io) option" where
  "lima_gp_task_run hw base bos task async_reset io = do {
     task1 \<leftarrow> gp_patch_heap bos (t_bos task) task;
     let f = t_frame task1;
     let cmd = gp_start_cmd f;
     let (_, async1, io1) = lima_gp_soft_reset_async_wait hw base async_reset io;
     let io2 = fold (\<lambda>i. writel (f ! i) (base + LIMA_GP_VSCL_START_ADDR + of_nat i * 4))
                 [0..<LIMA_GP_FRAME_REG_NUM] io1;
     let io3 = writel LIMA_GP_CMD_UPDATE_PLBU_ALLOC (base + LIMA_GP_CMD) io2;
     let io4 = writel cmd (base + LIMA_GP_CMD) io3;
     Some (task1, async1, io4)
   }"

definition lima_gp_task_fini :: "u32 \<Rightarrow> bool \<Rightarrow> io \<Rightarrow> bool \<times> io" where
  "lima_gp_task_fini base async_reset io = lima_gp_soft_reset_async base async_reset io"

definition lima_gp_task_error :: "hw \<Rightarrow> u32 \<Rightarrow> io \<Rightarrow> io option" where
  "lima_gp_task_error hw base io =
     (let io1 = snd (readl hw (base + LIMA_GP_INT_STAT) io);
          io2 = snd (readl hw (base + LIMA_GP_STATUS) io1)
      in map_option snd (lima_gp_hard_reset hw base io2))"

text \<open>
  \<open>vm\<close> is the address space of the task. The result: the code, the task, the store of objects, the
  address space, the VM system and the history.
\<close>

definition lima_gp_task_recover ::
  "heap_env \<Rightarrow> u32 \<Rightarrow> lima_sched_task \<Rightarrow> (nat \<Rightarrow> lima_bo) \<Rightarrow> lima_vm \<Rightarrow> vmsys \<Rightarrow> io \<Rightarrow>
   (rc \<times> lima_sched_task \<times> (nat \<Rightarrow> lima_bo) \<times> lima_vm \<times> vmsys \<times> io) option" where
  "lima_gp_task_recover env base task bos vm s io = do {
     let f = frame_word (t_frame task);
     let fail_size = f LIMA_GP_PLBU_ALLOC_END_ADDR - f LIMA_GP_PLBU_ALLOC_START_ADDR;
     heap \<leftarrow> t_heap task;
     (ret, bos1, vm1, s1) \<leftarrow>
       (if ucast fail_size = bo_heap_size (bos heap) then do {
          (r, bo1, vmo, s1) \<leftarrow> lima_heap_alloc env (bos heap) (Some (t_vm task, vm)) s;
          Some (r, bos(heap := bo1), (case vmo of Some v \<Rightarrow> v | None \<Rightarrow> vm), s1)
        } else Some (OK, bos, vm, s));
     (case ret of
        E e \<Rightarrow> Some (E e, task, bos1, vm1, s1, io)
      | OK \<Rightarrow>
          let io1 = writel LIMA_GP_IRQ_MASK_USED (base + LIMA_GP_INT_MASK) io;
              io2 = writel (f LIMA_GP_PLBU_ALLOC_END_ADDR) (base + LIMA_GP_PLBU_ALLOC_START_ADDR) io1;
              new_end = f LIMA_GP_PLBU_ALLOC_START_ADDR + ucast (bo_heap_size (bos1 heap));
              task1 = set_frame_word LIMA_GP_PLBU_ALLOC_END_ADDR new_end task;
              io3 = writel (frame_word (t_frame task1) LIMA_GP_PLBU_ALLOC_END_ADDR)
                      (base + LIMA_GP_PLBU_ALLOC_END_ADDR) io2;
              io4 = writel LIMA_GP_CMD_UPDATE_PLBU_ALLOC (base + LIMA_GP_CMD) io3
          in Some (OK, task1, bos1, vm1, s1, io4))
   }"

section \<open>Bring-up\<close>

datatype gpu_name = mali200 | mali300 | mali400 | mali450 | unknown_gpu

definition lima_gp_print_version :: "hw \<Rightarrow> u32 \<Rightarrow> io \<Rightarrow> (gpu_name \<times> u32 \<times> u32) \<times> io" where
  "lima_gp_print_version hw base io =
     (let (version, io1) = readl hw (base + LIMA_GP_VERSION) io;
          major = drop_bit 8 version AND 0xFF; minor = version AND 0xFF; p = drop_bit 16 version;
          name = (if p = 0xA07 then mali200 else if p = 0xC07 then mali300
                  else if p = 0xB07 then mali400 else if p = 0xD07 then mali450 else unknown_gpu)
      in ((name, major, minor), io1))"

definition lima_gp_hw_init :: "hw \<Rightarrow> u32 \<Rightarrow> io \<Rightarrow> rc \<times> bool \<times> io" where
  "lima_gp_hw_init hw base io =
     (let (async1, io1) = lima_gp_soft_reset_async base False io
      in lima_gp_soft_reset_async_wait hw base async1 io1)"

definition lima_gp_resume :: "hw \<Rightarrow> u32 \<Rightarrow> io \<Rightarrow> rc \<times> bool \<times> io" where
  "lima_gp_resume hw base io = lima_gp_hw_init hw base io"

text \<open>The version read at the end is \<open>dev->gp_version\<close>.\<close>

definition lima_gp_init :: "hw \<Rightarrow> u32 \<Rightarrow> rc \<Rightarrow> io \<Rightarrow> rc \<times> bool \<times> u32 option \<times> io" where
  "lima_gp_init hw base request_irq io =
     (let (_, io1) = lima_gp_print_version hw base io;
          (err, async1, io2) = lima_gp_hw_init hw base io1 in
      case err of
        E e \<Rightarrow> (E e, async1, None, io2)
      | OK \<Rightarrow>
          (case request_irq of
             E e \<Rightarrow> (E e, async1, None, io2)
           | OK \<Rightarrow>
               let (v, io4) = readl hw (base + LIMA_GP_VERSION) (REQ_IRQ base # io2)
               in (OK, async1, Some v, io4)))"

text \<open>The task slab shared by all devices: whether it exists and how many pipes use it.\<close>

definition lima_gp_pipe_init :: "bool \<Rightarrow> bool \<times> int \<Rightarrow> rc \<times> bool \<times> int" where
  "lima_gp_pipe_init cache_create slab =
     (case slab of (exists, refcnt) \<Rightarrow>
      if \<not> exists \<and> \<not> cache_create then (E ENOMEM, False, refcnt)
      else (OK, True, refcnt + 1))"

definition lima_gp_pipe_fini :: "bool \<times> int \<Rightarrow> bool \<times> int" where
  "lima_gp_pipe_fini slab =
     (case slab of (exists, refcnt) \<Rightarrow> (if refcnt - 1 = 0 then False else exists, refcnt - 1))"

section \<open>Properties\<close>

lemma frame_index [simp]:
  "unat (drop_bit 2 LIMA_GP_VSCL_START_ADDR) = 0" "unat (drop_bit 2 LIMA_GP_VSCL_END_ADDR) = 1"
  "unat (drop_bit 2 LIMA_GP_PLBUCL_START_ADDR) = 2" "unat (drop_bit 2 LIMA_GP_PLBUCL_END_ADDR) = 3"
  "unat (drop_bit 2 LIMA_GP_PLBU_ALLOC_START_ADDR) = 4" "unat (drop_bit 2 LIMA_GP_PLBU_ALLOC_END_ADDR) = 5"
  by (simp_all add: regs unat_drop_bit_word)

lemma gp_patch_frame:
  "gp_patch_heap bos bs task = Some task1 \<Longrightarrow>
   List.length (t_frame task1) = List.length (t_frame task) \<and> (\<forall>i < 5. t_frame task1 ! i = t_frame task ! i)"
proof (induction bs)
  case (Cons b bs)
  show ?case
  proof (cases "bo_heap_size (bos b) \<noteq> 0 \<and> lima_vm_get_va (t_vm task) (bos b) =
      Some (frame_word (t_frame task) LIMA_GP_PLBU_ALLOC_START_ADDR)")
    case True
    then show ?thesis using Cons.prems by (auto simp: set_frame_word_def)
  next
    case False
    then have "gp_patch_heap bos bs task = Some task1" using Cons.prems
      by (auto simp: bind_eq_Some_conv split: if_splits)
    then show ?thesis by (rule Cons.IH)
  qed
qed simp

lemma gp_start_cmd_nonzero:
  assumes "lima_gp_task_validate task = OK"
  shows "gp_start_cmd (t_frame task) \<noteq> 0"
proof -
  have vs: "LIMA_GP_CMD_START_VS = 1" and pl: "LIMA_GP_CMD_START_PLBU = 2"
    by (simp_all add: regs BIT_def)
  have "(1 :: u32) OR 2 = 3" by simp
  then show ?thesis using assms
    by (auto simp: lima_gp_task_validate_def gp_start_cmd_def Let_def vs pl split: if_splits)
qed

lemma soft_reset_wait_writes:
  "lima_gp_soft_reset_async_wait hw base a io = (r, a', io') \<Longrightarrow>
   writes io' = writes io @ (if r = OK \<and> a then [(base + LIMA_GP_INT_CLEAR, LIMA_GP_IRQ_MASK_ALL),
       (base + LIMA_GP_INT_MASK, LIMA_GP_IRQ_MASK_USED)] else []) \<and> a' = (a \<and> r \<noteq> OK)"
  by (auto simp: lima_gp_soft_reset_async_wait_def Let_def split: if_splits prod.splits rc.splits
      dest: readl_poll_timeout_writes)

lemma fold_writel:
  "writes (fold (\<lambda>i. writel (v i) (a i)) is io) = writes io @ map (\<lambda>i. (a i, v i)) is"
  by (induction "is" arbitrary: io) simp_all

text \<open>
  C11: the start of a validated job. The six frame registers are written in order with the words of the
  frame, then the heap window is latched, and the last write is the start command, which is not zero:
  a validated job always starts the vertex shader or the tiler. The four words that were
  validated reach the hardware unchanged.
\<close>

theorem lima_gp_validated_job_starts:
  assumes "lima_gp_task_validate task = OK" and "List.length (t_frame task) = 6"
    and "lima_gp_task_run hw base bos task a io = Some (task1, a1, io')"
  shows "\<exists>reset cmd. writes io' = writes io @ reset @
      [(base, t_frame task ! 0), (base + 4, t_frame task ! 1), (base + 8, t_frame task ! 2),
       (base + 12, t_frame task ! 3), (base + 16, t_frame task ! 4), (base + 20, t_frame task1 ! 5),
       (base + LIMA_GP_CMD, LIMA_GP_CMD_UPDATE_PLBU_ALLOC), (base + LIMA_GP_CMD, cmd)] \<and> cmd \<noteq> 0 \<and>
    set reset \<subseteq> {(base + LIMA_GP_INT_CLEAR, LIMA_GP_IRQ_MASK_ALL), (base + LIMA_GP_INT_MASK, LIMA_GP_IRQ_MASK_USED)}"
proof -
  obtain r a2 io1 where w: "lima_gp_soft_reset_async_wait hw base a io = (r, a2, io1)" by (metis prod_cases3)
  from assms(3) have p: "gp_patch_heap bos (t_bos task) task = Some task1"
    and io': "io' = writel (gp_start_cmd (t_frame task1)) (base + LIMA_GP_CMD)
      (writel LIMA_GP_CMD_UPDATE_PLBU_ALLOC (base + LIMA_GP_CMD)
        (fold (\<lambda>i. writel (t_frame task1 ! i) (base + LIMA_GP_VSCL_START_ADDR + of_nat i * 4))
           [0..<LIMA_GP_FRAME_REG_NUM] io1))"
    by (auto simp: lima_gp_task_run_def bind_eq_Some_conv Let_def w)
  note fr = gp_patch_frame [OF p]
  have same: "t_frame task1 ! i = t_frame task ! i" if "i < 5" for i using fr that by blast
  have cmd: "gp_start_cmd (t_frame task1) = gp_start_cmd (t_frame task)"
    by (simp add: gp_start_cmd_def frame_word_def Let_def same)
  have six: "[0..<LIMA_GP_FRAME_REG_NUM] = [0, 1, 2, 3, 4, 5]" by (simp add: LIMA_GP_FRAME_REG_NUM_def upt_rec)
  have vs0: "LIMA_GP_VSCL_START_ADDR = 0" by (simp add: regs)
  have "writes io' = writes io @
      (if r = OK \<and> a then [(base + LIMA_GP_INT_CLEAR, LIMA_GP_IRQ_MASK_ALL),
       (base + LIMA_GP_INT_MASK, LIMA_GP_IRQ_MASK_USED)] else []) @
      [(base, t_frame task ! 0), (base + 4, t_frame task ! 1), (base + 8, t_frame task ! 2),
       (base + 12, t_frame task ! 3), (base + 16, t_frame task ! 4), (base + 20, t_frame task1 ! 5),
       (base + LIMA_GP_CMD, LIMA_GP_CMD_UPDATE_PLBU_ALLOC), (base + LIMA_GP_CMD, gp_start_cmd (t_frame task))]"
    unfolding io' six using soft_reset_wait_writes [OF w] same by (simp add: cmd vs0)
  moreover have "gp_start_cmd (t_frame task) \<noteq> 0" by (rule gp_start_cmd_nonzero [OF assms(1)])
  ultimately show ?thesis by (intro exI conjI) (assumption, assumption, auto)
qed

lemma heap_alloc_OK_size:
  assumes "lima_heap_alloc env bo vmo s = Some (OK, bo', v, s')"
  shows "bo_heap_size bo' = heap_new_size (he_init_nr_pages env) bo"
proof -
  obtain r1 pages s1 where h: "heap_read_pages (he_read_page env)
      [old_pages bo ..< new_pages (he_init_nr_pages env) bo] (heap_slots bo) s = (r1, pages, s1)"
    by (metis prod_cases3)
  show ?thesis
    using assms unfolding heap_alloc_eq [OF heap_alloc_OK_guards [OF assms] h refl]
    by (auto simp: bind_eq_Some_conv split: rc.splits if_splits sum.splits option.splits)
qed

text \<open>
  C12: recovery from an exhausted heap. After a success the processor is resumed on the window from the
  old end of the heap to its base plus the size of the heap object, and the frame remembers the new
  end; when the job had used the object to its end the object has grown, so the window is not empty.
\<close>

theorem lima_gp_recover_resumes_in_new_window:
  assumes r: "lima_gp_task_recover env base task bos vm s io = Some (OK, task1, bos1, vm1, s1, io')"
    and h: "t_heap task = Some b" and nz: "bo_heap_size (bos b) \<noteq> 0"
    and small: "unat (gem_size (bo_base (bos b))) < 2147483648"
    and st: "unat (frame_word (t_frame task) LIMA_GP_PLBU_ALLOC_START_ADDR) < 2147483648"
    and used: "ucast (frame_word (t_frame task) LIMA_GP_PLBU_ALLOC_END_ADDR
                - frame_word (t_frame task) LIMA_GP_PLBU_ALLOC_START_ADDR) = bo_heap_size (bos b)"
    and len: "List.length (t_frame task) = 6"
  shows "\<exists>new_end. writes io' = writes io @
      [(base + LIMA_GP_INT_MASK, LIMA_GP_IRQ_MASK_USED),
       (base + LIMA_GP_PLBU_ALLOC_START_ADDR, frame_word (t_frame task) LIMA_GP_PLBU_ALLOC_END_ADDR),
       (base + LIMA_GP_PLBU_ALLOC_END_ADDR, new_end),
       (base + LIMA_GP_CMD, LIMA_GP_CMD_UPDATE_PLBU_ALLOC)] \<and>
     new_end = frame_word (t_frame task) LIMA_GP_PLBU_ALLOC_START_ADDR + ucast (bo_heap_size (bos1 b)) \<and>
     frame_word (t_frame task1) LIMA_GP_PLBU_ALLOC_END_ADDR = new_end \<and>
     frame_word (t_frame task) LIMA_GP_PLBU_ALLOC_END_ADDR < new_end"
proof -
  let ?f = "frame_word (t_frame task)"
  let ?S = "?f LIMA_GP_PLBU_ALLOC_START_ADDR" and ?E = "?f LIMA_GP_PLBU_ALLOC_END_ADDR"
  from r h used obtain bo1 vmo where
    a: "lima_heap_alloc env (bos b) (Some (t_vm task, vm)) s = Some (OK, bo1, vmo, s1)"
    and b1: "bos1 = bos(b := bo1)"
    and t1: "task1 = set_frame_word LIMA_GP_PLBU_ALLOC_END_ADDR (?S + ucast (bo_heap_size bo1)) task"
    and io': "io' = writel LIMA_GP_CMD_UPDATE_PLBU_ALLOC (base + LIMA_GP_CMD)
      (writel (frame_word (t_frame task1) LIMA_GP_PLBU_ALLOC_END_ADDR) (base + LIMA_GP_PLBU_ALLOC_END_ADDR)
        (writel ?E (base + LIMA_GP_PLBU_ALLOC_START_ADDR)
          (writel LIMA_GP_IRQ_MASK_USED (base + LIMA_GP_INT_MASK) io)))"
    by (auto simp: lima_gp_task_recover_def bind_eq_Some_conv Let_def split: rc.splits)
  let ?old = "bo_heap_size (bos b)" and ?new = "bo_heap_size bo1"
  have lt: "?old < gem_size (bo_base (bos b))" by (rule heap_alloc_OK_guards(1) [OF a])
  have new: "?new = min (?old * 2) (gem_size (bo_base (bos b)))"
    using heap_alloc_OK_size [OF a] nz by (simp add: heap_new_size_def)
  have "unat ?old < 2147483648" using lt small by (simp add: word_less_nat_alt)
  then have "?old < ?old * 2" using nz by (intro doubled) (simp_all add: word_gt_0)
  then have grow: "unat ?old < unat ?new" using lt by (simp add: new min_def word_less_nat_alt)
  have newb: "unat ?new < 2147483648" using small by (simp add: new min_def word_le_nat_alt)
  have un: "unat (ucast ?new :: u32) = unat ?new" using newb by (simp add: unat_ucast_u64_u32)
  have e1: "frame_word (t_frame task1) LIMA_GP_PLBU_ALLOC_END_ADDR = ?S + ucast ?new"
    using len by (simp add: t1 set_frame_word_def frame_word_def)
  have "unat (?S + ucast ?new) = unat ?S + unat (ucast ?new :: u32)"
    by (rule unat_add_no_wrap32) (use un newb st in simp)
  then have ne: "unat (?S + ucast ?new) = unat ?S + unat ?new" by (simp only: un)
  have "unat (ucast (?E - ?S) :: u64) = unat (?E - ?S)" by (rule unat_ucast_u32_u64)
  then have d: "unat (?E - ?S) = unat ?old" using used by simp
  have "?E = ?S + (?E - ?S)" by simp
  moreover have "unat (?S + (?E - ?S)) = unat ?S + unat (?E - ?S)"
    by (rule unat_add_no_wrap32) (use d st \<open>unat ?old < 2147483648\<close> in simp)
  ultimately have "unat ?E = unat ?S + unat ?old" using d by simp
  then have "?E < ?S + ucast ?new" using ne grow by (simp add: word_less_nat_alt)
  then show ?thesis using e1 by (simp add: io' b1)
qed

text \<open>
  The soft reset of the geometry processor is asked for once however often it is requested, and a
  job or a bring-up that waits for it enables the interrupts it uses only when the reset was reported
  complete; otherwise the reset stays pending and the next job waits for it again.
\<close>

theorem lima_gp_soft_reset_once:
  "lima_gp_soft_reset_async base True io = (True, io) \<and>
   (case lima_gp_hw_init hw base io of
      (OK, pending, io') \<Rightarrow> \<not> pending \<and> writes io' = writes io @
        [(base + LIMA_GP_INT_MASK, 0), (base + LIMA_GP_INT_CLEAR, LIMA_GP_IRQ_RESET_COMPLETED),
         (base + LIMA_GP_CMD, LIMA_GP_CMD_SOFT_RESET),
         (base + LIMA_GP_INT_CLEAR, LIMA_GP_IRQ_MASK_ALL), (base + LIMA_GP_INT_MASK, LIMA_GP_IRQ_MASK_USED)]
    | (E e, pending, io') \<Rightarrow> pending \<and> writes io' = writes io @
        [(base + LIMA_GP_INT_MASK, 0), (base + LIMA_GP_INT_CLEAR, LIMA_GP_IRQ_RESET_COMPLETED),
         (base + LIMA_GP_CMD, LIMA_GP_CMD_SOFT_RESET)])"
proof -
  let ?io3 = "writel LIMA_GP_CMD_SOFT_RESET (base + LIMA_GP_CMD)
      (writel LIMA_GP_IRQ_RESET_COMPLETED (base + LIMA_GP_INT_CLEAR) (writel 0 (base + LIMA_GP_INT_MASK) io))"
  obtain r a io' where w: "lima_gp_soft_reset_async_wait hw base True ?io3 = (r, a, io')" by (metis prod_cases3)
  have "lima_gp_hw_init hw base io = (r, a, io')"
    using w by (simp add: lima_gp_hw_init_def lima_gp_soft_reset_async_def Let_def)
  then show ?thesis using soft_reset_wait_writes [OF w]
    by (cases r) (auto simp: lima_gp_soft_reset_async_def)
qed

section \<open>A concrete job\<close>

definition demo_gp_hw :: hw where
  "demo_gp_hw = \<lparr>hw_read = (\<lambda>_ _. 0), hw_time = (\<lambda>h. int (List.length h))\<rparr>"

definition demo_gp_task :: lima_sched_task where
  "demo_gp_task = \<lparr>t_vm = 3, t_frame = [0x100, 0x200, 0x300, 0x300, 0x10000, 0x11000], t_bos = [],
     t_recoverable = True, t_heap = Some 0, t_fence = None\<rparr>"

theorem lima_gp_validated_job_starts_witness:
  "lima_gp_task_validate demo_gp_task = OK \<and>
   (\<exists>t a io' pre cmd. lima_gp_task_run demo_gp_hw 0x1000 (\<lambda>_. demo_heap) demo_gp_task False [] = Some (t, a, io') \<and>
      writes io' = pre @ [(0x1020, cmd)] \<and> cmd \<noteq> 0)"
proof -
  have v: "lima_gp_task_validate demo_gp_task = OK"
    by (simp add: lima_gp_task_validate_def demo_gp_task_def frame_word_def Let_def)
  have l: "List.length (t_frame demo_gp_task) = 6" by (simp add: demo_gp_task_def)
  obtain t a io' where r: "lima_gp_task_run demo_gp_hw 0x1000 (\<lambda>_. demo_heap) demo_gp_task False [] = Some (t, a, io')"
    by (simp add: lima_gp_task_run_def demo_gp_task_def lima_gp_soft_reset_async_wait_def Let_def) blast
  have c: "(0x1000 :: u32) + LIMA_GP_CMD = 0x1020" by (simp add: regs)
  from lima_gp_validated_job_starts [OF v l r] obtain reset cmd where
    w: "writes io' = (reset @ [(0x1000, t_frame demo_gp_task ! 0), (0x1000 + 4, t_frame demo_gp_task ! 1),
       (0x1000 + 8, t_frame demo_gp_task ! 2), (0x1000 + 12, t_frame demo_gp_task ! 3),
       (0x1000 + 16, t_frame demo_gp_task ! 4), (0x1000 + 20, t_frame t ! 5),
       (0x1020, LIMA_GP_CMD_UPDATE_PLBU_ALLOC)]) @ [(0x1020, cmd)]" and nz: "cmd \<noteq> 0"
    unfolding c by auto
  show ?thesis using v r w nz by blast
qed

definition demo_used_heap :: lima_bo where
  "demo_used_heap = demo_heap\<lparr>bo_heap_size := 4096,
     bo_base := (shmem_new 8192 True)\<lparr>sh_pages := Some [Some 7, None], sh_pages_use_count := 1, sh_sgt := Some [0x5000]\<rparr>\<rparr>"

definition demo_grow_env :: heap_env where
  "demo_grow_env = demo_heap_env\<lparr>he_dma_map := Inr [0x5000, 0x6000]\<rparr>"

lemma demo_recover:
  "\<exists>t bos1 vm1 s1 io'. lima_gp_task_recover demo_grow_env 0x1000 demo_gp_task (\<lambda>_. demo_used_heap)
     (vm_blank 0x1000) demo_vmsys [] = Some (OK, t, bos1, vm1, s1, io')"
proof -
  have m: "lima_vm_map_page demo_alloc 0x6000 0x11000 (vm_blank 0x1000) =
      (OK, snd (lima_vm_map_page demo_alloc 0x6000 0x11000 (vm_blank 0x1000)))"
    by (simp add: lima_vm_map_page_def demo_alloc_def vm_blank_def UINT32_MAX_def LIMA_PAGE_SIZE_def
        vm_geometry Let_def)
  then obtain vm1 where m1: "lima_vm_map_page demo_alloc 0x6000 0x11000 (vm_blank 0x1000) = (OK, vm1)" by blast
  have sz: "heap_new_size (he_init_nr_pages demo_grow_env) demo_used_heap = 8192"
    by (simp add: heap_new_size_def demo_used_heap_def shmem_new_def)
  have "old_pages demo_used_heap = 1" "new_pages (he_init_nr_pages demo_grow_env) demo_used_heap = 2"
    unfolding sz by (simp_all add: demo_used_heap_def unat_drop_bit_word PAGE_SHIFT_def)
  then have ix: "[old_pages demo_used_heap ..< new_pages (he_init_nr_pages demo_grow_env) demo_used_heap] = [1]"
    by (simp add: upt_rec)
  have h: "heap_read_pages (he_read_page demo_grow_env)
      [old_pages demo_used_heap ..< new_pages (he_init_nr_pages demo_grow_env) demo_used_heap]
      (heap_slots demo_used_heap) demo_vmsys = (OK, [Some 7, Some 8], wire_page 8 demo_vmsys)"
    unfolding ix by (simp add: heap_slots_def demo_used_heap_def demo_grow_env_def demo_heap_env_def)
  have g: "bo_heap_size demo_used_heap < gem_size (bo_base demo_used_heap)" "gem_filp (bo_base demo_used_heap)"
    "sh_pages (bo_base demo_used_heap) = None \<longrightarrow> he_kvmalloc demo_grow_env"
    by (simp_all add: demo_used_heap_def shmem_new_def)
  let ?b1 = "set_shmem (\<lambda>b. b\<lparr>sh_pages := Some [Some 7, Some 8]\<rparr>) (heap_base0 demo_used_heap)"
  let ?b2 = "set_shmem (\<lambda>b. b\<lparr>sh_sgt := Some [0x5000, 0x6000]\<rparr>) ?b1"
  have va: "bo_va (heap_base0 demo_used_heap) = [new_va 3 0x10000 8192]"
    by (simp add: heap_base0_def demo_used_heap_def demo_heap_def)
  have one: "old_pages demo_used_heap = 1" by (simp add: demo_used_heap_def unat_drop_bit_word PAGE_SHIFT_def)
  have "lima_vm_map_bo demo_alloc 3 (old_pages demo_used_heap) (vm_blank 0x1000) ?b2 = Some (OK, vm1)"
    unfolding one by (simp add: lima_vm_map_bo_def va new_va_def map_pages_def map_step_def m1 PAGE_SHIFT_def)
  then have "\<exists>bo1 v s1. lima_heap_alloc demo_grow_env demo_used_heap (Some (3, vm_blank 0x1000)) demo_vmsys =
      Some (OK, bo1, v, s1)"
    unfolding heap_alloc_eq [OF g h refl]
    by (simp add: demo_grow_env_def demo_heap_env_def demo_used_heap_def)
  then obtain bo1 v s1 where a: "lima_heap_alloc demo_grow_env demo_used_heap (Some (3, vm_blank 0x1000)) demo_vmsys =
      Some (OK, bo1, v, s1)" by blast
  have hs: "bo_heap_size demo_used_heap = 4096" by (simp add: demo_used_heap_def)
  show ?thesis using a
    by (simp add: lima_gp_task_recover_def demo_gp_task_def frame_word_def hs Let_def)
qed

theorem lima_gp_recover_resumes_in_new_window_witness:
  "\<exists>t bos1 vm1 s1 io' new_end. lima_gp_task_recover demo_grow_env 0x1000 demo_gp_task (\<lambda>_. demo_used_heap)
     (vm_blank 0x1000) demo_vmsys [] = Some (OK, t, bos1, vm1, s1, io') \<and>
     frame_word (t_frame t) LIMA_GP_PLBU_ALLOC_END_ADDR = new_end \<and> 0x11000 < new_end"
proof -
  obtain t bos1 vm1 s1 io' where r: "lima_gp_task_recover demo_grow_env 0x1000 demo_gp_task (\<lambda>_. demo_used_heap)
     (vm_blank 0x1000) demo_vmsys [] = Some (OK, t, bos1, vm1, s1, io')" using demo_recover by blast
  have e: "frame_word (t_frame demo_gp_task) LIMA_GP_PLBU_ALLOC_END_ADDR = 0x11000"
    by (simp add: demo_gp_task_def frame_word_def)
  show ?thesis
    using lima_gp_recover_resumes_in_new_window [OF r, of 0] r
    by (simp add: demo_gp_task_def frame_word_def demo_used_heap_def shmem_new_def) 
qed

end
