(* ===== verification/Lima_MMU.thy ===== *)
theory Lima_MMU
  imports Lima_IP Lima_VM_Spec
begin

text \<open>
  The MMU blocks (\<open>lima_mmu.c\<close>): commands with their polls, the interrupt handler, bring-up,
  switching of the address space. Every function takes the device's history of register accesses and
  returns it extended.
\<close>

section \<open>Functions\<close>

definition lima_mmu_send_command ::
  "hw \<Rightarrow> u32 \<Rightarrow> u32 \<Rightarrow> u32 \<Rightarrow> (u32 \<Rightarrow> bool) \<Rightarrow> io \<Rightarrow> rc \<times> io" where
  "lima_mmu_send_command hw base cmd addr cond io =
     readl_poll_timeout hw (base + addr) cond 100 (writel cmd (base + LIMA_MMU_COMMAND) io)"

datatype irqreturn = IRQ_NONE | IRQ_HANDLED

datatype lima_pipe_id = lima_pipe_gp | lima_pipe_pp

text \<open>What the handler says about a page fault.\<close>

datatype fault_note = NO_CURRENT_VM | NO_BACKING_TABLE | PTE_IS_ZERO | PTE_PRESENT u32

definition mmu_pipe :: "lima_ip_id \<Rightarrow> lima_pipe_id" where
  "mmu_pipe i = (if i = lima_ip_gpmmu then lima_pipe_gp else lima_pipe_pp)"

definition fault_diagnosis :: "lima_vm option \<Rightarrow> u32 \<Rightarrow> fault_note" where
  "fault_diagnosis current_vm fault =
     (case current_vm of
        None \<Rightarrow> NO_CURRENT_VM
      | Some vm \<Rightarrow>
          let (pte, bt_present) = lima_vm_probe_pte vm fault in
          if \<not> bt_present then NO_BACKING_TABLE
          else if pte = 0 then PTE_IS_ZERO
          else PTE_PRESENT pte)"

text \<open>
  The result: the return value, the diagnosis of a page fault, the pipe whose
  \<open>lima_sched_pipe_mmu_error\<close> is called, and the history.
\<close>

definition lima_mmu_irq_handler ::
  "hw \<Rightarrow> lima_dev \<Rightarrow> (lima_pipe_id \<Rightarrow> lima_vm option) \<Rightarrow> lima_ip_id \<Rightarrow> io \<Rightarrow>
   irqreturn \<times> fault_note option \<times> lima_pipe_id option \<times> io" where
  "lima_mmu_irq_handler hw dev current_vm i io =
     (let base = d_base dev i; (status, io1) = readl hw (base + LIMA_MMU_INT_STATUS) io in
      if status = 0 then (IRQ_NONE, None, None, io1)
      else
        let (note, io2) =
              (if status AND LIMA_MMU_INT_PAGE_FAULT \<noteq> 0 then
                 let (fault, io2) = readl hw (base + LIMA_MMU_PAGE_FAULT_ADDR) io1
                 in (Some (fault_diagnosis (current_vm (mmu_pipe i)) fault), io2)
               else (None, io1));
            io3 = writel 0 (base + LIMA_MMU_INT_MASK) io2;
            io4 = writel status (base + LIMA_MMU_INT_CLEAR) io3
        in (IRQ_HANDLED, note, Some (mmu_pipe i), io4))"

definition lima_mmu_hw_init :: "hw \<Rightarrow> lima_dev \<Rightarrow> lima_ip_id \<Rightarrow> io \<Rightarrow> rc \<times> io" where
  "lima_mmu_hw_init hw dev i io =
     (let base = d_base dev i;
          io1 = writel LIMA_MMU_COMMAND_HARD_RESET (base + LIMA_MMU_COMMAND) io;
          (err, io2) = lima_mmu_send_command hw base LIMA_MMU_COMMAND_HARD_RESET
                         LIMA_MMU_DTE_ADDR (\<lambda>v. v = 0) io1 in
      case err of
        E e \<Rightarrow> (E e, io2)
      | OK \<Rightarrow>
          let io3 = writel (LIMA_MMU_INT_PAGE_FAULT OR LIMA_MMU_INT_READ_BUS_ERROR)
                      (base + LIMA_MMU_INT_MASK) io2;
              io4 = writel (ucast (d_empty_pd dev)) (base + LIMA_MMU_DTE_ADDR) io3
          in lima_mmu_send_command hw base LIMA_MMU_COMMAND_ENABLE_PAGING LIMA_MMU_STATUS
               (\<lambda>v. v AND LIMA_MMU_STATUS_PAGING_ENABLED \<noteq> 0) io4)"

definition lima_mmu_resume :: "hw \<Rightarrow> lima_dev \<Rightarrow> lima_ip_id \<Rightarrow> io \<Rightarrow> rc \<times> io" where
  "lima_mmu_resume hw dev i io =
     (if i = lima_ip_ppmmu_bcast then (OK, io) else lima_mmu_hw_init hw dev i io)"

text \<open>\<open>request_irq\<close> is the answer of \<open>devm_request_irq\<close> for the block.\<close>

definition lima_mmu_init :: "hw \<Rightarrow> lima_dev \<Rightarrow> rc \<Rightarrow> lima_ip_id \<Rightarrow> io \<Rightarrow> rc \<times> io" where
  "lima_mmu_init hw dev request_irq i io =
     (if i = lima_ip_ppmmu_bcast then (OK, io)
      else
        let base = d_base dev i;
            io1 = writel 0xCAFEBABE (base + LIMA_MMU_DTE_ADDR) io;
            (v, io2) = readl hw (base + LIMA_MMU_DTE_ADDR) io1 in
        if v \<noteq> 0xCAFEB000 then (E EIO, io2)
        else
          let io3 = writel 0 (base + LIMA_MMU_INT_MASK) io2;
              io4 = writel (LIMA_MMU_INT_PAGE_FAULT OR LIMA_MMU_INT_READ_BUS_ERROR)
                      (base + LIMA_MMU_INT_CLEAR) io3 in
          case request_irq of
            E e \<Rightarrow> (E e, io4)
          | OK \<Rightarrow> lima_mmu_hw_init hw dev i (REQ_IRQ base # io4))"

definition lima_mmu_flush_tlb :: "lima_dev \<Rightarrow> lima_ip_id \<Rightarrow> io \<Rightarrow> io" where
  "lima_mmu_flush_tlb dev i io = writel LIMA_MMU_COMMAND_ZAP_CACHE (d_base dev i + LIMA_MMU_COMMAND) io"

definition lima_mmu_switch_vm :: "hw \<Rightarrow> lima_dev \<Rightarrow> lima_ip_id \<Rightarrow> lima_vm \<Rightarrow> io \<Rightarrow> io" where
  "lima_mmu_switch_vm hw dev i vm io =
     (let base = d_base dev i;
          io1 = snd (lima_mmu_send_command hw base LIMA_MMU_COMMAND_ENABLE_STALL LIMA_MMU_STATUS
                  (\<lambda>v. v AND LIMA_MMU_STATUS_STALL_ACTIVE \<noteq> 0) io);
          io2 = writel (ucast (vp_dma (vm_pd vm))) (base + LIMA_MMU_DTE_ADDR) io1;
          io3 = writel LIMA_MMU_COMMAND_ZAP_CACHE (base + LIMA_MMU_COMMAND) io2
      in snd (lima_mmu_send_command hw base LIMA_MMU_COMMAND_DISABLE_STALL LIMA_MMU_STATUS
           (\<lambda>v. v AND LIMA_MMU_STATUS_STALL_ACTIVE = 0) io3))"

definition lima_mmu_page_fault_resume :: "hw \<Rightarrow> lima_dev \<Rightarrow> lima_ip_id \<Rightarrow> io \<Rightarrow> io" where
  "lima_mmu_page_fault_resume hw dev i io =
     (let base = d_base dev i; (status, io1) = readl hw (base + LIMA_MMU_STATUS) io in
      if status AND LIMA_MMU_STATUS_PAGE_FAULT_ACTIVE \<noteq> 0 then
        let io2 = writel 0 (base + LIMA_MMU_INT_MASK) io1;
            io3 = writel 0xCAFEBABE (base + LIMA_MMU_DTE_ADDR) io2;
            io4 = snd (lima_mmu_send_command hw base LIMA_MMU_COMMAND_HARD_RESET
                    LIMA_MMU_DTE_ADDR (\<lambda>v. v = 0) io3);
            io5 = writel (LIMA_MMU_INT_PAGE_FAULT OR LIMA_MMU_INT_READ_BUS_ERROR)
                    (base + LIMA_MMU_INT_MASK) io4;
            io6 = writel (ucast (d_empty_pd dev)) (base + LIMA_MMU_DTE_ADDR) io5
        in snd (lima_mmu_send_command hw base LIMA_MMU_COMMAND_ENABLE_PAGING LIMA_MMU_STATUS
             (\<lambda>v. v AND LIMA_MMU_STATUS_PAGING_ENABLED \<noteq> 0) io6)
      else io1)"

section \<open>What a command does to the history\<close>

lemma poll_shape:
  "readl_poll_timeout hw a cond us io = (r, io') \<Longrightarrow>
   \<exists>new. io' = new @ io \<and> set new \<subseteq> {RD a, DELAY} \<and> new \<noteq> []"
proof (induction us arbitrary: io)
  case 0
  then show ?case by (cases rule: readl_poll_timeout_cases) auto
next
  case (Suc us)
  from Suc.prems show ?case
  proof (cases rule: readl_poll_timeout_cases)
    case again
    then obtain new where "io' = new @ DELAY # RD a # io" "set new \<subseteq> {RD a, DELAY}"
      using Suc.IH by fastforce
    then show ?thesis by (intro exI [of _ "new @ [DELAY, RD a]"]) auto
  qed auto
qed

lemma poll_result: "readl_poll_timeout hw a cond us io = (r, io') \<Longrightarrow> r \<in> {OK, E ETIMEDOUT}"
proof (induction us arbitrary: io)
  case 0
  then show ?case by (cases rule: readl_poll_timeout_cases) auto
next
  case (Suc us)
  from Suc.prems show ?case by (cases rule: readl_poll_timeout_cases) (auto dest: Suc.IH)
qed

lemma send_command_shape:
  "lima_mmu_send_command hw base cmd addr cond io = (r, io') \<Longrightarrow>
   \<exists>new. io' = new @ WR (base + LIMA_MMU_COMMAND) cmd # io \<and> set new \<subseteq> {RD (base + addr), DELAY} \<and>
     r \<in> {OK, E ETIMEDOUT} \<and> (r = OK \<longrightarrow> (\<exists>h. cond (hw_read hw h (base + addr)) \<and> io' = RD (base + addr) # h))"
  unfolding lima_mmu_send_command_def
  by (frule poll_shape, frule poll_result, cases r) (auto simp: writel_def dest: readl_poll_timeout_OK)

lemma send_command_writes:
  "lima_mmu_send_command hw base cmd addr cond io = (r, io') \<Longrightarrow>
   writes io' = writes io @ [(base + LIMA_MMU_COMMAND, cmd)]"
  unfolding lima_mmu_send_command_def by (drule readl_poll_timeout_writes) simp

lemma send_command_reads:
  "lima_mmu_send_command hw base cmd addr cond io = (r, io') \<Longrightarrow>
   reads_of (base + addr) io' \<le> reads_of (base + addr) io + 100"
  unfolding lima_mmu_send_command_def by (drule readl_poll_timeout_bound) (simp add: writel_def)

section \<open>Properties\<close>

text \<open>The initialisation of the hardware requests no interrupt.\<close>

lemma hw_init_quiet:
  assumes i: "lima_mmu_hw_init hw dev i h = (q, h')"
  shows "\<exists>later. h' = later @ h \<and> (\<forall>e \<in> set later. e \<noteq> REQ_IRQ (d_base dev i))"
proof -
  let ?b = "d_base dev i"
  let ?h1 = "writel LIMA_MMU_COMMAND_HARD_RESET (?b + LIMA_MMU_COMMAND) h"
  obtain err h2 where s: "lima_mmu_send_command hw ?b LIMA_MMU_COMMAND_HARD_RESET
      LIMA_MMU_DTE_ADDR (\<lambda>v. v = 0) ?h1 = (err, h2)" by force
  from send_command_shape [OF s] obtain n1 where n1:
    "h2 = n1 @ WR (?b + LIMA_MMU_COMMAND) LIMA_MMU_COMMAND_HARD_RESET # ?h1"
    "set n1 \<subseteq> {RD (?b + LIMA_MMU_DTE_ADDR), DELAY}" by blast
  show ?thesis
  proof (cases err)
    case (E e)
    then have "h' = h2" using i s by (simp add: lima_mmu_hw_init_def Let_def)
    then show ?thesis using n1 by (auto simp: writel_def)
  next
    case OK
    let ?h4 = "writel (ucast (d_empty_pd dev)) (?b + LIMA_MMU_DTE_ADDR)
        (writel (LIMA_MMU_INT_PAGE_FAULT OR LIMA_MMU_INT_READ_BUS_ERROR) (?b + LIMA_MMU_INT_MASK) h2)"
    have "lima_mmu_send_command hw ?b LIMA_MMU_COMMAND_ENABLE_PAGING LIMA_MMU_STATUS
        (\<lambda>v. v AND LIMA_MMU_STATUS_PAGING_ENABLED \<noteq> 0) ?h4 = (q, h')"
      using i s OK by (simp add: lima_mmu_hw_init_def Let_def)
    from send_command_shape [OF this] obtain n2 where
      "h' = n2 @ WR (?b + LIMA_MMU_COMMAND) LIMA_MMU_COMMAND_ENABLE_PAGING # ?h4"
      "set n2 \<subseteq> {RD (?b + LIMA_MMU_STATUS), DELAY}" by blast
    then show ?thesis using n1 by (auto simp: writel_def)
  qed
qed

text \<open>
  C10: bring-up of an MMU never enables its interrupt line before the device was told to be quiet: if
  the line was requested, the two accesses right before it are the write of 0 to the mask register and
  the write that clears both interrupt sources, and the requesting happened after the test of the
  directory register read back the expected pattern.
\<close>

theorem lima_mmu_init_quiet_before_irq:
  assumes "lima_mmu_init hw dev request_irq i io = (r, io')"
    and "REQ_IRQ (d_base dev i) \<in> set io'" and "REQ_IRQ (d_base dev i) \<notin> set io"
  shows "\<exists>later. io' = later @
      [REQ_IRQ (d_base dev i),
       WR (d_base dev i + LIMA_MMU_INT_CLEAR) (LIMA_MMU_INT_PAGE_FAULT OR LIMA_MMU_INT_READ_BUS_ERROR),
       WR (d_base dev i + LIMA_MMU_INT_MASK) 0,
       RD (d_base dev i + LIMA_MMU_DTE_ADDR),
       WR (d_base dev i + LIMA_MMU_DTE_ADDR) 0xCAFEBABE] @ io \<and>
     REQ_IRQ (d_base dev i) \<notin> set later \<and>
     hw_read hw (WR (d_base dev i + LIMA_MMU_DTE_ADDR) 0xCAFEBABE # io) (d_base dev i + LIMA_MMU_DTE_ADDR) = 0xCAFEB000"
proof -
  let ?b = "d_base dev i"
  let ?pre = "[REQ_IRQ ?b,
       WR (?b + LIMA_MMU_INT_CLEAR) (LIMA_MMU_INT_PAGE_FAULT OR LIMA_MMU_INT_READ_BUS_ERROR),
       WR (?b + LIMA_MMU_INT_MASK) 0, RD (?b + LIMA_MMU_DTE_ADDR),
       WR (?b + LIMA_MMU_DTE_ADDR) 0xCAFEBABE] @ io"
  show ?thesis
  proof (cases "i = lima_ip_ppmmu_bcast \<or>
      hw_read hw (WR (?b + LIMA_MMU_DTE_ADDR) 0xCAFEBABE # io) (?b + LIMA_MMU_DTE_ADDR) \<noteq> 0xCAFEB000 \<or> request_irq \<noteq> OK")
    case True
    then show ?thesis using assms
      by (auto simp: lima_mmu_init_def Let_def readl_def writel_def split: rc.splits if_splits)
  next
    case False
    then have "lima_mmu_hw_init hw dev i ?pre = (r, io')"
      using assms(1) by (simp add: lima_mmu_init_def readl_def writel_def Let_def)
    from hw_init_quiet [OF this] False show ?thesis by auto
  qed
qed

text \<open>
  switching the address space of an MMU writes, in this order and whatever the device answers:
  stall, the page directory of the address space, zap of the TLB, end of stall. It polls the status at
  most 200 times.
\<close>

theorem lima_mmu_switch_vm_sequence:
  "writes (lima_mmu_switch_vm hw dev i vm io) = writes io @
     [(d_base dev i + LIMA_MMU_COMMAND, LIMA_MMU_COMMAND_ENABLE_STALL),
      (d_base dev i + LIMA_MMU_DTE_ADDR, ucast (vp_dma (vm_pd vm))),
      (d_base dev i + LIMA_MMU_COMMAND, LIMA_MMU_COMMAND_ZAP_CACHE),
      (d_base dev i + LIMA_MMU_COMMAND, LIMA_MMU_COMMAND_DISABLE_STALL)] \<and>
   reads_of (d_base dev i + LIMA_MMU_STATUS) (lima_mmu_switch_vm hw dev i vm io)
     \<le> reads_of (d_base dev i + LIMA_MMU_STATUS) io + 200"
proof -
  let ?b = "d_base dev i"
  obtain r1 io1 where s1: "lima_mmu_send_command hw ?b LIMA_MMU_COMMAND_ENABLE_STALL LIMA_MMU_STATUS
      (\<lambda>v. v AND LIMA_MMU_STATUS_STALL_ACTIVE \<noteq> 0) io = (r1, io1)" by force
  let ?io3 = "writel LIMA_MMU_COMMAND_ZAP_CACHE (?b + LIMA_MMU_COMMAND)
      (writel (ucast (vp_dma (vm_pd vm))) (?b + LIMA_MMU_DTE_ADDR) io1)"
  obtain r2 io2 where s2: "lima_mmu_send_command hw ?b LIMA_MMU_COMMAND_DISABLE_STALL LIMA_MMU_STATUS
      (\<lambda>v. v AND LIMA_MMU_STATUS_STALL_ACTIVE = 0) ?io3 = (r2, io2)" by force
  have "lima_mmu_switch_vm hw dev i vm io = io2"
    by (simp add: lima_mmu_switch_vm_def Let_def s1 s2)
  moreover have "reads_of (?b + LIMA_MMU_STATUS) ?io3 = reads_of (?b + LIMA_MMU_STATUS) io1"
    by (simp add: writel_def)
  ultimately show ?thesis
    using send_command_writes [OF s1] send_command_writes [OF s2] send_command_reads [OF s1] send_command_reads [OF s2]
    by simp
qed

text \<open>
  An MMU that comes up reports success only after it was read with paging enabled, with the
  directory register written to the empty address space after the reset; a reset that is not
  acknowledged is reported as a timeout and paging is not asked for.
\<close>

theorem lima_mmu_hw_init_paging:
  "(case lima_mmu_hw_init hw dev i io of
      (OK, io') \<Rightarrow> (\<exists>h. io' = RD (d_base dev i + LIMA_MMU_STATUS) # h \<and>
          hw_read hw h (d_base dev i + LIMA_MMU_STATUS) AND LIMA_MMU_STATUS_PAGING_ENABLED \<noteq> 0) \<and>
        writes io' = writes io @
          [(d_base dev i + LIMA_MMU_COMMAND, LIMA_MMU_COMMAND_HARD_RESET),
           (d_base dev i + LIMA_MMU_COMMAND, LIMA_MMU_COMMAND_HARD_RESET),
           (d_base dev i + LIMA_MMU_INT_MASK, LIMA_MMU_INT_PAGE_FAULT OR LIMA_MMU_INT_READ_BUS_ERROR),
           (d_base dev i + LIMA_MMU_DTE_ADDR, ucast (d_empty_pd dev)),
           (d_base dev i + LIMA_MMU_COMMAND, LIMA_MMU_COMMAND_ENABLE_PAGING)]
    | (E e, io') \<Rightarrow> e = ETIMEDOUT)"
proof -
  let ?b = "d_base dev i"
  let ?h1 = "writel LIMA_MMU_COMMAND_HARD_RESET (?b + LIMA_MMU_COMMAND) io"
  obtain err h2 where s: "lima_mmu_send_command hw ?b LIMA_MMU_COMMAND_HARD_RESET
      LIMA_MMU_DTE_ADDR (\<lambda>v. v = 0) ?h1 = (err, h2)" by force
  show ?thesis
  proof (cases err)
    case (E e)
    then show ?thesis using send_command_shape [OF s] s by (auto simp: lima_mmu_hw_init_def Let_def)
  next
    case OK
    let ?h4 = "writel (ucast (d_empty_pd dev)) (?b + LIMA_MMU_DTE_ADDR)
        (writel (LIMA_MMU_INT_PAGE_FAULT OR LIMA_MMU_INT_READ_BUS_ERROR) (?b + LIMA_MMU_INT_MASK) h2)"
    obtain q h' where s2: "lima_mmu_send_command hw ?b LIMA_MMU_COMMAND_ENABLE_PAGING LIMA_MMU_STATUS
        (\<lambda>v. v AND LIMA_MMU_STATUS_PAGING_ENABLED \<noteq> 0) ?h4 = (q, h')" by force
    have "lima_mmu_hw_init hw dev i io = (q, h')" using s OK s2 by (simp add: lima_mmu_hw_init_def Let_def)
    then show ?thesis
      using send_command_shape [OF s2] send_command_writes [OF s2] send_command_writes [OF s]
      by (cases q) auto
  qed
qed

text \<open>
  the interrupt handler leaves a block that raised nothing alone, and otherwise first masks every
  interrupt, then clears exactly the sources it read, and hands the error to the pipe of the block.
\<close>

theorem lima_mmu_irq_masks_then_clears:
  "(let st = hw_read hw io (d_base dev i + LIMA_MMU_INT_STATUS);
        (ret, note, pipe, io') = lima_mmu_irq_handler hw dev cur i io in
    (if st = 0 then ret = IRQ_NONE \<and> pipe = None \<and> writes io' = writes io
     else ret = IRQ_HANDLED \<and> pipe = Some (if i = lima_ip_gpmmu then lima_pipe_gp else lima_pipe_pp) \<and>
       (note \<noteq> None) = (st AND LIMA_MMU_INT_PAGE_FAULT \<noteq> 0) \<and>
       writes io' = writes io @ [(d_base dev i + LIMA_MMU_INT_MASK, 0), (d_base dev i + LIMA_MMU_INT_CLEAR, st)]))"
  by (simp add: lima_mmu_irq_handler_def Let_def readl_def mmu_pipe_def)

text \<open>A device that answers the test pattern and then 0 to every poll of the directory register.\<close>

definition demo_hw :: hw where
  "demo_hw = \<lparr>hw_read = (\<lambda>h a. if h = [WR 0x3000 0xCAFEBABE] then 0xCAFEB000 else if a = 0x3004 then 1 else 0),
     hw_time = (\<lambda>h. int (List.length h))\<rparr>"

definition demo_dev :: lima_dev where
  "demo_dev = \<lparr>d_id = lima_gpu_mali400, d_present = (\<lambda>i. i \<in> {lima_ip_pmu, lima_ip_gp, lima_ip_gpmmu,
       lima_ip_pp0, lima_ip_pp1, lima_ip_l2_cache0}),
     d_base = (\<lambda>i. if i = lima_ip_pmu then 0x2000 else 0x3000), d_empty_pd = 0x9000\<rparr>"

theorem lima_mmu_init_quiet_before_irq_witness:
  "\<exists>later. snd (lima_mmu_init demo_hw demo_dev OK lima_ip_gpmmu []) =
     later @ [REQ_IRQ 0x3000, WR 0x3018 3, WR 0x301C 0, RD 0x3000, WR 0x3000 0xCAFEBABE]"
proof -
  obtain r io' where i: "lima_mmu_init demo_hw demo_dev OK lima_ip_gpmmu [] = (r, io')" by force
  have b: "d_base demo_dev lima_ip_gpmmu = 0x3000" by (simp add: demo_dev_def)
  have "io' = [RD 0x3004, WR 0x3008 0, WR 0x3000 0x9000, WR 0x301C 3, RD 0x3000, WR 0x3008 6, WR 0x3008 6,
      REQ_IRQ 0x3000, WR 0x3018 3, WR 0x301C 0, RD 0x3000, WR 0x3000 0xCAFEBABE]"
    using i
    by (simp add: lima_mmu_init_def lima_mmu_hw_init_def lima_mmu_send_command_def demo_hw_def demo_dev_def
        readl_def writel_def readl_poll_timeout_step regs BIT_def Let_def split: if_splits)
  then have "REQ_IRQ (d_base demo_dev lima_ip_gpmmu) \<in> set io'" by (simp add: b)
  from lima_mmu_init_quiet_before_irq [OF i this] show ?thesis
    using i by (auto simp: b regs BIT_def)
qed

end
