(* ===== verification/Lima_Power.thy ===== *)
theory Lima_Power
  imports Lima_IP
begin

text \<open>
  The L2 cache (\<open>lima_l2_cache.c\<close>), the power management unit (\<open>lima_pmu.c\<close>) and the two
  blocks the port keeps as stubs (\<open>lima_bcast.c\<close>, \<open>lima_dlbu.c\<close>).
\<close>

section \<open>L2 cache\<close>

definition lima_l2_cache_wait_command :: "hw \<Rightarrow> u32 \<Rightarrow> io \<Rightarrow> bool \<times> io" where
  "lima_l2_cache_wait_command hw base io =
     (let (v, io1) = readl hw (base + LIMA_L2_CACHE_STATUS) io
      in (v AND LIMA_L2_CACHE_STATUS_COMMAND_BUSY = 0, io1))"

text \<open>
  The state besides the registers is the counter \<open>l2_flush_timeouts\<close>; the flag says whether this
  timeout is printed (the powers of two).
\<close>

definition lima_l2_cache_flush :: "hw \<Rightarrow> u32 \<Rightarrow> u64 \<Rightarrow> io \<Rightarrow> (rc \<times> bool \<times> u64 \<times> io) option" where
  "lima_l2_cache_flush hw base timeouts io =
     (let io1 = writel LIMA_L2_CACHE_COMMAND_CLEAR_ALL (base + LIMA_L2_CACHE_COMMAND) io in do {
      (err, io2) \<leftarrow> lima_poll_timeout hw (lima_l2_cache_wait_command hw base) 0 20000 io1;
      (case err of
         OK \<Rightarrow> Some (OK, False, timeouts, io2)
       | E e \<Rightarrow>
           let t = timeouts + 1 in Some (E e, t AND (t - 1) = 0, t, io2)) })"

definition lima_l2_cache_init ::
  "hw \<Rightarrow> lima_dev \<Rightarrow> lima_ip_id \<Rightarrow> u64 \<Rightarrow> io \<Rightarrow> (rc \<times> u64 \<times> io) option" where
  "lima_l2_cache_init hw dev i timeouts io =
     (if i = lima_ip_l2_cache2 \<and> \<not> list_ex (d_present dev) (ip_range lima_ip_pp4 lima_ip_pp7)
      then Some (E ENODEV, timeouts, io)
      else
        let base = d_base dev i; (size0, io1) = readl hw (base + LIMA_L2_CACHE_SIZE) io in do {
        (_, _, t, io2) \<leftarrow> lima_l2_cache_flush hw base timeouts io1;
        let io3 = writel (LIMA_L2_CACHE_ENABLE_ACCESS OR LIMA_L2_CACHE_ENABLE_READ_ALLOCATE)
                    (base + LIMA_L2_CACHE_ENABLE) io2;
        let io4 = writel 0x1c (base + LIMA_L2_CACHE_MAX_READS) io3;
        Some (OK, t, io4) })"

definition lima_l2_cache_resume ::
  "hw \<Rightarrow> lima_dev \<Rightarrow> lima_ip_id \<Rightarrow> u64 \<Rightarrow> io \<Rightarrow> (rc \<times> u64 \<times> io) option" where
  "lima_l2_cache_resume hw dev i timeouts io = lima_l2_cache_init hw dev i timeouts io"

section \<open>Power management unit\<close>

definition LIMA_PMU_CMD_POLLS :: nat where "LIMA_PMU_CMD_POLLS = 100"

fun pmu_wait_loop :: "hw \<Rightarrow> u32 \<Rightarrow> nat \<Rightarrow> io \<Rightarrow> rc \<times> io" where
  "pmu_wait_loop hw base 0 io = (E ETIMEDOUT, io)"
| "pmu_wait_loop hw base (Suc n) io =
     (let (v, io1) = readl hw (base + LIMA_PMU_INT_RAWSTAT) io in
      if v AND LIMA_PMU_INT_CMD_MASK \<noteq> 0
      then (OK, writel LIMA_PMU_INT_CMD_MASK (base + LIMA_PMU_INT_CLEAR) io1)
      else pmu_wait_loop hw base n (DELAY # io1))"

definition lima_pmu_wait_cmd :: "hw \<Rightarrow> u32 \<Rightarrow> io \<Rightarrow> rc \<times> io" where
  "lima_pmu_wait_cmd hw base io = pmu_wait_loop hw base LIMA_PMU_CMD_POLLS io"

definition lima_pmu_send_cmd :: "hw \<Rightarrow> u32 \<Rightarrow> u32 \<Rightarrow> u32 \<Rightarrow> io \<Rightarrow> rc \<times> io" where
  "lima_pmu_send_cmd hw base reg msk io = lima_pmu_wait_cmd hw base (writel msk (base + reg) io)"

definition lima_pmu_get_ip_mask :: "lima_dev \<Rightarrow> u32" where
  "lima_pmu_get_ip_mask dev =
     (if d_id dev = lima_gpu_mali400 then
        fold (\<lambda>i m. if d_present dev (ip_plus lima_ip_pp0 i) then m OR LIMA_PMU_POWER_PP_MASK i else m)
          [0..<4] (LIMA_PMU_POWER_GP0_MASK OR LIMA_PMU_POWER_L2_MASK)
      else
        let r0 = LIMA_PMU_POWER_GP0_MASK;
            r1 = (if d_present dev lima_ip_pp0 then r0 OR LIMA450_PMU_POWER_PP0_MASK else r0);
            r2 = (if list_ex (d_present dev) (ip_range lima_ip_pp1 lima_ip_pp3)
                  then r1 OR LIMA450_PMU_POWER_PP13_MASK else r1)
        in if list_ex (d_present dev) (ip_range lima_ip_pp4 lima_ip_pp7)
           then r2 OR LIMA450_PMU_POWER_PP47_MASK else r2)"

definition lima_pmu_init :: "hw \<Rightarrow> lima_dev \<Rightarrow> io \<Rightarrow> rc \<times> io" where
  "lima_pmu_init hw dev io =
     (let base = d_base dev lima_ip_pmu;
          io1 = writel 0 (base + LIMA_PMU_INT_MASK) io;
          io2 = writel 0xffff (base + LIMA_PMU_SW_DELAY) io1;
          (stat, io3) = readl hw (base + LIMA_PMU_STATUS) io2 in
      if stat = 0 then (OK, io3)
      else
        let (err, io4) = lima_pmu_send_cmd hw base LIMA_PMU_POWER_UP stat io3 in
        (case err of
           E e \<Rightarrow> (E e, io4)
         | OK \<Rightarrow> (OK, snd (readl hw (base + LIMA_PMU_STATUS) io4))))"

text \<open>\<open>mask0\<close> is \<open>ip->data.mask\<close>; the result carries the mask kept.\<close>

definition lima_pmu_fini :: "hw \<Rightarrow> lima_dev \<Rightarrow> u32 \<Rightarrow> io \<Rightarrow> u32 \<times> io" where
  "lima_pmu_fini hw dev mask0 io =
     (let base = d_base dev lima_ip_pmu;
          msk = (if mask0 = 0 then lima_pmu_get_ip_mask dev else mask0);
          (v, io1) = readl hw (base + LIMA_PMU_STATUS) io;
          stat = NOT v AND msk in
      if stat = 0 then (msk, io1)
      else
        let io2 = writel stat (base + LIMA_PMU_POWER_DOWN) io1 in
        if d_id dev = lima_gpu_mali400
        then (msk, writel LIMA_PMU_INT_CMD_MASK (base + LIMA_PMU_INT_CLEAR) io2)
        else (msk, snd (lima_pmu_wait_cmd hw base io2)))"

definition lima_pmu_resume :: "hw \<Rightarrow> lima_dev \<Rightarrow> io \<Rightarrow> rc \<times> io" where
  "lima_pmu_resume hw dev io = lima_pmu_init hw dev io"

definition lima_pmu_suspend :: "hw \<Rightarrow> lima_dev \<Rightarrow> u32 \<Rightarrow> io \<Rightarrow> u32 \<times> io" where
  "lima_pmu_suspend hw dev mask0 io = lima_pmu_fini hw dev mask0 io"

section \<open>Stubs\<close>

definition lima_bcast_init :: "io \<Rightarrow> rc \<times> io" where "lima_bcast_init io = (OK, io)"
definition lima_bcast_resume :: "io \<Rightarrow> rc \<times> io" where "lima_bcast_resume io = lima_bcast_init io"
definition lima_bcast_enable :: "nat \<Rightarrow> io \<Rightarrow> io" where "lima_bcast_enable num_pp io = io"
definition lima_dlbu_init :: "io \<Rightarrow> rc \<times> io" where "lima_dlbu_init io = (OK, io)"
definition lima_dlbu_resume :: "io \<Rightarrow> rc \<times> io" where "lima_dlbu_resume io = lima_dlbu_init io"
definition lima_dlbu_enable :: "nat \<Rightarrow> io \<Rightarrow> io" where "lima_dlbu_enable num_pp io = io"
definition lima_dlbu_disable :: "io \<Rightarrow> io" where "lima_dlbu_disable io = io"
definition lima_dlbu_set_reg :: "u32 list \<Rightarrow> io \<Rightarrow> io" where "lima_dlbu_set_reg regs io = io"

section \<open>Properties\<close>

lemma pmu_wait_writes:
  "pmu_wait_loop hw base n io = (r, io') \<Longrightarrow>
   writes io' = writes io @ (if r = OK then [(base + LIMA_PMU_INT_CLEAR, LIMA_PMU_INT_CMD_MASK)] else []) \<and>
   r \<in> {OK, E ETIMEDOUT}"
  by (induction n arbitrary: io)
    (auto simp: readl_def writel_def Let_def split: if_splits)

lemma pmu_wait_reads:
  "pmu_wait_loop hw base n io = (r, io') \<Longrightarrow>
   reads_of (base + LIMA_PMU_INT_RAWSTAT) io' \<le> reads_of (base + LIMA_PMU_INT_RAWSTAT) io + n"
proof (induction n arbitrary: io)
  case (Suc n)
  let ?io1 = "RD (base + LIMA_PMU_INT_RAWSTAT) # io"
  show ?case
  proof (cases "hw_read hw io (base + LIMA_PMU_INT_RAWSTAT) AND LIMA_PMU_INT_CMD_MASK \<noteq> 0")
    case True
    then show ?thesis using Suc.prems by (auto simp: readl_def writel_def Let_def)
  next
    case False
    then have "pmu_wait_loop hw base n (DELAY # ?io1) = (r, io')"
      using Suc.prems by (simp add: readl_def Let_def)
    from Suc.IH [OF this] show ?thesis by simp
  qed
qed simp

text \<open>
  powering the GPU up asks for exactly the domains that report off, waits for at most 100 polls,
  and acknowledges the command only when the unit reported it done; a unit that never does is a
  timeout. With all domains on nothing is asked for.
\<close>

theorem lima_pmu_init_powers_up_the_off_domains:
  "(let base = d_base dev lima_ip_pmu;
        setup = [(base + LIMA_PMU_INT_MASK, 0), (base + LIMA_PMU_SW_DELAY, 0xffff)];
        stat = hw_read hw (WR (base + LIMA_PMU_SW_DELAY) 0xffff # WR (base + LIMA_PMU_INT_MASK) 0 # io)
                 (base + LIMA_PMU_STATUS);
        (r, io') = lima_pmu_init hw dev io in
    (if stat = 0 then r = OK \<and> writes io' = writes io @ setup
     else if r = OK then writes io' = writes io @ setup @
       [(base + LIMA_PMU_POWER_UP, stat), (base + LIMA_PMU_INT_CLEAR, LIMA_PMU_INT_CMD_MASK)]
     else r = E ETIMEDOUT \<and> writes io' = writes io @ setup @ [(base + LIMA_PMU_POWER_UP, stat)]))"
proof -
  let ?b = "d_base dev lima_ip_pmu"
  let ?io2 = "WR (?b + LIMA_PMU_SW_DELAY) 0xffff # WR (?b + LIMA_PMU_INT_MASK) 0 # io"
  let ?st = "hw_read hw ?io2 (?b + LIMA_PMU_STATUS)"
  show ?thesis
  proof (cases "?st = 0")
    case True
    then show ?thesis by (simp add: lima_pmu_init_def readl_def writel_def Let_def)
  next
    case False
    let ?io4 = "WR (?b + LIMA_PMU_POWER_UP) ?st # RD (?b + LIMA_PMU_STATUS) # ?io2"
    obtain r io5 where w: "pmu_wait_loop hw ?b LIMA_PMU_CMD_POLLS ?io4 = (r, io5)" by force
    have "lima_pmu_init hw dev io = (case r of
        E e \<Rightarrow> (E e, io5) | OK \<Rightarrow> (OK, RD (?b + LIMA_PMU_STATUS) # io5))"
      using False w
      by (cases r) (simp_all add: lima_pmu_init_def lima_pmu_send_cmd_def lima_pmu_wait_cmd_def readl_def
          writel_def Let_def)
    then show ?thesis using pmu_wait_writes [OF w] False by (cases r) (auto simp: Let_def)
  qed
qed

lemma fold_or_bit:
  "bit (fold (\<lambda>i m. if p i then m OR f i else m) xs (m0 :: u32)) n \<longleftrightarrow> bit m0 n \<or> (\<exists>i \<in> set xs. p i \<and> bit (f i) n)"
  by (induction xs arbitrary: m0) (auto simp: bit_or_iff)

lemma ip_plus_pp:
  "ip_plus lima_ip_pp0 0 = lima_ip_pp0" "ip_plus lima_ip_pp0 (Suc 0) = lima_ip_pp1"
  "ip_plus lima_ip_pp0 2 = lima_ip_pp2" "ip_plus lima_ip_pp0 3 = lima_ip_pp3"
  by (simp_all add: ip_plus_def ip_list_def)

text \<open>
  On a Mali-400 the power mask has a bit for the geometry processor, one for the L2 cache, and one for
  each pixel processor that is present, no other; and powering down asks for exactly the domains
  of the mask that are on, or for nothing when there is none.
\<close>

theorem lima_pmu_fini_mali400:
  assumes "d_id dev = lima_gpu_mali400"
  shows "(\<forall>n. bit (lima_pmu_get_ip_mask dev) n \<longleftrightarrow>
      n = 0 \<or> n = 1 \<or> (n = 2 \<and> d_present dev lima_ip_pp0) \<or> (n = 3 \<and> d_present dev lima_ip_pp1) \<or>
      (n = 4 \<and> d_present dev lima_ip_pp2) \<or> (n = 5 \<and> d_present dev lima_ip_pp3)) \<and>
    (let base = d_base dev lima_ip_pmu;
         off = NOT (hw_read hw io (base + LIMA_PMU_STATUS)) AND lima_pmu_get_ip_mask dev in
     writes (snd (lima_pmu_fini hw dev 0 io)) = writes io @
       (if off = 0 then []
        else [(base + LIMA_PMU_POWER_DOWN, off), (base + LIMA_PMU_INT_CLEAR, LIMA_PMU_INT_CMD_MASK)]))"
proof (intro conjI allI)
  fix n
  have g: "bit LIMA_PMU_POWER_GP0_MASK n = (n = 0)" "bit LIMA_PMU_POWER_L2_MASK n = (n = 1)"
    unfolding LIMA_PMU_POWER_GP0_MASK_def LIMA_PMU_POWER_L2_MASK_def bit_BIT by auto
  have p: "bit (LIMA_PMU_POWER_PP_MASK i) n = (n = 2 + i \<and> n < 32)" for i
    by (auto simp: LIMA_PMU_POWER_PP_MASK_def bit_BIT)
  have four: "[0..<4] = [0, Suc 0, 2, 3]" by (simp add: upt_rec)
  show "bit (lima_pmu_get_ip_mask dev) n \<longleftrightarrow>
      n = 0 \<or> n = 1 \<or> (n = 2 \<and> d_present dev lima_ip_pp0) \<or> (n = 3 \<and> d_present dev lima_ip_pp1) \<or>
      (n = 4 \<and> d_present dev lima_ip_pp2) \<or> (n = 5 \<and> d_present dev lima_ip_pp3)"
    using assms
    by (auto simp: lima_pmu_get_ip_mask_def fold_or_bit bit_or_iff g p four ip_plus_pp simp del: fold_simps)
next
  show "let base = d_base dev lima_ip_pmu;
         off = NOT (hw_read hw io (base + LIMA_PMU_STATUS)) AND lima_pmu_get_ip_mask dev in
     writes (snd (lima_pmu_fini hw dev 0 io)) = writes io @
       (if off = 0 then []
        else [(base + LIMA_PMU_POWER_DOWN, off), (base + LIMA_PMU_INT_CLEAR, LIMA_PMU_INT_CMD_MASK)])"
    using assms by (simp add: lima_pmu_fini_def readl_def Let_def)
qed

lemma l2_flush_some:
  assumes "clock_advances hw"
  shows "\<exists>r p t io'. lima_l2_cache_flush hw base timeouts io = Some (r, p, t, io') \<and>
    t = timeouts + (if r = OK then 0 else 1)"
proof -
  have app: "only_appends (lima_l2_cache_wait_command hw base)"
    by (simp add: only_appends_def lima_l2_cache_wait_command_def readl_def)
  obtain q where "lima_poll_timeout hw (lima_l2_cache_wait_command hw base) 0 20000
      (writel LIMA_L2_CACHE_COMMAND_CLEAR_ALL (base + LIMA_L2_CACHE_COMMAND) io) = Some q"
    using lima_poll_timeout_returns [OF assms app] by fastforce
  then show ?thesis
    by (cases q; cases "fst q") (auto simp: lima_l2_cache_flush_def Let_def)
qed

text \<open>
  a flush of the L2 cache writes one command and nothing else, returns whatever the cache does as
  long as the clock advances, and reports success only after the cache was read idle; a timeout is
  counted.
\<close>

theorem lima_l2_cache_flush_returns:
  assumes "clock_advances hw"
  shows "\<exists>r p t io'. lima_l2_cache_flush hw base timeouts io = Some (r, p, t, io') \<and>
    t = timeouts + (if r = OK then 0 else 1)"
  by (rule l2_flush_some [OF assms])

lemma demo_clock: "clock_advances \<lparr>hw_read = r, hw_time = (\<lambda>h. int (List.length h))\<rparr>"
proof -
  have "\<forall>h. Suc (nat d) \<le> List.length h \<longrightarrow> d < int (List.length h)" for d by auto
  then show ?thesis by (auto simp: clock_advances_def)
qed

theorem lima_l2_cache_flush_returns_witness:
  "\<exists>r p t io'. lima_l2_cache_flush \<lparr>hw_read = (\<lambda>_ _. 0xFFFFFFFF), hw_time = (\<lambda>h. int (List.length h))\<rparr>
     0x1000 0 [] = Some (r, p, t, io')"
  using lima_l2_cache_flush_returns [OF demo_clock, of "\<lambda>_ _. 0xFFFFFFFF" "0x1000" 0 "[]"] by blast

theorem lima_pmu_fini_mali400_witness:
  "bit (lima_pmu_get_ip_mask \<lparr>d_id = lima_gpu_mali400, d_present = (\<lambda>i. i = lima_ip_pp1),
     d_base = (\<lambda>_. 0x2000), d_empty_pd = 0\<rparr>) 3"
  by (rule iffD2 [OF spec [OF conjunct1 [OF lima_pmu_fini_mali400], of _ 3]]) simp_all

end
