(* ===== verification/Lima_PP.thy ===== *)
theory Lima_PP
  imports Lima_GP Lima_MMU Lima_Power
begin

text \<open>
  The pixel processors (\<open>lima_pp.c\<close>): their interrupts, resets and jobs, alone (Mali-400) and behind
  the broadcast unit (Mali-450). \<open>pp_pipe\<close> holds what the file reads and writes of
  \<open>struct lima_sched_pipe\<close>, with \<open>data.async_reset\<close> of every block; \<open>pp_completed\<close> counts the
  calls of \<open>lima_sched_pipe_task_done\<close>. A frame is the list of its 32-bit words. An access outside
  the processors of the pipe or outside a frame array has no result.
\<close>

section \<open>State and frames\<close>

record pp_pipe =
  pp_processor :: "lima_ip_id list"        \<comment> \<open>\<open>processor[]\<close>, \<open>num_processor\<close> its length\<close>
  pp_bcast :: "lima_ip_id option"          \<comment> \<open>\<open>bcast_processor\<close>\<close>
  pp_done :: u32
  pp_task :: u32                           \<comment> \<open>the \<open>atomic_t\<close> counter\<close>
  pp_error :: bool
  pp_completed :: nat
  pp_async :: "lima_ip_id \<Rightarrow> bool"

definition LIMA_PP_FRAME_REG_NUM :: nat where "LIMA_PP_FRAME_REG_NUM = 23"
definition LIMA_PP_WB_REG_NUM :: nat where "LIMA_PP_WB_REG_NUM = 12"

text \<open>
  The fields of the two frame structures, by word: the registers, \<open>num_pp\<close>, the three write-back
  units, then the per-processor addresses.
\<close>

definition frame_num_pp :: "u32 list \<Rightarrow> nat" where "frame_num_pp f = unat (f ! 23)"
definition frame_wb :: "u32 list \<Rightarrow> u32 list" where "frame_wb f = take 36 (drop 24 f)"

definition array_get :: "'a list \<Rightarrow> nat \<Rightarrow> 'a option" where
  "array_get xs i = (if i < List.length xs then Some (xs ! i) else None)"

definition m400_plbu :: "u32 list \<Rightarrow> u32 list" where "m400_plbu f = take 4 (drop 60 f)"
definition m400_stack :: "u32 list \<Rightarrow> u32 list" where "m400_stack f = take 4 (drop 64 f)"
definition m450_use_dlbu :: "u32 list \<Rightarrow> bool" where "m450_use_dlbu f = (f ! 60 \<noteq> 0)"
definition m450_pad :: "u32 list \<Rightarrow> u32" where "m450_pad f = f ! 61"
definition m450_plbu :: "u32 list \<Rightarrow> u32 list" where "m450_plbu f = take 8 (drop 62 f)"
definition m450_dlbu_regs :: "u32 list \<Rightarrow> u32 list" where "m450_dlbu_regs f = take 4 (drop 62 f)"
definition m450_stack :: "u32 list \<Rightarrow> u32 list" where "m450_stack f = take 8 (drop 70 f)"
definition m400_pp_frame_words :: nat where "m400_pp_frame_words = 68"
definition m450_pp_frame_words :: nat where "m450_pp_frame_words = 78"

section \<open>Interrupts\<close>

definition lima_pp_handle_irq :: "hw \<Rightarrow> u32 \<Rightarrow> u32 \<Rightarrow> pp_pipe \<Rightarrow> io \<Rightarrow> pp_pipe \<times> io" where
  "lima_pp_handle_irq hw base state p io =
     (let (p1, io1) =
            (if state AND LIMA_PP_IRQ_MASK_ERROR \<noteq> 0 then
               let (_, io1) = readl hw (base + LIMA_PP_STATUS) io
               in (p\<lparr>pp_error := True\<rparr>, writel 0 (base + LIMA_PP_INT_MASK) io1)
             else (p, io))
      in (p1, writel state (base + LIMA_PP_INT_CLEAR) io1))"

text \<open>\<open>if (atomic_dec_and_test(&pipe->task)) lima_sched_pipe_task_done(pipe)\<close>.\<close>

definition lima_pp_task_mmu_error :: "pp_pipe \<Rightarrow> pp_pipe" where
  "lima_pp_task_mmu_error p =
     (let t = pp_task p - 1
      in p\<lparr>pp_task := t, pp_completed := pp_completed p + (if t = 0 then 1 else 0)\<rparr>)"

definition lima_pp_irq_handler :: "hw \<Rightarrow> u32 \<Rightarrow> pp_pipe \<Rightarrow> io \<Rightarrow> irqreturn \<times> pp_pipe \<times> io" where
  "lima_pp_irq_handler hw base p io =
     (let (state, io1) = readl hw (base + LIMA_PP_INT_STATUS) io in
      if state = 0 then (IRQ_NONE, p, io1)
      else let (p1, io2) = lima_pp_handle_irq hw base state p io1
           in (IRQ_HANDLED, lima_pp_task_mmu_error p1, io2))"

fun pp_bcast_irq_loop ::
  "hw \<Rightarrow> lima_dev \<Rightarrow> nat list \<Rightarrow> irqreturn \<Rightarrow> pp_pipe \<Rightarrow> io \<Rightarrow> (irqreturn \<times> pp_pipe \<times> io) option" where
  "pp_bcast_irq_loop hw dev [] ret p io = Some (ret, p, io)"
| "pp_bcast_irq_loop hw dev (i # rest) ret p io = do {
     ip \<leftarrow> array_get (pp_processor p) i;
     (if pp_done p AND BIT i \<noteq> 0 then pp_bcast_irq_loop hw dev rest ret p io
      else
        let base = d_base dev ip;
            (status, io1) = readl hw (base + LIMA_PP_STATUS) io;
            (state, io2) = readl hw (base + LIMA_PP_INT_STATUS) io1 in
        if state = 0 \<and> status AND LIMA_PP_STATUS_RENDERING_ACTIVE \<noteq> 0
        then pp_bcast_irq_loop hw dev rest ret p io2
        else
          let (ret1, p1, io3) =
                (if state \<noteq> 0 then
                   let (p1, io3) = lima_pp_handle_irq hw base state p io2 in (IRQ_HANDLED, p1, io3)
                 else (ret, p, io2));
              p2 = p1\<lparr>pp_done := pp_done p1 OR BIT i\<rparr>
          in pp_bcast_irq_loop hw dev rest ret1 (lima_pp_task_mmu_error p2) io3) }"

text \<open>\<open>frame\<close> is the frame of \<open>pipe->current_task\<close>, none when there is no task.\<close>

definition lima_pp_bcast_irq_handler ::
  "hw \<Rightarrow> lima_dev \<Rightarrow> u32 list option \<Rightarrow> pp_pipe \<Rightarrow> io \<Rightarrow> (irqreturn \<times> pp_pipe \<times> io) option" where
  "lima_pp_bcast_irq_handler hw dev frame p io =
     (case frame of
        None \<Rightarrow> Some (IRQ_NONE, p, io)
      | Some f \<Rightarrow> pp_bcast_irq_loop hw dev [0..<frame_num_pp f] IRQ_NONE p io)"

section \<open>Resets\<close>

definition lima_pp_soft_reset_async :: "lima_dev \<Rightarrow> lima_ip_id \<Rightarrow> pp_pipe \<Rightarrow> io \<Rightarrow> pp_pipe \<times> io" where
  "lima_pp_soft_reset_async dev ip p io =
     (if pp_async p ip then (p, io)
      else
        let base = d_base dev ip;
            io1 = writel 0 (base + LIMA_PP_INT_MASK) io;
            io2 = writel LIMA_PP_IRQ_MASK_ALL (base + LIMA_PP_INT_RAWSTAT) io1;
            io3 = writel LIMA_PP_CTRL_SOFT_RESET (base + LIMA_PP_CTRL) io2
        in (p\<lparr>pp_async := (pp_async p)(ip := True)\<rparr>, io3))"

definition lima_pp_soft_reset_poll :: "hw \<Rightarrow> u32 \<Rightarrow> io \<Rightarrow> bool \<times> io" where
  "lima_pp_soft_reset_poll hw base io =
     (let (status, io1) = readl hw (base + LIMA_PP_STATUS) io in
      if status AND LIMA_PP_STATUS_RENDERING_ACTIVE \<noteq> 0 then (False, io1)
      else let (raw, io2) = readl hw (base + LIMA_PP_INT_RAWSTAT) io1
           in (raw = LIMA_PP_IRQ_RESET_COMPLETED, io2))"

definition lima_pp_soft_reset_async_wait_one :: "hw \<Rightarrow> u32 \<Rightarrow> io \<Rightarrow> (rc \<times> io) option" where
  "lima_pp_soft_reset_async_wait_one hw base io = do {
     (ret, io1) \<leftarrow> lima_poll_timeout hw (lima_pp_soft_reset_poll hw base) 0 100 io;
     (case ret of
        E e \<Rightarrow> Some (E e, io1)
      | OK \<Rightarrow>
          let io2 = writel LIMA_PP_IRQ_MASK_ALL (base + LIMA_PP_INT_CLEAR) io1;
              io3 = writel LIMA_PP_IRQ_MASK_USED (base + LIMA_PP_INT_MASK) io2
          in Some (OK, io3)) }"

text \<open>\<open>err |= ...\<close> over the processors; every failure is the same \<open>-ETIMEDOUT\<close>.\<close>

definition rc_or :: "rc \<Rightarrow> rc \<Rightarrow> rc" where
  "rc_or a b = (if b = OK then a else b)"

fun pp_wait_all ::
  "hw \<Rightarrow> lima_dev \<Rightarrow> pp_pipe \<Rightarrow> nat list \<Rightarrow> rc \<Rightarrow> io \<Rightarrow> (rc \<times> io) option" where
  "pp_wait_all hw dev p [] err io = Some (err, io)"
| "pp_wait_all hw dev p (i # rest) err io = do {
     ip \<leftarrow> array_get (pp_processor p) i;
     (r, io1) \<leftarrow> lima_pp_soft_reset_async_wait_one hw (d_base dev ip) io;
     pp_wait_all hw dev p rest (rc_or err r) io1 }"

definition lima_pp_soft_reset_async_wait ::
  "hw \<Rightarrow> lima_dev \<Rightarrow> lima_ip_id \<Rightarrow> u32 list option \<Rightarrow> pp_pipe \<Rightarrow> io \<Rightarrow> (rc \<times> pp_pipe \<times> io) option" where
  "lima_pp_soft_reset_async_wait hw dev ip frame p io =
     (if \<not> pp_async p ip then Some (OK, p, io)
      else do {
        (err, io1) \<leftarrow>
          (if ip = lima_ip_pp_bcast then do {
             f \<leftarrow> frame;
             pp_wait_all hw dev p [0..<frame_num_pp f] OK io }
           else lima_pp_soft_reset_async_wait_one hw (d_base dev ip) io);
        Some (err, p\<lparr>pp_async := (pp_async p)(ip := False)\<rparr>, io1) })"

definition lima_pp_hard_reset_poll :: "hw \<Rightarrow> u32 \<Rightarrow> io \<Rightarrow> bool \<times> io" where
  "lima_pp_hard_reset_poll hw base io =
     (let io1 = writel 0xC01A0000 (base + LIMA_PP_PERF_CNT_0_LIMIT) io;
          (v, io2) = readl hw (base + LIMA_PP_PERF_CNT_0_LIMIT) io1
      in (v = 0xC01A0000, io2))"

definition lima_pp_hard_reset :: "hw \<Rightarrow> u32 \<Rightarrow> io \<Rightarrow> (rc \<times> io) option" where
  "lima_pp_hard_reset hw base io =
     (let io1 = writel 0xC0FFE000 (base + LIMA_PP_PERF_CNT_0_LIMIT) io;
          io2 = writel 0 (base + LIMA_PP_INT_MASK) io1;
          io3 = writel LIMA_PP_CTRL_FORCE_RESET (base + LIMA_PP_CTRL) io2 in do {
      (ret, io4) \<leftarrow> lima_poll_timeout hw (lima_pp_hard_reset_poll hw base) 10 100 io3;
      (case ret of
         E e \<Rightarrow> Some (E e, io4)
       | OK \<Rightarrow>
           let io5 = writel 0 (base + LIMA_PP_PERF_CNT_0_LIMIT) io4;
               io6 = writel LIMA_PP_IRQ_MASK_ALL (base + LIMA_PP_INT_CLEAR) io5;
               io7 = writel LIMA_PP_IRQ_MASK_USED (base + LIMA_PP_INT_MASK) io6
           in Some (OK, io7)) })"

section \<open>Bring-up\<close>

definition lima_pp_print_version :: "hw \<Rightarrow> u32 \<Rightarrow> io \<Rightarrow> (gpu_name \<times> u32 \<times> u32) \<times> io" where
  "lima_pp_print_version hw base io =
     (let (version, io1) = readl hw (base + LIMA_PP_VERSION) io;
          major = drop_bit 8 version AND 0xFF; minor = version AND 0xFF; p = drop_bit 16 version;
          name = (if p = 0xC807 then mali200 else if p = 0xCE07 then mali300
                  else if p = 0xCD07 then mali400 else if p = 0xCF07 then mali450 else unknown_gpu)
      in ((name, major, minor), io1))"

definition lima_pp_hw_init ::
  "hw \<Rightarrow> lima_dev \<Rightarrow> lima_ip_id \<Rightarrow> u32 list option \<Rightarrow> pp_pipe \<Rightarrow> io \<Rightarrow> (rc \<times> pp_pipe \<times> io) option" where
  "lima_pp_hw_init hw dev ip frame p io =
     (let p0 = p\<lparr>pp_async := (pp_async p)(ip := False)\<rparr>;
          (p1, io1) = lima_pp_soft_reset_async dev ip p0 io
      in lima_pp_soft_reset_async_wait hw dev ip frame p1 io1)"

definition lima_pp_resume ::
  "hw \<Rightarrow> lima_dev \<Rightarrow> lima_ip_id \<Rightarrow> u32 list option \<Rightarrow> pp_pipe \<Rightarrow> io \<Rightarrow> (rc \<times> pp_pipe \<times> io) option" where
  "lima_pp_resume hw dev ip frame p io = lima_pp_hw_init hw dev ip frame p io"

text \<open>The version read at the end is \<open>dev->pp_version\<close>.\<close>

definition lima_pp_init ::
  "hw \<Rightarrow> lima_dev \<Rightarrow> lima_ip_id \<Rightarrow> rc \<Rightarrow> pp_pipe \<Rightarrow> io \<Rightarrow> (rc \<times> pp_pipe \<times> u32 option \<times> io) option" where
  "lima_pp_init hw dev ip request_irq p io = do {
     let (_, io1) = lima_pp_print_version hw (d_base dev ip) io;
     (err, p1, io2) \<leftarrow> lima_pp_hw_init hw dev ip None p io1;
     (case err of
        E e \<Rightarrow> Some (E e, p1, None, io2)
      | OK \<Rightarrow>
          (case request_irq of
             E e \<Rightarrow> Some (E e, p1, None, io2)
           | OK \<Rightarrow>
               let (v, io4) = readl hw (d_base dev ip + LIMA_PP_VERSION) (REQ_IRQ (d_base dev ip) # io2)
               in Some (OK, p1, Some v, io4))) }"

definition lima_pp_bcast_resume :: "lima_ip_id \<Rightarrow> pp_pipe \<Rightarrow> rc \<times> pp_pipe" where
  "lima_pp_bcast_resume ip p = (OK, p\<lparr>pp_async := (pp_async p)(ip := False)\<rparr>)"

definition lima_pp_bcast_init :: "lima_dev \<Rightarrow> lima_ip_id \<Rightarrow> rc \<Rightarrow> io \<Rightarrow> rc \<times> io" where
  "lima_pp_bcast_init dev ip request_irq io =
     (case request_irq of E e \<Rightarrow> (E e, io) | OK \<Rightarrow> (OK, REQ_IRQ (d_base dev ip) # io))"

section \<open>Jobs on the pixel processors\<close>

definition lima_pp_task_validate :: "pp_pipe \<Rightarrow> u32 list \<Rightarrow> rc" where
  "lima_pp_task_validate p f =
     (if pp_bcast p \<noteq> None \<and> m450_pad f \<noteq> 0 then E EINVAL
      else if frame_num_pp f = 0 \<or> List.length (pp_processor p) < frame_num_pp f then E EINVAL
      else OK)"

definition lima_pp_write_frame :: "u32 \<Rightarrow> u32 list \<Rightarrow> u32 list \<Rightarrow> io \<Rightarrow> io" where
  "lima_pp_write_frame base frame wb io =
     (let io1 = fold (\<lambda>i. writel (frame ! i) (base + LIMA_PP_FRAME + of_nat i * 4))
                  [0..<LIMA_PP_FRAME_REG_NUM] io
      in fold (\<lambda>i. fold (\<lambda>j. writel (wb ! (i * LIMA_PP_WB_REG_NUM + j)) (base + LIMA_PP_WB i + of_nat j * 4))
                [0..<LIMA_PP_WB_REG_NUM]) [0..<3] io1)"

text \<open>The two loops over the processors of a job; the first (Mali-400) also changes the frame.\<close>

fun pp_m400_run_loop ::
  "hw \<Rightarrow> lima_dev \<Rightarrow> nat list \<Rightarrow> u32 list \<Rightarrow> pp_pipe \<Rightarrow> io \<Rightarrow> (u32 list \<times> pp_pipe \<times> io) option" where
  "pp_m400_run_loop hw dev [] f p io = Some (f, p, io)"
| "pp_m400_run_loop hw dev (i # rest) f p io = do {
     ip \<leftarrow> array_get (pp_processor p) i;
     plbu \<leftarrow> array_get (m400_plbu f) i;
     stack \<leftarrow> array_get (m400_stack f) i;
     let f1 = f[unat (drop_bit 2 LIMA_PP_FRAME) := plbu, unat (drop_bit 2 LIMA_PP_STACK) := stack];
     (_, p1, io1) \<leftarrow> lima_pp_soft_reset_async_wait hw dev ip (Some f1) p io;
     let io2 = lima_pp_write_frame (d_base dev ip) f1 (frame_wb f1) io1;
     let io3 = writel LIMA_PP_CTRL_START_RENDERING (d_base dev ip + LIMA_PP_CTRL) io2;
     pp_m400_run_loop hw dev rest f1 p1 io3 }"

fun pp_m450_address_loop ::
  "lima_dev \<Rightarrow> nat list \<Rightarrow> u32 list \<Rightarrow> pp_pipe \<Rightarrow> io \<Rightarrow> io option" where
  "pp_m450_address_loop dev [] f p io = Some io"
| "pp_m450_address_loop dev (i # rest) f p io = do {
     ip \<leftarrow> array_get (pp_processor p) i;
     stack \<leftarrow> array_get (m450_stack f) i;
     let io1 = writel stack (d_base dev ip + LIMA_PP_STACK) io;
     io2 \<leftarrow> (if m450_use_dlbu f then Some io1
            else map_option (\<lambda>plbu. writel plbu (d_base dev ip + LIMA_PP_FRAME) io1) (array_get (m450_plbu f) i));
     pp_m450_address_loop dev rest f p io2 }"

definition lima_pp_task_run ::
  "hw \<Rightarrow> lima_dev \<Rightarrow> u32 list \<Rightarrow> pp_pipe \<Rightarrow> io \<Rightarrow> (u32 list \<times> pp_pipe \<times> io) option" where
  "lima_pp_task_run hw dev f p io =
     (case pp_bcast p of
        Some ip \<Rightarrow> do {
          let p1 = p\<lparr>pp_done := 0, pp_task := f ! 23\<rparr>;
          let (f1, io1) =
            (if m450_use_dlbu f then
               let io1 = lima_dlbu_enable (frame_num_pp f) io;
                   f1 = f[unat (drop_bit 2 LIMA_PP_FRAME) := ucast LIMA_VA_RESERVE_DLBU]
               in (f1, lima_dlbu_set_reg (m450_dlbu_regs f1) io1)
             else (f, lima_dlbu_disable io));
          let io2 = lima_bcast_enable (frame_num_pp f1) io1;
          (_, p2, io3) \<leftarrow> lima_pp_soft_reset_async_wait hw dev ip (Some f1) p1 io2;
          let io4 = lima_pp_write_frame (d_base dev ip) f1 (frame_wb f1) io3;
          io5 \<leftarrow> pp_m450_address_loop dev [0..<frame_num_pp f1] f1 p2 io4;
          Some (f1, p2, writel LIMA_PP_CTRL_START_RENDERING (d_base dev ip + LIMA_PP_CTRL) io5) }
      | None \<Rightarrow>
          pp_m400_run_loop hw dev [0..<frame_num_pp f] f (p\<lparr>pp_task := f ! 23\<rparr>) io)"

definition lima_pp_task_fini :: "lima_dev \<Rightarrow> pp_pipe \<Rightarrow> io \<Rightarrow> pp_pipe \<times> io" where
  "lima_pp_task_fini dev p io =
     (case pp_bcast p of
        Some ip \<Rightarrow> lima_pp_soft_reset_async dev ip p io
      | None \<Rightarrow> fold (\<lambda>ip (p, io). lima_pp_soft_reset_async dev ip p io) (pp_processor p) (p, io))"

fun lima_pp_task_error :: "hw \<Rightarrow> lima_dev \<Rightarrow> lima_ip_id list \<Rightarrow> io \<Rightarrow> io option" where
  "lima_pp_task_error hw dev [] io = Some io"
| "lima_pp_task_error hw dev (ip # ips) io = do {
     let base = d_base dev ip;
     let io1 = snd (readl hw (base + LIMA_PP_INT_STATUS) io);
     let io2 = snd (readl hw (base + LIMA_PP_STATUS) io1);
     (_, io3) \<leftarrow> lima_pp_hard_reset hw base io2;
     lima_pp_task_error hw dev ips io3 }"

text \<open>
  The slab shared by all devices, as for the geometry processor, and the size of the frames in bytes.
  The callbacks are those of this theory; there is no \<open>task_recover\<close>.
\<close>

definition lima_pp_pipe_init :: "lima_gpu_id \<Rightarrow> bool \<Rightarrow> bool \<times> int \<Rightarrow> rc \<times> nat option \<times> bool \<times> int" where
  "lima_pp_pipe_init gpu cache_create slab =
     (case slab of (exists, refcnt) \<Rightarrow>
      let frame_size = 4 * (if gpu = lima_gpu_mali400 then m400_pp_frame_words else m450_pp_frame_words) in
      if \<not> exists \<and> \<not> cache_create then (E ENOMEM, None, False, refcnt)
      else (OK, Some frame_size, True, refcnt + 1))"

definition lima_pp_pipe_fini :: "bool \<times> int \<Rightarrow> bool \<times> int" where
  "lima_pp_pipe_fini slab =
     (case slab of (exists, refcnt) \<Rightarrow> (if refcnt - 1 = 0 then False else exists, refcnt - 1))"

section \<open>Completion of a broadcast job\<close>

text \<open>How many of the first \<open>n\<close> processors have not been counted yet.\<close>

definition pp_pending :: "nat \<Rightarrow> pp_pipe \<Rightarrow> nat" where
  "pp_pending n p = card {i. i < n \<and> \<not> bit (pp_done p) i}"

definition pp_counted :: "nat \<Rightarrow> nat \<Rightarrow> pp_pipe \<Rightarrow> bool" where
  "pp_counted n c p \<longleftrightarrow>
     unat (pp_task p) = pp_pending n p \<and> pp_completed p = c + (if pp_pending n p = 0 then 1 else 0)"

lemma pp_pending_set:
  assumes "i < n" and "n \<le> 32" and "\<not> bit (pp_done p) i" and "pp_done q = pp_done p OR BIT i"
  shows "pp_pending n p = Suc (pp_pending n q)"
proof -
  have "{j. j < n \<and> \<not> bit (pp_done p) j} = insert i {j. j < n \<and> \<not> bit (pp_done q) j}"
    using assms by (auto simp: bit_or_iff bit_BIT)
  moreover have "i \<notin> {j. j < n \<and> \<not> bit (pp_done q) j}"
    using assms by (simp add: bit_or_iff bit_BIT)
  ultimately show ?thesis by (simp add: pp_pending_def)
qed

lemma pp_pending_cong: "pp_done q = pp_done p \<Longrightarrow> pp_pending n q = pp_pending n p"
  by (simp add: pp_pending_def)

lemma handle_irq_keeps:
  "lima_pp_handle_irq hw base state p io = (p1, io1) \<Longrightarrow>
   pp_done p1 = pp_done p \<and> pp_task p1 = pp_task p \<and> pp_completed p1 = pp_completed p \<and>
   pp_processor p1 = pp_processor p"
  by (auto simp: lima_pp_handle_irq_def Let_def split: if_splits prod.splits)

lemma pp_counted_step:
  assumes "pp_counted n c p" and "i < n" and "n \<le> 32" and "\<not> bit (pp_done p) i"
    and "pp_done p1 = pp_done p OR BIT i" "pp_task p1 = pp_task p" "pp_completed p1 = pp_completed p"
  shows "pp_counted n c (lima_pp_task_mmu_error p1)"
proof -
  have s: "pp_pending n p = Suc (pp_pending n p1)" by (rule pp_pending_set [OF assms(2-5)])
  have d: "pp_pending n (lima_pp_task_mmu_error p1) = pp_pending n p1"
    by (rule pp_pending_cong) (simp add: lima_pp_task_mmu_error_def Let_def)
  have t: "unat (pp_task p) = Suc (pp_pending n p1)" using assms(1) s by (simp add: pp_counted_def)
  then have nz: "pp_task p \<noteq> 0" by auto
  then have u: "unat (pp_task p - 1) = pp_pending n p1"
    using t by (simp add: unat_minus_one)
  have "pp_task p - 1 = 0 \<longleftrightarrow> pp_pending n p1 = 0" by (simp only: u [symmetric] unat_eq_0)
  then show ?thesis using assms s u d by (simp add: pp_counted_def lima_pp_task_mmu_error_def Let_def)
qed

lemma bcast_irq_loop_counted:
  assumes "pp_counted n c p" and "\<forall>i \<in> set is. i < n" and "n \<le> 32"
    and "pp_bcast_irq_loop hw dev is ret p io = Some (ret', p', io')"
  shows "pp_counted n c p'"
  using assms
proof (induction "is" arbitrary: ret p io)
  case (Cons i rest)
  obtain ip where ip: "array_get (pp_processor p) i = Some ip"
    using Cons.prems(4) by (auto simp: bind_eq_Some_conv)
  obtain status io1 where r1: "readl hw (d_base dev ip + LIMA_PP_STATUS) io = (status, io1)" by force
  obtain state io2 where r2: "readl hw (d_base dev ip + LIMA_PP_INT_STATUS) io1 = (state, io2)" by force
  obtain q io3 where h: "lima_pp_handle_irq hw (d_base dev ip) state p io2 = (q, io3)" by force
  note k = handle_irq_keeps [OF h]
  have rest: "\<forall>i \<in> set rest. i < n" and i: "i < n" using Cons.prems(2) by simp_all
  note IH = Cons.IH [OF _ rest Cons.prems(3)]
  show ?case
  proof (cases "pp_done p AND BIT i \<noteq> 0 \<or> (state = 0 \<and> status AND LIMA_PP_STATUS_RENDERING_ACTIVE \<noteq> 0)")
    case True
    then show ?thesis using Cons.prems(1,4) IH by (auto simp: ip r1 r2 split: if_splits)
  next
    case False
    then have nb: "\<not> bit (pp_done p) i" by (simp add: and_BIT_neq_0)
    note step = pp_counted_step [OF Cons.prems(1) i Cons.prems(3) nb]
    show ?thesis
    proof (cases "state = 0")
      case True
      then show ?thesis using False Cons.prems(4) by (auto simp: ip r1 r2 intro!: IH step)
    next
      case ns: False
      then show ?thesis using False Cons.prems(4) k by (auto simp: ip r1 r2 h intro!: IH step)
    qed
  qed
qed simp

lemma soft_reset_wait_keeps:
  "lima_pp_soft_reset_async_wait hw dev ip frame p io = Some (r, p1, io1) \<Longrightarrow>
   pp_done p1 = pp_done p \<and> pp_task p1 = pp_task p \<and> pp_completed p1 = pp_completed p \<and>
   pp_processor p1 = pp_processor p \<and> pp_async p1 ip = False"
  by (auto simp: lima_pp_soft_reset_async_wait_def bind_eq_Some_conv split: if_splits)

text \<open>
  A broadcast job: its start on an idle pipe, then interrupts in any number, at any time and with
  whatever the registers of the processors hold then.
\<close>

inductive pp_bcast_job :: "lima_dev \<Rightarrow> u32 list \<Rightarrow> pp_pipe \<Rightarrow> pp_pipe \<Rightarrow> bool" for dev f p0 where
  started: "lima_pp_task_run hw dev f p0 io = Some (f1, p, io1) \<Longrightarrow> pp_bcast_job dev f p0 p"
| interrupt: "pp_bcast_job dev f p0 p \<Longrightarrow>
    lima_pp_bcast_irq_handler hw dev (Some f) p io = Some (r, p1, io1) \<Longrightarrow> pp_bcast_job dev f p0 p1"

inductive_cases pp_bcast_jobE: "pp_bcast_job dev f p0 p"

lemma task_run_counted:
  assumes "lima_pp_task_validate p f = OK" and "pp_bcast p = Some b" and "List.length (pp_processor p) \<le> 8"
    and "lima_pp_task_run hw dev f p io = Some (f1, p1, io1)"
  shows "pp_counted (frame_num_pp f) (pp_completed p) p1"
proof -
  have n: "frame_num_pp f \<noteq> 0" "frame_num_pp f \<le> 8"
    using assms by (auto simp: lima_pp_task_validate_def split: if_splits)
  have c: "pp_done p1 = 0 \<and> pp_task p1 = f ! 23 \<and> pp_completed p1 = pp_completed p"
    using assms(2,4) by (auto simp: lima_pp_task_run_def Let_def bind_eq_Some_conv
        split: if_splits prod.splits dest!: soft_reset_wait_keeps)
  then have "pp_pending (frame_num_pp f) p1 = frame_num_pp f" by (simp add: pp_pending_def)
  then show ?thesis using c n by (simp add: pp_counted_def frame_num_pp_def)
qed


section \<open>Starting a job on the processors of a Mali-400\<close>

definition pp_frame_writes :: "u32 \<Rightarrow> u32 list \<Rightarrow> (u32 \<times> u32) list" where
  "pp_frame_writes base f =
     map (\<lambda>i. (base + LIMA_PP_FRAME + of_nat i * 4, f ! i)) [0..<23] @
     concat (map (\<lambda>i. map (\<lambda>j. (base + LIMA_PP_WB i + of_nat j * 4, frame_wb f ! (i * 12 + j))) [0..<12]) [0..<3])"

lemma fold_fold_writel:
  "writes (fold (\<lambda>i. fold (\<lambda>j. writel (v i j) (a i j)) js) is io) =
   writes io @ concat (map (\<lambda>i. map (\<lambda>j. (a i j, v i j)) js) is)"
  by (induction "is" arbitrary: io) (simp_all add: fold_writel)

lemma write_frame_writes:
  "writes (lima_pp_write_frame base f (frame_wb f) io) = writes io @ pp_frame_writes base f"
  unfolding lima_pp_write_frame_def pp_frame_writes_def Let_def fold_fold_writel fold_writel
    LIMA_PP_FRAME_REG_NUM_def LIMA_PP_WB_REG_NUM_def by simp

definition pp_reset_writes :: "u32 \<Rightarrow> bool \<Rightarrow> (u32 \<times> u32) list" where
  "pp_reset_writes base completed =
     (if completed then [(base + LIMA_PP_INT_CLEAR, LIMA_PP_IRQ_MASK_ALL),
        (base + LIMA_PP_INT_MASK, LIMA_PP_IRQ_MASK_USED)] else [])"

lemma poll_loop_writes:
  assumes f: "\<And>io. writes (snd (func io)) = writes io"
    and "lima_poll_loop hw func sl t d io = Some (r, io')"
  shows "writes io' = writes io"
proof -
  have "func = func \<longrightarrow> writes (snd (r, io')) = writes io"
  proof (rule lima_poll_loop.raw_induct [where P = "\<lambda>h g s u e i res. g = func \<longrightarrow> writes (snd res) = writes i", OF _ assms(2)])
    fix rec h g s u e i res
    assume IH: "\<And>h g s u e i res. rec h g s u e i = Some res \<Longrightarrow> g = func \<longrightarrow> writes (snd res) = writes i"
      and b: "(case g i of (done, io1) \<Rightarrow>
      if done then Some (OK, io1)
      else if u \<noteq> 0 then
        (case ktime_get h io1 of (t, io2) \<Rightarrow>
         if t > e then Some (E ETIMEDOUT, io2)
         else rec h g s u e (if s \<noteq> 0 then SLEEP # io2 else io2))
      else rec h g s u e (if s \<noteq> 0 then SLEEP # io1 else io1)) = Some res"
    show "g = func \<longrightarrow> writes (snd res) = writes i"
      using b f [of i]
      by (auto simp: ktime_get_def split: prod.splits if_splits dest!: IH)
  qed
  then show ?thesis by simp
qed

lemma poll_timeout_writes:
  assumes "\<And>io. writes (snd (func io)) = writes io"
    and "lima_poll_timeout hw func sl t io = Some (r, io')"
  shows "writes io' = writes io"
  using poll_loop_writes [OF assms(1), where io = "KTIME # io"] assms(2)
  by (auto simp: lima_poll_timeout_def ktime_get_def)

lemma writes_readl_fst: "readl hw a io = (v, io1) \<Longrightarrow> writes io1 = writes io"
  by (metis snd_conv writes_readl)

lemma soft_reset_poll_writes: "writes (snd (lima_pp_soft_reset_poll hw base io)) = writes io"
  by (auto simp: lima_pp_soft_reset_poll_def Let_def split: prod.splits dest!: writes_readl_fst)

lemma soft_reset_poll_appends: "only_appends (lima_pp_soft_reset_poll hw base)"
  by (auto simp: only_appends_def lima_pp_soft_reset_poll_def readl_def Let_def split: prod.splits)

lemma wait_one_returns:
  assumes "clock_advances hw"
  obtains r io1 where "lima_pp_soft_reset_async_wait_one hw base io = Some (r, io1)"
    and "writes io1 = writes io @ pp_reset_writes base (r = OK)"
proof -
  obtain r io1 where p: "lima_poll_timeout hw (lima_pp_soft_reset_poll hw base) 0 100 io = Some (r, io1)"
    using lima_poll_timeout_returns [OF assms soft_reset_poll_appends] by fastforce
  have w: "writes io1 = writes io" by (rule poll_timeout_writes [OF soft_reset_poll_writes p])
  show ?thesis
    by (rule that [of r "if r = OK then writel LIMA_PP_IRQ_MASK_USED (base + LIMA_PP_INT_MASK)
        (writel LIMA_PP_IRQ_MASK_ALL (base + LIMA_PP_INT_CLEAR) io1) else io1"])
      (cases r; simp add: lima_pp_soft_reset_async_wait_one_def p w pp_reset_writes_def Let_def)+
qed

text \<open>A core other than the broadcast unit: the wait returns and writes at most the two registers.\<close>

lemma core_wait_returns:
  assumes "clock_advances hw" and "ip \<noteq> lima_ip_pp_bcast"
  obtains r p1 io1 b where "lima_pp_soft_reset_async_wait hw dev ip frame p io = Some (r, p1, io1)"
    and "writes io1 = writes io @ pp_reset_writes (d_base dev ip) b"
proof (cases "pp_async p ip")
  case False
  then show ?thesis
    by (intro that [of OK p io False]) (simp_all add: lima_pp_soft_reset_async_wait_def pp_reset_writes_def)
next
  case True
  obtain r io1 where "lima_pp_soft_reset_async_wait_one hw (d_base dev ip) io = Some (r, io1)"
    and w: "writes io1 = writes io @ pp_reset_writes (d_base dev ip) (r = OK)"
    by (rule wait_one_returns [OF assms(1)])
  then show ?thesis using True assms(2)
    by (intro that [of r "p\<lparr>pp_async := (pp_async p)(ip := False)\<rparr>" io1 "r = OK"])
      (simp_all add: lima_pp_soft_reset_async_wait_def w)
qed

text \<open>The frame the i-th processor is given: its own list of tiles and its own stack.\<close>

definition pp_core_frame :: "u32 list \<Rightarrow> nat \<Rightarrow> u32 list" where
  "pp_core_frame f i = f[0 := m400_plbu f ! i, 12 := m400_stack f ! i]"

definition pp_core_start :: "lima_dev \<Rightarrow> pp_pipe \<Rightarrow> u32 list \<Rightarrow> (nat \<Rightarrow> bool) \<Rightarrow> nat \<Rightarrow> (u32 \<times> u32) list" where
  "pp_core_start dev p f reset i =
     (let base = d_base dev (pp_processor p ! i)
      in pp_reset_writes base (reset i) @ pp_frame_writes base (pp_core_frame f i) @
         [(base + LIMA_PP_CTRL, LIMA_PP_CTRL_START_RENDERING)])"

lemma core_frame_again:
  "m400_plbu (pp_core_frame f i) = m400_plbu f" "m400_stack (pp_core_frame f i) = m400_stack f"
  "pp_core_frame (pp_core_frame f i) j = pp_core_frame f j"
proof -
  show 1: "m400_plbu (pp_core_frame f i) = m400_plbu f" "m400_stack (pp_core_frame f i) = m400_stack f"
    by (simp_all add: m400_plbu_def m400_stack_def pp_core_frame_def)
  show "pp_core_frame (pp_core_frame f i) j = pp_core_frame f j"
    unfolding pp_core_frame_def [of "pp_core_frame f i"] 1
    by (simp add: pp_core_frame_def list_update_swap)
qed

lemma pp_frame_index [simp]:
  "unat (drop_bit 2 LIMA_PP_FRAME) = 0" "unat (drop_bit 2 LIMA_PP_STACK) = 12"
  by (simp_all add: regs unat_drop_bit_word)

lemma m400_loop_writes:
  assumes "clock_advances hw" and "lima_ip_pp_bcast \<notin> set (pp_processor p)"
    and "List.length f = 68" and "distinct is"
    and "\<forall>i \<in> set is. i < 4 \<and> i < List.length (pp_processor p)"
  shows "\<exists>f1 p1 io1 reset. pp_m400_run_loop hw dev is f p io = Some (f1, p1, io1) \<and> pp_task p1 = pp_task p \<and>
    pp_processor p1 = pp_processor p \<and>
    writes io1 = writes io @ concat (map (pp_core_start dev p f reset) is)"
  using assms(2-5)
proof (induction "is" arbitrary: f p io)
  case (Cons i rest)
  let ?ip = "pp_processor p ! i" and ?f1 = "pp_core_frame f i"
  have i: "i < 4" "i < List.length (pp_processor p)" using Cons.prems(4) by simp_all
  have ip: "array_get (pp_processor p) i = Some ?ip" using i by (simp add: array_get_def)
  have pl: "array_get (m400_plbu f) i = Some (m400_plbu f ! i)" "array_get (m400_stack f) i = Some (m400_stack f ! i)"
    using i Cons.prems(2) by (simp_all add: array_get_def m400_plbu_def m400_stack_def)
  have nb: "?ip \<noteq> lima_ip_pp_bcast" using Cons.prems(1) i by (metis nth_mem)
  obtain r p1 io1 b where w: "lima_pp_soft_reset_async_wait hw dev ?ip (Some ?f1) p io = Some (r, p1, io1)"
    and ww: "writes io1 = writes io @ pp_reset_writes (d_base dev ?ip) b"
    by (rule core_wait_returns [OF assms(1) nb])
  note k = soft_reset_wait_keeps [OF w]
  define io3 where "io3 = writel LIMA_PP_CTRL_START_RENDERING (d_base dev ?ip + LIMA_PP_CTRL)
      (lima_pp_write_frame (d_base dev ?ip) ?f1 (frame_wb ?f1) io1)"
  have fr: "f[0 := m400_plbu f ! i, 12 := m400_stack f ! i] = ?f1" by (simp add: pp_core_frame_def)
  have run: "pp_m400_run_loop hw dev (i # rest) f p io = pp_m400_run_loop hw dev rest ?f1 p1 io3"
    by (simp add: ip pl Let_def fr w io3_def)
  have w3: "writes io3 = writes io @ pp_reset_writes (d_base dev ?ip) b @ pp_frame_writes (d_base dev ?ip) ?f1 @
      [(d_base dev ?ip + LIMA_PP_CTRL, LIMA_PP_CTRL_START_RENDERING)]"
    by (simp add: io3_def write_frame_writes ww)
  have "\<exists>f2 p2 io2 reset. pp_m400_run_loop hw dev rest ?f1 p1 io3 = Some (f2, p2, io2) \<and>
      pp_task p2 = pp_task p1 \<and> pp_processor p2 = pp_processor p1 \<and>
      writes io2 = writes io3 @ concat (map (pp_core_start dev p1 ?f1 reset) rest)"
    by (rule Cons.IH) (use Cons.prems k in \<open>simp_all add: pp_core_frame_def\<close>)
  then obtain f2 p2 io2 reset where l: "pp_m400_run_loop hw dev rest ?f1 p1 io3 = Some (f2, p2, io2)"
    and t: "pp_task p2 = pp_task p1" "pp_processor p2 = pp_processor p1"
    and w2: "writes io2 = writes io3 @ concat (map (pp_core_start dev p1 ?f1 reset) rest)" by blast
  let ?reset = "reset(i := b)"
  have same: "map (pp_core_start dev p1 ?f1 reset) rest = map (pp_core_start dev p f ?reset) rest"
    using Cons.prems(3) k by (auto simp: pp_core_start_def core_frame_again)
  have "writes io2 = writes io @ concat (map (pp_core_start dev p f ?reset) (i # rest))"
    by (simp add: w2 w3 same pp_core_start_def [where i = i] Let_def)
  then show ?case using run l t k by metis
qed simp

lemma m400_task_run:
  assumes "lima_pp_task_validate p f = OK" and "pp_bcast p = None" and "List.length (pp_processor p) \<le> 4"
    and "lima_ip_pp_bcast \<notin> set (pp_processor p)" and "List.length f = 68" and "clock_advances hw"
  shows "\<exists>f1 p1 io1 reset. lima_pp_task_run hw dev f p io = Some (f1, p1, io1) \<and>
    unat (pp_task p1) = frame_num_pp f \<and>
    writes io1 = writes io @ concat (map (pp_core_start dev p f reset) [0..<frame_num_pp f])"
proof -
  let ?p = "p\<lparr>pp_task := f ! 23\<rparr>"
  have n: "\<forall>i \<in> set [0..<frame_num_pp f]. i < 4 \<and> i < List.length (pp_processor ?p)"
    using assms(1,3) by (auto simp: lima_pp_task_validate_def split: if_splits)
  have s: "pp_core_start dev ?p = pp_core_start dev p" by (intro ext) (simp add: pp_core_start_def)
  have nb: "lima_ip_pp_bcast \<notin> set (pp_processor ?p)" using assms(4) by simp
  show ?thesis
    using m400_loop_writes [OF assms(6) nb assms(5) distinct_upt n, of dev io]
    by (auto simp: lima_pp_task_run_def assms(2) s frame_num_pp_def)
qed


section \<open>Concrete jobs\<close>

definition demo_pp_dev :: lima_dev where
  "demo_pp_dev = \<lparr>d_id = lima_gpu_mali450, d_present = (\<lambda>_. True),
     d_base = (\<lambda>i. if i = lima_ip_pp0 then 0x8000 else if i = lima_ip_pp1 then 0xA000 else 0x16000),
     d_empty_pd = 0\<rparr>"

definition demo_pp_pipe :: "lima_ip_id option \<Rightarrow> pp_pipe" where
  "demo_pp_pipe b = \<lparr>pp_processor = [lima_ip_pp0, lima_ip_pp1], pp_bcast = b, pp_done = 0, pp_task = 0,
     pp_error = False, pp_completed = 0, pp_async = (\<lambda>_. False)\<rparr>"

text \<open>Hardware on which every rendering core reports the end of its frame.\<close>

definition demo_pp_hw :: hw where
  "demo_pp_hw = \<lparr>hw_read = (\<lambda>_ a. if a = 0x902C \<or> a = 0xB02C then 1 else 0),
     hw_time = (\<lambda>h. int (List.length h))\<rparr>"

definition demo_pp_frame :: "u32 list" where
  "demo_pp_frame = (replicate 78 0)[23 := 2, 61 := 0]"



end
