(* ===== verification/Lima_Sched.thy ===== *)
theory Lima_Sched
  imports Lima_PP
begin

text \<open>
  The job scheduler of a pipe (\<open>lima_sched.c\<close>, \<open>lima_sched.h\<close>): fences, jobs, the callbacks the
  DRM scheduler issues, completion, recovery and teardown. Jobs, fences and address spaces live
  in stores from numbers to objects, \<open>None\<close> being freed memory; following a null pointer or freed memory has
  no result. What differs between the geometry and the pixel pipe is the table of callbacks \<open>vtable\<close>.
\<close>

section \<open>State\<close>

record lima_fence =
  fn_refs :: nat
  fn_signalled :: bool
  fn_error :: "errno option"
  fn_seqno :: u32

record pipe_cfg =
  pc_l2_cache :: "lima_ip_id list"
  pc_mmu :: "lima_ip_id list"
  pc_bcast_mmu :: "lima_ip_id option"
  pc_frame_size :: u32

text \<open>
  \<open>'b\<close> is what the callbacks of the pipe own. \<open>sp_pm\<close> is the usage count of runtime PM,
  \<open>sp_recover\<close> whether \<open>recover_work\<close> is queued, \<open>sp_faults\<close> counts \<open>drm_sched_fault\<close>,
  \<open>sp_sleeps\<close> the calls of \<open>msleep\<close>.
\<close>

record 'b sched =
  sp_current_task :: "nat option"
  sp_current_vm :: "nat option"
  sp_error :: bool
  sp_fence_seqno :: u32
  sp_tasks :: "nat \<Rightarrow> lima_sched_task option"
  sp_fences :: "nat \<Rightarrow> lima_fence option"
  sp_vms :: "nat \<Rightarrow> lima_vm option"
  sp_pm :: int
  sp_recover :: bool
  sp_faults :: nat
  sp_sleeps :: nat
  sp_l2_timeouts :: u64
  sp_backend :: 'b
  sp_io :: io

text \<open>
  The callbacks. \<open>task_mmu_error\<close> answers whether \<open>lima_sched_pipe_task_done\<close> is called;
  \<open>task_recover\<close> is null on the pixel pipe and gets the current task and its address space.
\<close>

record 'b vtable =
  vt_task_run :: "lima_sched_task \<Rightarrow> 'b \<Rightarrow> io \<Rightarrow> (lima_sched_task \<times> 'b \<times> io) option"
  vt_task_fini :: "'b \<Rightarrow> io \<Rightarrow> 'b \<times> io"
  vt_task_error :: "'b \<Rightarrow> io \<Rightarrow> ('b \<times> io) option"
  vt_task_mmu_error :: "'b \<Rightarrow> bool \<times> 'b"
  vt_task_recover :: "(lima_sched_task \<Rightarrow> lima_vm \<Rightarrow> 'b \<Rightarrow> io \<Rightarrow>
      (rc \<times> lima_sched_task \<times> lima_vm \<times> 'b \<times> io) option) option"

section \<open>Fences and address spaces by reference\<close>

definition lima_sched_slab_init :: "bool \<Rightarrow> bool \<times> int \<Rightarrow> rc \<times> bool \<times> int" where
  "lima_sched_slab_init cache_create slab =
     (case slab of (exists, refcnt) \<Rightarrow>
      if \<not> exists \<and> \<not> cache_create then (E ENOMEM, False, refcnt)
      else (OK, True, refcnt + 1))"

definition lima_sched_slab_fini :: "bool \<times> int \<Rightarrow> bool \<times> int" where
  "lima_sched_slab_fini slab =
     (case slab of (exists, refcnt) \<Rightarrow> (if refcnt - 1 = 0 then False else exists, refcnt - 1))"

text \<open>\<open>alloc\<close> is the new fence, none when the slab is exhausted.\<close>

definition lima_fence_create :: "nat option \<Rightarrow> 'b sched \<Rightarrow> nat option \<times> 'b sched" where
  "lima_fence_create alloc s =
     (case alloc of
        None \<Rightarrow> (None, s)
      | Some f \<Rightarrow>
          let seqno = sp_fence_seqno s + 1 in
          (Some f, s\<lparr>sp_fence_seqno := seqno,
             sp_fences := (sp_fences s)(f \<mapsto>
               \<lparr>fn_refs = 1, fn_signalled = False, fn_error = None, fn_seqno = seqno\<rparr>)\<rparr>))"

text \<open>\<open>dma_fence_put\<close>: the last reference runs \<open>lima_fence_release\<close>. A null fence is ignored.\<close>

definition dma_fence_put :: "nat option \<Rightarrow> 'b sched \<Rightarrow> 'b sched option" where
  "dma_fence_put fo s =
     (case fo of
        None \<Rightarrow> Some s
      | Some f \<Rightarrow> do {
          fn \<leftarrow> sp_fences s f;
          Some (s\<lparr>sp_fences := (sp_fences s)(f := (if fn_refs fn - 1 = 0 then None
            else Some (fn\<lparr>fn_refs := fn_refs fn - 1\<rparr>)))\<rparr>) })"

definition update_fence :: "(lima_fence \<Rightarrow> lima_fence) \<Rightarrow> nat \<Rightarrow> 'b sched \<Rightarrow> 'b sched option" where
  "update_fence g f s = do {
     fn \<leftarrow> sp_fences s f;
     Some (s\<lparr>sp_fences := (sp_fences s)(f \<mapsto> g fn)\<rparr>) }"

definition dma_fence_get :: "nat \<Rightarrow> 'b sched \<Rightarrow> 'b sched option" where
  "dma_fence_get = update_fence (\<lambda>fn. fn\<lparr>fn_refs := fn_refs fn + 1\<rparr>)"

definition dma_fence_signal :: "nat \<Rightarrow> 'b sched \<Rightarrow> 'b sched option" where
  "dma_fence_signal = update_fence (\<lambda>fn. fn\<lparr>fn_signalled := True\<rparr>)"

definition dma_fence_set_error :: "errno \<Rightarrow> nat \<Rightarrow> 'b sched \<Rightarrow> 'b sched option" where
  "dma_fence_set_error e = update_fence (\<lambda>fn. fn\<lparr>fn_error := Some e\<rparr>)"

definition vm_put_ref :: "nat option \<Rightarrow> 'b sched \<Rightarrow> 'b sched option" where
  "vm_put_ref vo s =
     (case vo of
        None \<Rightarrow> Some s
      | Some v \<Rightarrow> do {
          vm \<leftarrow> sp_vms s v;
          Some (s\<lparr>sp_vms := (sp_vms s)(v := (case lima_vm_put (Some vm) of Inl r \<Rightarrow> r | Inr _ \<Rightarrow> None))\<rparr>) })"

definition vm_get_ref :: "nat \<Rightarrow> 'b sched \<Rightarrow> 'b sched option" where
  "vm_get_ref v s = do {
     vm \<leftarrow> sp_vms s v;
     Some (s\<lparr>sp_vms := (sp_vms s)(v \<mapsto> lima_vm_get vm)\<rparr>) }"

section \<open>Power references\<close>

definition lima_pm_busy :: "rc \<Rightarrow> 'b sched \<Rightarrow> rc \<times> 'b sched" where
  "lima_pm_busy resume s =
     (case resume of E e \<Rightarrow> (E e, s) | OK \<Rightarrow> (OK, s\<lparr>sp_pm := sp_pm s + 1\<rparr>))"

definition lima_pm_idle :: "'b sched \<Rightarrow> 'b sched" where
  "lima_pm_idle s = s\<lparr>sp_pm := sp_pm s - 1\<rparr>"

section \<open>Running a job\<close>

fun l2_flush_all :: "hw \<Rightarrow> lima_dev \<Rightarrow> lima_ip_id list \<Rightarrow> u64 \<Rightarrow> io \<Rightarrow> (u64 \<times> io) option" where
  "l2_flush_all hw dev [] t io = Some (t, io)"
| "l2_flush_all hw dev (ip # ips) t io = do {
     (_, _, t1, io1) \<leftarrow> lima_l2_cache_flush hw (d_base dev ip) t io;
     l2_flush_all hw dev ips t1 io1 }"

text \<open>An operation on the broadcast MMU or on each MMU of the pipe.\<close>

definition on_mmus :: "pipe_cfg \<Rightarrow> (lima_ip_id \<Rightarrow> io \<Rightarrow> io) \<Rightarrow> io \<Rightarrow> io" where
  "on_mmus cfg act io =
     (case pc_bcast_mmu cfg of Some b \<Rightarrow> act b io | None \<Rightarrow> fold act (pc_mmu cfg) io)"

record run_env =
  re_finished_error :: bool     \<comment> \<open>\<open>job->s_fence->finished.error < 0\<close>\<close>
  re_fence :: "nat option"      \<comment> \<open>answer of the fence slab\<close>
  re_pm_resume :: rc

text \<open>Job \<open>i\<close>; the result is the fence, if any.\<close>

definition lima_sched_run_job ::
  "hw \<Rightarrow> lima_dev \<Rightarrow> pipe_cfg \<Rightarrow> 'b vtable \<Rightarrow> run_env \<Rightarrow> nat \<Rightarrow> 'b sched \<Rightarrow> (nat option \<times> 'b sched) option" where
  "lima_sched_run_job hw dev cfg vt env i s = do {
     task \<leftarrow> sp_tasks s i;
     (if re_finished_error env then Some (None, s)
      else
        let (fo, s1) = lima_fence_create (re_fence env) s in
        case fo of
          None \<Rightarrow> Some (None, s1)
        | Some f \<Rightarrow>
          (case lima_pm_busy (re_pm_resume env) s1 of
             (E e, s2) \<Rightarrow> do { s3 \<leftarrow> dma_fence_put (Some f) s2; Some (None, s3) }
           | (OK, s2) \<Rightarrow> do {
               let s3 = s2\<lparr>sp_tasks := (sp_tasks s2)(i \<mapsto> task\<lparr>t_fence := Some f\<rparr>)\<rparr>;
               s4 \<leftarrow> dma_fence_get f s3;
               let s5 = s4\<lparr>sp_current_task := Some i\<rparr>;
               (t, io6) \<leftarrow> l2_flush_all hw dev (pc_l2_cache cfg) (sp_l2_timeouts s5) (sp_io s5);
               let s6 = s5\<lparr>sp_l2_timeouts := t, sp_io := io6\<rparr>;
               s7 \<leftarrow> vm_put_ref (sp_current_vm s6) s6;
               s8 \<leftarrow> vm_get_ref (t_vm task) s7;
               vm \<leftarrow> sp_vms s8 (t_vm task);
               let s9 = s8\<lparr>sp_current_vm := Some (t_vm task),
                 sp_io := on_mmus cfg (\<lambda>m. lima_mmu_switch_vm hw dev m vm) (sp_io s8), sp_error := False\<rparr>;
               (task1, b, io1) \<leftarrow> vt_task_run vt (task\<lparr>t_fence := Some f\<rparr>) (sp_backend s9) (sp_io s9);
               Some (Some f, s9\<lparr>sp_tasks := (sp_tasks s9)(i \<mapsto> task1), sp_backend := b, sp_io := io1\<rparr>) })) }"

section \<open>Completion and errors\<close>

definition lima_sched_pipe_task_done :: "'b vtable \<Rightarrow> 'b sched \<Rightarrow> 'b sched option" where
  "lima_sched_pipe_task_done vt s =
     (if sp_error s then
        (case sp_current_task s of
           None \<Rightarrow> Some (s\<lparr>sp_faults := sp_faults s + 1\<rparr>)
         | Some i \<Rightarrow> do {
             task \<leftarrow> sp_tasks s i;
             (if t_recoverable task then Some (s\<lparr>sp_recover := True\<rparr>)
              else Some (s\<lparr>sp_faults := sp_faults s + 1\<rparr>)) })
      else do {
        let (b, io1) = vt_task_fini vt (sp_backend s) (sp_io s);
        i \<leftarrow> sp_current_task s;
        task \<leftarrow> sp_tasks s i;
        f \<leftarrow> t_fence task;
        s1 \<leftarrow> dma_fence_signal f (s\<lparr>sp_backend := b, sp_io := io1\<rparr>);
        Some (lima_pm_idle s1) })"

definition lima_sched_pipe_mmu_error :: "'b vtable \<Rightarrow> 'b sched \<Rightarrow> 'b sched option" where
  "lima_sched_pipe_mmu_error vt s =
     (let (done, b) = vt_task_mmu_error vt (sp_backend s); s1 = s\<lparr>sp_error := True, sp_backend := b\<rparr>
      in if done then lima_sched_pipe_task_done vt s1 else Some s1)"

text \<open>
  The error dump of the job is \<open>Lima_Dump\<close>; stopping, resubmitting and restarting the DRM
  scheduler is code outside the repository and touches none of this state.
\<close>

definition lima_sched_timedout_job ::
  "hw \<Rightarrow> lima_dev \<Rightarrow> pipe_cfg \<Rightarrow> 'b vtable \<Rightarrow> 'b sched \<Rightarrow> 'b sched option" where
  "lima_sched_timedout_job hw dev cfg vt s = do {
     (b, io1) \<leftarrow> vt_task_error vt (sp_backend s) (sp_io s);
     let io2 = on_mmus cfg (lima_mmu_page_fault_resume hw dev) io1;
     s1 \<leftarrow> vm_put_ref (sp_current_vm s) (s\<lparr>sp_backend := b, sp_io := io2\<rparr>);
     Some (lima_pm_idle (s1\<lparr>sp_current_vm := None, sp_current_task := None\<rparr>)) }"

definition lima_sched_recover_work ::
  "hw \<Rightarrow> lima_dev \<Rightarrow> pipe_cfg \<Rightarrow> 'b vtable \<Rightarrow> 'b sched \<Rightarrow> 'b sched option" where
  "lima_sched_recover_work hw dev cfg vt s = do {
     (t, io1) \<leftarrow> l2_flush_all hw dev (pc_l2_cache cfg) (sp_l2_timeouts s) (sp_io s);
     let io2 = on_mmus cfg (lima_mmu_flush_tlb dev) io1;
     rec \<leftarrow> vt_task_recover vt;
     i \<leftarrow> sp_current_task s;
     task \<leftarrow> sp_tasks s i;
     vm \<leftarrow> sp_vms s (t_vm task);
     (r, task1, vm1, b, io3) \<leftarrow> rec task vm (sp_backend s) io2;
     Some (s\<lparr>sp_recover := False, sp_l2_timeouts := t, sp_io := io3, sp_backend := b,
       sp_tasks := (sp_tasks s)(i \<mapsto> task1), sp_vms := (sp_vms s)(t_vm task \<mapsto> vm1),
       sp_faults := sp_faults s + (if r = OK then 0 else 1)\<rparr>) }"

section \<open>Bringing a pipe up and down\<close>

text \<open>
  The timeout handed to \<open>drm_sched_init\<close>, in milliseconds; its answer is the answer of
  \<open>lima_sched_pipe_init\<close>.
\<close>

definition lima_sched_pipe_init :: "int \<Rightarrow> (int \<Rightarrow> rc) \<Rightarrow> rc" where
  "lima_sched_pipe_init timeout_ms drm_sched_init =
     drm_sched_init (if timeout_ms > 0 then timeout_ms else 500)"

definition LIMA_SCHED_PIPE_FINI_TIMEOUT_MS :: nat where "LIMA_SCHED_PIPE_FINI_TIMEOUT_MS = 2000"
definition LIMA_SCHED_PIPE_FINI_POLL_MS :: nat where "LIMA_SCHED_PIPE_FINI_POLL_MS = 10"

definition pipe_task_in_flight :: "bool \<Rightarrow> 'b sched \<Rightarrow> bool option" where
  "pipe_task_in_flight fake_wedge s =
     (case sp_current_task s of
        None \<Rightarrow> Some False
      | Some i \<Rightarrow> do {
          task \<leftarrow> sp_tasks s i;
          (case t_fence task of
             None \<Rightarrow> Some False
           | Some f \<Rightarrow>
               if fake_wedge then Some True
               else do { fn \<leftarrow> sp_fences s f; Some (\<not> fn_signalled fn) }) })"

text \<open>\<open>world n\<close> is what the interrupts and the scheduler thread do during the \<open>n\<close>-th sleep.\<close>

function pipe_fini_wait ::
  "bool \<Rightarrow> (nat \<Rightarrow> 'b sched \<Rightarrow> 'b sched) \<Rightarrow> nat \<Rightarrow> 'b sched \<Rightarrow> 'b sched option" where
  "pipe_fini_wait fake_wedge world waited s =
     (case pipe_task_in_flight fake_wedge s of
        None \<Rightarrow> None
      | Some busy \<Rightarrow>
          if busy \<and> waited < LIMA_SCHED_PIPE_FINI_TIMEOUT_MS then
            pipe_fini_wait fake_wedge world (waited + LIMA_SCHED_PIPE_FINI_POLL_MS)
              (world (sp_sleeps s) (s\<lparr>sp_sleeps := sp_sleeps s + 1\<rparr>))
          else Some s)"
  by pat_completeness auto

termination
  by (relation "measure (\<lambda>(_, _, waited, _). LIMA_SCHED_PIPE_FINI_TIMEOUT_MS - waited)")
    (auto simp: LIMA_SCHED_PIPE_FINI_TIMEOUT_MS_def LIMA_SCHED_PIPE_FINI_POLL_MS_def)

declare pipe_fini_wait.simps [simp del]

definition lima_sched_pipe_fini ::
  "'b vtable \<Rightarrow> bool \<Rightarrow> (nat \<Rightarrow> 'b sched \<Rightarrow> 'b sched) \<Rightarrow> 'b sched \<Rightarrow> 'b sched option" where
  "lima_sched_pipe_fini vt fake_wedge world s = do {
     s1 \<leftarrow> pipe_fini_wait fake_wedge world 0 s;
     busy \<leftarrow> pipe_task_in_flight fake_wedge s1;
     (if busy then do {
        i \<leftarrow> sp_current_task s1;
        (b, io1) \<leftarrow> vt_task_error vt (sp_backend s1) (sp_io s1);
        let s2 = s1\<lparr>sp_error := True, sp_backend := b, sp_io := io1\<rparr>;
        task \<leftarrow> sp_tasks s2 i;
        s3 \<leftarrow> (case t_fence task of
                None \<Rightarrow> Some s2
              | Some f \<Rightarrow> do { s3 \<leftarrow> dma_fence_set_error ENODEV f s2; dma_fence_signal f s3 });
        s4 \<leftarrow> vm_put_ref (sp_current_vm s3) s3;
        Some (s4\<lparr>sp_current_vm := None, sp_current_task := None\<rparr>)
      } else if sp_current_task s1 \<noteq> None then do {
        s2 \<leftarrow> vm_put_ref (sp_current_vm s1) s1;
        Some (s2\<lparr>sp_current_vm := None, sp_current_task := None\<rparr>)
      } else Some s1) }"

end
