(* ===== verification/Lima_Pipes.thy ===== *)
theory Lima_Pipes
  imports Lima_Sched
begin

text \<open>
  The contract between the scheduler of a pipe and its callbacks as a locale, and the two providers
  of it: the callbacks \<open>lima_gp_pipe_init\<close> and \<open>lima_pp_pipe_init\<close> install.
\<close>

section \<open>The contract\<close>

text \<open>
  Errors are handled in bounded time once the clock advances; a callback that is given a job
  hands back the same job: its address space and its fence are the scheduler's; recovery
  keeps the references of the address space.
\<close>

locale pipe_backend =
  fixes hw :: hw and vt :: "'b vtable"
  assumes error_returns: "clock_advances hw \<Longrightarrow> \<exists>r. vt_task_error vt b io = Some r"
    and run_keeps: "vt_task_run vt t b io = Some (t', b', io') \<Longrightarrow> t_vm t' = t_vm t \<and> t_fence t' = t_fence t"
    and recover_keeps: "vt_task_recover vt = Some rec \<Longrightarrow> rec t vm b io = Some (r, t', vm', b', io') \<Longrightarrow>
      t_vm t' = t_vm t \<and> t_fence t' = t_fence t \<and> vm_refcount vm' = vm_refcount vm"

section \<open>The callbacks of the geometry pipe\<close>

record gp_backend =
  gb_bos :: "nat \<Rightarrow> lima_bo"
  gb_sys :: vmsys
  gb_async :: bool

definition gp_vtable :: "hw \<Rightarrow> heap_env \<Rightarrow> u32 \<Rightarrow> gp_backend vtable" where
  "gp_vtable hw env base =
     \<lparr>vt_task_run = (\<lambda>t b io. do {
        (t1, a, io1) \<leftarrow> lima_gp_task_run hw base (gb_bos b) t (gb_async b) io;
        Some (t1, b\<lparr>gb_async := a\<rparr>, io1) }),
      vt_task_fini = (\<lambda>b io. let (a, io1) = lima_gp_task_fini base (gb_async b) io in (b\<lparr>gb_async := a\<rparr>, io1)),
      vt_task_error = (\<lambda>b io. map_option (\<lambda>io1. (b, io1)) (lima_gp_task_error hw base io)),
      vt_task_mmu_error = (\<lambda>b. (True, b)),
      vt_task_recover = Some (\<lambda>t vm b io. do {
        (r, t1, bos, vm1, sys, io1) \<leftarrow> lima_gp_task_recover env base t (gb_bos b) vm (gb_sys b) io;
        Some (r, t1, vm1, b\<lparr>gb_bos := bos, gb_sys := sys\<rparr>, io1) })\<rparr>"

lemma gp_patch_keeps:
  "gp_patch_heap bos bs t = Some t' \<Longrightarrow> t_vm t' = t_vm t \<and> t_fence t' = t_fence t"
  by (induction bs) (auto simp: bind_eq_Some_conv set_frame_word_def split: if_splits)

lemma gp_run_keeps:
  "lima_gp_task_run hw base bos t a io = Some (t', a', io') \<Longrightarrow> t_vm t' = t_vm t \<and> t_fence t' = t_fence t"
  by (cases "lima_gp_soft_reset_async_wait hw base a io")
    (auto simp: lima_gp_task_run_def bind_eq_Some_conv Let_def dest: gp_patch_keeps)

lemma map_bo_refs:
  "lima_vm_map_bo alloc i off vm bo = Some (r, vm') \<Longrightarrow> vm_refcount vm' = vm_refcount vm"
  by (auto simp: lima_vm_map_bo_def same_frame_def split: option.splits if_splits prod.splits
      dest!: map_pages_frame)

lemma heap_alloc_refs:
  assumes "lima_heap_alloc env bo (Some (i, vm)) s = Some (r, bo', v, s')"
  shows "\<exists>vm'. v = Some vm' \<and> vm_refcount vm' = vm_refcount vm"
  using assms
  by (auto simp: lima_heap_alloc_def Let_def bind_eq_Some_conv
      split: if_splits option.splits prod.splits rc.splits sum.splits dest!: map_bo_refs)
    (metis rc.exhaust map_bo_refs)+

lemma gp_recover_keeps:
  assumes "lima_gp_task_recover env base t bos vm s io = Some (r, t', bos', vm', s', io')"
  shows "t_vm t' = t_vm t \<and> t_fence t' = t_fence t \<and> vm_refcount vm' = vm_refcount vm"
  using assms
  by (clarsimp simp: lima_gp_task_recover_def Let_def bind_eq_Some_conv)
    (auto simp: set_frame_word_def bind_eq_Some_conv Let_def split: if_splits rc.splits dest!: heap_alloc_refs)

lemma hard_reset_poll_appends:
  "only_appends (lima_gp_hard_reset_poll hw base)" "only_appends (lima_pp_hard_reset_poll hw base)"
  by (auto simp: only_appends_def lima_gp_hard_reset_poll_def lima_pp_hard_reset_poll_def writel_def readl_def Let_def)

lemma gp_hard_reset_returns:
  assumes "clock_advances hw"
  shows "lima_gp_hard_reset hw base io \<noteq> None"
proof -
  let ?io = "writel LIMA_GP_CMD_RESET (base + LIMA_GP_CMD) (writel 0 (base + LIMA_GP_INT_MASK)
      (writel 0xC0FFE000 (base + LIMA_GP_PERF_CNT_0_LIMIT) io))"
  obtain r h where "lima_poll_timeout hw (lima_gp_hard_reset_poll hw base) 10 100 ?io = Some (r, h)"
    using lima_poll_timeout_returns [OF assms hard_reset_poll_appends(1)] by fastforce
  then show ?thesis by (cases r) (simp_all add: lima_gp_hard_reset_def Let_def)
qed

lemma gp_error_returns: "clock_advances hw \<Longrightarrow> lima_gp_task_error hw base io \<noteq> None"
  by (simp add: lima_gp_task_error_def Let_def gp_hard_reset_returns)

interpretation gp_pipe: pipe_backend hw "gp_vtable hw env base"
proof
  show "\<exists>r. vt_task_error (gp_vtable hw env base) b io = Some r" if "clock_advances hw" for b io
    using gp_error_returns [OF that, of base io] by (auto simp: gp_vtable_def)
  show "t_vm t' = t_vm t \<and> t_fence t' = t_fence t"
    if "vt_task_run (gp_vtable hw env base) t b io = Some (t', b', io')" for t b io t' b' io'
    using that by (auto simp: gp_vtable_def bind_eq_Some_conv dest: gp_run_keeps)
  show "t_vm t' = t_vm t \<and> t_fence t' = t_fence t \<and> vm_refcount vm' = vm_refcount vm"
    if "vt_task_recover (gp_vtable hw env base) = Some rec" "rec t vm b io = Some (r, t', vm', b', io')"
    for rec t vm b io r t' vm' b' io'
    using that by (auto simp: gp_vtable_def bind_eq_Some_conv dest: gp_recover_keeps)
qed

section \<open>The callbacks of the pixel pipe\<close>

definition pp_vtable :: "hw \<Rightarrow> lima_dev \<Rightarrow> pp_pipe vtable" where
  "pp_vtable hw dev =
     \<lparr>vt_task_run = (\<lambda>t p io. do {
        (f, p1, io1) \<leftarrow> lima_pp_task_run hw dev (t_frame t) p io;
        Some (t\<lparr>t_frame := f\<rparr>, p1, io1) }),
      vt_task_fini = lima_pp_task_fini dev,
      vt_task_error = (\<lambda>p io. map_option (\<lambda>io1. (p, io1)) (lima_pp_task_error hw dev (pp_processor p) io)),
      vt_task_mmu_error = (\<lambda>p. let p1 = lima_pp_task_mmu_error p in (pp_task p1 = 0, p1)),
      vt_task_recover = None\<rparr>"

lemma pp_hard_reset_returns:
  assumes "clock_advances hw"
  obtains r io1 where "lima_pp_hard_reset hw base io = Some (r, io1)"
proof -
  let ?io = "writel LIMA_PP_CTRL_FORCE_RESET (base + LIMA_PP_CTRL) (writel 0 (base + LIMA_PP_INT_MASK)
      (writel 0xC0FFE000 (base + LIMA_PP_PERF_CNT_0_LIMIT) io))"
  obtain r h where "lima_poll_timeout hw (lima_pp_hard_reset_poll hw base) 10 100 ?io = Some (r, h)"
    using lima_poll_timeout_returns [OF assms hard_reset_poll_appends(2)] by fastforce
  then show ?thesis using that by (cases r) (simp_all add: lima_pp_hard_reset_def Let_def)
qed

lemma pp_error_returns:
  assumes "clock_advances hw"
  shows "lima_pp_task_error hw dev ips io \<noteq> None"
proof (induction ips arbitrary: io)
  case (Cons ip ips)
  let ?io = "snd (readl hw (d_base dev ip + LIMA_PP_STATUS) (snd (readl hw (d_base dev ip + LIMA_PP_INT_STATUS) io)))"
  obtain r io1 where "lima_pp_hard_reset hw (d_base dev ip) ?io = Some (r, io1)"
    by (rule pp_hard_reset_returns [OF assms])
  then show ?case using Cons.IH by (simp add: Let_def)
qed simp

interpretation pp_pipe: pipe_backend hw "pp_vtable hw dev"
proof
  show "\<exists>r. vt_task_error (pp_vtable hw dev) b io = Some r" if "clock_advances hw" for b io
    using pp_error_returns [OF that, of dev "pp_processor b" io] by (auto simp: pp_vtable_def)
  show "t_vm t' = t_vm t \<and> t_fence t' = t_fence t"
    if "vt_task_run (pp_vtable hw dev) t b io = Some (t', b', io')" for t b io t' b' io'
    using that by (auto simp: pp_vtable_def bind_eq_Some_conv)
qed (simp add: pp_vtable_def)

end
