(* ===== verification/Lima_Sched_Spec.thy ===== *)
theory Lima_Sched_Spec
  imports Lima_Pipes
begin

text \<open>
  What the scheduler of a pipe promises. The life of a pipe is a step relation between states: jobs are
  run, complete, fault, are recovered or time out, and meanwhile the rest of the driver queues
  and frees other jobs. The invariant ties the power reference and the address-space reference of the
  pipe to the job it runs. It is proved once for any callbacks that keep the contract
  \<open>pipe_backend\<close>, and used for the geometry and the pixel pipe.
\<close>

section \<open>The invariant\<close>

definition vm_refs :: "'b sched \<Rightarrow> nat \<Rightarrow> nat" where
  "vm_refs s v = (case sp_vms s v of None \<Rightarrow> 0 | Some vm \<Rightarrow> vm_refcount vm)"

definition in_flight :: "'b sched \<Rightarrow> bool" where
  "in_flight s \<longleftrightarrow> pipe_task_in_flight False s = Some True"

text \<open>
  \<open>holders v\<close> is the number of references to address space \<open>v\<close> that jobs and open files hold.
  The current job may have been freed.
\<close>

definition current_ok :: "'b sched \<Rightarrow> bool" where
  "current_ok s \<longleftrightarrow> (\<forall>i t. sp_current_task s = Some i \<longrightarrow> sp_tasks s i = Some t \<longrightarrow>
     sp_current_vm s = Some (t_vm t) \<and> (\<exists>f fn. t_fence t = Some f \<and> sp_fences s f = Some fn))"

definition vms_ok :: "(nat \<Rightarrow> nat) \<Rightarrow> 'b sched \<Rightarrow> bool" where
  "vms_ok holders s \<longleftrightarrow> (\<forall>v. vm_refs s v = holders v + (if sp_current_vm s = Some v then 1 else 0)) \<and>
     (\<forall>v vm. sp_vms s v = Some vm \<longrightarrow> vm_refcount vm > 0)"

definition sched_inv :: "(nat \<Rightarrow> nat) \<Rightarrow> 'b sched \<Rightarrow> bool" where
  "sched_inv holders s \<longleftrightarrow>
     (sp_current_task s = None \<longleftrightarrow> sp_current_vm s = None) \<and> current_ok s \<and> vms_ok holders s \<and>
     sp_pm s = (if in_flight s then 1 else 0)"

section \<open>References of an address space\<close>

lemma vm_put_ref_spec:
  assumes "vms_ok h s" and "sp_current_vm s = vo"
  shows "\<exists>s'. vm_put_ref vo s = Some s' \<and> s' = s\<lparr>sp_vms := sp_vms s'\<rparr> \<and>
    (\<forall>v. vm_refs s' v = h v) \<and> (\<forall>v vm. sp_vms s' v = Some vm \<longrightarrow> vm_refcount vm > 0)"
proof (cases vo)
  case None
  then show ?thesis using assms by (simp add: vm_put_ref_def vms_ok_def)
next
  case (Some v)
  have r: "vm_refs s v = h v + 1" using assms Some by (simp add: vms_ok_def)
  then obtain vm where vm: "sp_vms s v = Some vm" "vm_refcount vm = h v + 1"
    by (cases "sp_vms s v") (simp_all add: vm_refs_def)
  show ?thesis using assms Some vm
    by (auto simp: vm_put_ref_def lima_vm_put_def vms_ok_def vm_refs_def split: option.splits)
qed

lemma vm_get_ref_spec:
  assumes "\<forall>v. vm_refs s v = h v" and "\<forall>v vm. sp_vms s v = Some vm \<longrightarrow> vm_refcount vm > 0" and "h v > 0"
  shows "\<exists>s' vm. vm_get_ref v s = Some s' \<and> s' = s\<lparr>sp_vms := sp_vms s'\<rparr> \<and> sp_vms s' v = Some vm \<and>
    (\<forall>w. vm_refs s' w = h w + (if w = v then 1 else 0)) \<and>
    (\<forall>v vm. sp_vms s' v = Some vm \<longrightarrow> vm_refcount vm > 0)"
proof -
  obtain vm where vm: "sp_vms s v = Some vm" "vm_refcount vm = h v"
    using assms(1,3) by (cases "sp_vms s v") (auto simp: vm_refs_def dest: spec [of _ v])
  show ?thesis using assms vm
    by (auto simp: vm_get_ref_def lima_vm_get_def vm_refs_def)
qed

lemma not_in_flight_pm: "sched_inv h s \<Longrightarrow> \<not> in_flight s \<Longrightarrow> sp_pm s = 0"
  by (simp add: sched_inv_def)

text \<open>The state of a busy pipe, taken apart.\<close>

lemma in_flightE:
  assumes "in_flight s"
  obtains i t f fn where "sp_current_task s = Some i" "sp_tasks s i = Some t" "t_fence t = Some f"
    "sp_fences s f = Some fn" "\<not> fn_signalled fn"
  using assms
  by (auto simp: in_flight_def pipe_task_in_flight_def bind_eq_Some_conv split: option.splits)

lemma in_flightI:
  assumes "sp_current_task s = Some i" "sp_tasks s i = Some t" "t_fence t = Some f"
    "sp_fences s f = Some fn" "\<not> fn_signalled fn"
  shows "in_flight s"
  using assms by (simp add: in_flight_def pipe_task_in_flight_def)

lemma in_flight_cong:
  assumes "sp_current_task s' = sp_current_task s" and "sp_tasks s' = sp_tasks s" and "sp_fences s' = sp_fences s"
  shows "in_flight s' = in_flight s"
  using assms by (simp add: in_flight_def pipe_task_in_flight_def cong: option.case_cong)

lemma sched_inv_cong:
  assumes "sp_current_task s' = sp_current_task s" and "sp_tasks s' = sp_tasks s" and "sp_fences s' = sp_fences s"
    and "sp_current_vm s' = sp_current_vm s" and "sp_vms s' = sp_vms s" and "sp_pm s' = sp_pm s"
  shows "sched_inv h s' = sched_inv h s"
  using assms in_flight_cong [OF assms(1-3)]
  by (simp add: sched_inv_def current_ok_def vms_ok_def vm_refs_def)

section \<open>The shape of a started job\<close>

definition new_fence :: "'b sched \<Rightarrow> lima_fence" where
  "new_fence s = \<lparr>fn_refs = 2, fn_signalled = False, fn_error = None, fn_seqno = sp_fence_seqno s + 1\<rparr>"

text \<open>The state once job \<open>i\<close> has its fence and the caches are flushed.\<close>

definition job_taken :: "nat \<Rightarrow> nat \<Rightarrow> lima_sched_task \<Rightarrow> u64 \<Rightarrow> io \<Rightarrow> 'b sched \<Rightarrow> 'b sched" where
  "job_taken i f t tt ioo s = s\<lparr>sp_fence_seqno := sp_fence_seqno s + 1, sp_pm := sp_pm s + 1,
      sp_tasks := (sp_tasks s)(i \<mapsto> t\<lparr>t_fence := Some f\<rparr>), sp_fences := (sp_fences s)(f \<mapsto> new_fence s),
      sp_current_task := Some i, sp_l2_timeouts := tt, sp_io := ioo\<rparr>"

lemma run_job_eq:
  assumes "\<not> re_finished_error env" "re_fence env = Some f" "re_pm_resume env = OK" "sp_tasks s i = Some t"
  shows "lima_sched_run_job hw dev cfg vt env i s = do {
    (tt, ioo) \<leftarrow> l2_flush_all hw dev (pc_l2_cache cfg) (sp_l2_timeouts s) (sp_io s);
    s7 \<leftarrow> vm_put_ref (sp_current_vm s) (job_taken i f t tt ioo s);
    s8 \<leftarrow> vm_get_ref (t_vm t) s7;
    vm \<leftarrow> sp_vms s8 (t_vm t);
    (task1, b, io1) \<leftarrow> vt_task_run vt (t\<lparr>t_fence := Some f\<rparr>) (sp_backend s8)
      (on_mmus cfg (\<lambda>m. lima_mmu_switch_vm hw dev m vm) (sp_io s8));
    Some (Some f, s8\<lparr>sp_current_vm := Some (t_vm t), sp_error := False,
      sp_tasks := (sp_tasks s8)(i \<mapsto> task1), sp_backend := b, sp_io := io1\<rparr>) }"
  using assms
  by (simp add: lima_sched_run_job_def lima_fence_create_def lima_pm_busy_def Let_def
      dma_fence_get_def update_fence_def job_taken_def new_fence_def numeral_2_eq_2)

lemma job_taken_simps [simp]:
  "sp_current_task (job_taken i f t tt ioo s) = Some i"
  "sp_current_vm (job_taken i f t tt ioo s) = sp_current_vm s"
  "sp_fences (job_taken i f t tt ioo s) f = Some (new_fence s)"
  "sp_pm (job_taken i f t tt ioo s) = sp_pm s + 1"
  "sp_backend (job_taken i f t tt ioo s) = sp_backend s"
  "vms_ok h (job_taken i f t tt ioo s) = vms_ok h s"
  "\<not> fn_signalled (new_fence s)"
  by (simp_all add: job_taken_def new_fence_def vms_ok_def vm_refs_def)

section \<open>Every operation keeps the invariant\<close>

context pipe_backend
begin

lemma run_job_inv:
  assumes inv: "sched_inv h s" and idle: "\<not> in_flight s"
    and i: "sp_tasks s i = Some t" and held: "h (t_vm t) > 0"
    and fresh: "\<forall>f. re_fence env = Some f \<longrightarrow> sp_fences s f = None"
    and run: "lima_sched_run_job hw dev cfg vt env i s = Some (fo, s')"
  shows "sched_inv h s'"
proof (cases "re_finished_error env \<or> re_fence env = None")
  case True
  then have "s' = s" using run i by (auto simp: lima_sched_run_job_def lima_fence_create_def split: if_splits)
  then show ?thesis using inv by simp
next
  case False
  then obtain f where f: "re_fence env = Some f" and nf: "\<not> re_finished_error env" by auto
  let ?fn = "\<lparr>fn_refs = 1, fn_signalled = False, fn_error = None, fn_seqno = sp_fence_seqno s + 1\<rparr>"
  have f0: "sp_fences s f = None" using fresh f by simp
  have other: "f' \<noteq> f" if "sp_fences s f' = Some fn" for f' fn using that f0 by auto
  show ?thesis
  proof (cases "re_pm_resume env")
    case (E e)
    then have s': "s' = s\<lparr>sp_fence_seqno := sp_fence_seqno s + 1, sp_fences := (sp_fences s)(f := None)\<rparr>"
      using run i f nf
      by (simp add: lima_sched_run_job_def lima_fence_create_def lima_pm_busy_def dma_fence_put_def Let_def)
    have "(sp_fences s)(f := None) = sp_fences s" using f0 by auto
    then show ?thesis using inv by (subst sched_inv_cong [where s = s]) (simp_all add: s')
  next
    case OK
    obtain tt ioo s7 s8 vm task1 b io1 where
      p: "vm_put_ref (sp_current_vm s) (job_taken i f t tt ioo s) = Some s7" and g: "vm_get_ref (t_vm t) s7 = Some s8"
      and tr: "vt_task_run vt (t\<lparr>t_fence := Some f\<rparr>) (sp_backend s8)
          (on_mmus cfg (\<lambda>m. lima_mmu_switch_vm hw dev m vm) (sp_io s8)) = Some (task1, b, io1)"
      and s': "s' = s8\<lparr>sp_current_vm := Some (t_vm t), sp_error := False,
          sp_tasks := (sp_tasks s8)(i \<mapsto> task1), sp_backend := b, sp_io := io1\<rparr>"
      using run unfolding run_job_eq [OF nf f OK i] by (auto simp: bind_eq_Some_conv)
    have v6: "vms_ok h (job_taken i f t tt ioo s)" using inv by (simp add: sched_inv_def)
    from vm_put_ref_spec [OF v6, of "sp_current_vm s"] p
    have s7: "s7 = (job_taken i f t tt ioo s)\<lparr>sp_vms := sp_vms s7\<rparr>"
      "\<forall>v. vm_refs s7 v = h v" "\<forall>v vm. sp_vms s7 v = Some vm \<longrightarrow> vm_refcount vm > 0" by auto
    from vm_get_ref_spec [OF s7(2,3) held] g have s8: "s8 = s7\<lparr>sp_vms := sp_vms s8\<rparr>"
      "\<forall>w. vm_refs s8 w = h w + (if w = t_vm t then 1 else 0)"
      "\<forall>v vm. sp_vms s8 v = Some vm \<longrightarrow> vm_refcount vm > 0" by auto
    have keep: "t_vm task1 = t_vm t" "t_fence task1 = Some f" using run_keeps [OF tr] by simp_all
    have fields: "sp_current_task s' = Some i" "sp_tasks s' i = Some task1" "sp_current_vm s' = Some (t_vm t)"
      "sp_fences s' f = Some (new_fence s)" "sp_vms s' = sp_vms s8" "sp_pm s' = sp_pm s + 1"
      by (subst s' s8(1) s7(1); simp)+
    have "in_flight s'" by (rule in_flightI [OF fields(1,2) keep(2) fields(4)]) simp
    moreover have "vms_ok h s'" using s8(2,3) fields by (auto simp: vms_ok_def vm_refs_def)
    moreover have "current_ok s'" using fields keep by (simp add: current_ok_def)
    ultimately show ?thesis using fields not_in_flight_pm [OF inv idle] by (simp add: sched_inv_def)
  qed
qed

lemma task_done_inv:
  assumes inv: "sched_inv h s" and busy: "in_flight s"
  obtains s' where "lima_sched_pipe_task_done vt s = Some s'" and "sched_inv h s'"
    and "sp_pm s' = (if sp_error s then 1 else 0)"
proof -
  from busy obtain i t f fn where c: "sp_current_task s = Some i" "sp_tasks s i = Some t" "t_fence t = Some f"
    "sp_fences s f = Some fn" "\<not> fn_signalled fn" by (rule in_flightE)
  show thesis
  proof (cases "sp_error s")
    case True
    have pm: "sp_pm s = 1" using inv busy by (simp add: sched_inv_def)
    show ?thesis
    proof (cases "t_recoverable t")
      case True
      let ?s = "s\<lparr>sp_recover := True\<rparr>"
      have "sched_inv h ?s" using inv by (subst sched_inv_cong [where s = s]) simp_all
      then show ?thesis using that [of ?s] \<open>sp_error s\<close> True c pm by (simp add: lima_sched_pipe_task_done_def)
    next
      case False
      let ?s = "s\<lparr>sp_faults := sp_faults s + 1\<rparr>"
      have "sched_inv h ?s" using inv by (subst sched_inv_cong [where s = s]) simp_all
      then show ?thesis using that [of ?s] \<open>sp_error s\<close> False c pm by (simp add: lima_sched_pipe_task_done_def)
    qed
  next
    case False
    obtain b io1 where fin: "vt_task_fini vt (sp_backend s) (sp_io s) = (b, io1)" by force
    define s' where "s' = s\<lparr>sp_backend := b, sp_io := io1,
        sp_fences := (sp_fences s)(f \<mapsto> fn\<lparr>fn_signalled := True\<rparr>), sp_pm := sp_pm s - 1\<rparr>"
    have d: "lima_sched_pipe_task_done vt s = Some s'"
      using False c fin
      by (simp add: lima_sched_pipe_task_done_def Let_def dma_fence_signal_def update_fence_def
          lima_pm_idle_def s'_def)
    have "\<not> in_flight s'" using c
      by (auto simp: s'_def elim!: in_flightE)
    then have "sched_inv h s'" using inv busy c
      by (auto simp: sched_inv_def s'_def current_ok_def vms_ok_def vm_refs_def)
    moreover have "sp_pm s' = 0" using inv busy by (simp add: sched_inv_def s'_def)
    ultimately show ?thesis using d False that by simp
  qed
qed

lemma mmu_error_inv:
  assumes inv: "sched_inv h s" and busy: "in_flight s"
  obtains s' where "lima_sched_pipe_mmu_error vt s = Some s'" and "sched_inv h s'" and "sp_error s'"
proof -
  obtain d b where m: "vt_task_mmu_error vt (sp_backend s) = (d, b)" by force
  let ?s = "s\<lparr>sp_error := True, sp_backend := b\<rparr>"
  have i1: "sched_inv h ?s" using inv by (subst sched_inv_cong [where s = s]) simp_all
  have b1: "in_flight ?s" using busy by (subst in_flight_cong [where s = s]) simp_all
  obtain s1 where s1: "lima_sched_pipe_task_done vt ?s = Some s1" "sched_inv h s1" by (rule task_done_inv [OF i1 b1])
  have "sp_error s1" using s1(1) by (auto simp: lima_sched_pipe_task_done_def bind_eq_Some_conv split: option.splits if_splits)
  then show ?thesis using that [of s1] that [of ?s] s1 i1 m
    by (cases d) (simp_all add: lima_sched_pipe_mmu_error_def)
qed

lemma timedout_inv:
  assumes inv: "sched_inv h s" and busy: "in_flight s"
    and t: "lima_sched_timedout_job hw dev cfg vt s = Some s'"
  shows "sched_inv h s'" and "sp_current_task s' = None" and "sp_pm s' = 0"
proof -
  from t obtain b io1 s1 where p: "vm_put_ref (sp_current_vm s)
      (s\<lparr>sp_backend := b, sp_io := on_mmus cfg (lima_mmu_page_fault_resume hw dev) io1\<rparr>) = Some s1"
    and s': "s' = lima_pm_idle (s1\<lparr>sp_current_vm := None, sp_current_task := None\<rparr>)"
    by (auto simp: lima_sched_timedout_job_def bind_eq_Some_conv)
  let ?s = "s\<lparr>sp_backend := b, sp_io := on_mmus cfg (lima_mmu_page_fault_resume hw dev) io1\<rparr>"
  have v: "vms_ok h ?s" using inv by (simp add: sched_inv_def vms_ok_def vm_refs_def)
  from vm_put_ref_spec [OF v, of "sp_current_vm s"] p have s1: "s1 = ?s\<lparr>sp_vms := sp_vms s1\<rparr>"
    "\<forall>v. vm_refs s1 v = h v" "\<forall>v vm. sp_vms s1 v = Some vm \<longrightarrow> vm_refcount vm > 0" by auto
  show c: "sp_current_task s' = None" by (simp add: s' lima_pm_idle_def)
  have "sp_pm s1 = 1" by (subst s1(1)) (use inv busy in \<open>simp add: sched_inv_def\<close>)
  then show pm: "sp_pm s' = 0" by (simp add: s' lima_pm_idle_def)
  have "\<not> in_flight s'" using c by (simp add: in_flight_def pipe_task_in_flight_def)
  then show "sched_inv h s'" using s1(2,3) c pm
    by (auto simp: sched_inv_def current_ok_def vms_ok_def vm_refs_def s' lima_pm_idle_def)
qed

lemma recover_inv:
  assumes inv: "sched_inv h s" and busy: "in_flight s"
    and r: "lima_sched_recover_work hw dev cfg vt s = Some s'"
  shows "sched_inv h s'"
proof -
  from busy obtain i t f fn where c: "sp_current_task s = Some i" "sp_tasks s i = Some t" "t_fence t = Some f"
    "sp_fences s f = Some fn" "\<not> fn_signalled fn" by (rule in_flightE)
  from r c obtain rec vm rr t1 vm1 b ioo io3 tt where vr: "vt_task_recover vt = Some rec"
    and vm: "sp_vms s (t_vm t) = Some vm" and rc: "rec t vm (sp_backend s) ioo = Some (rr, t1, vm1, b, io3)"
    and s': "s' = s\<lparr>sp_recover := False, sp_l2_timeouts := tt, sp_io := io3, sp_backend := b,
       sp_tasks := (sp_tasks s)(i \<mapsto> t1), sp_vms := (sp_vms s)(t_vm t \<mapsto> vm1),
       sp_faults := sp_faults s + (if rr = OK then 0 else 1)\<rparr>"
    by (auto simp: lima_sched_recover_work_def bind_eq_Some_conv)
  note k = recover_keeps [OF vr rc]
  have cv: "sp_current_vm s = Some (t_vm t)" using inv c by (simp add: sched_inv_def current_ok_def)
  have b': "in_flight s'" by (rule in_flightI [of _ i t1 f fn]) (use c k in \<open>simp_all add: s'\<close>)
  have "current_ok s'" using c k cv by (auto simp: current_ok_def s')
  moreover have "vms_ok h s'" using inv vm k
    by (auto simp: sched_inv_def vms_ok_def vm_refs_def s' split: option.splits)
  ultimately show ?thesis using inv b' busy by (simp add: sched_inv_def s')
qed

lemma timedout_returns:
  assumes inv: "sched_inv h s" and clk: "clock_advances hw"
  shows "\<exists>s'. lima_sched_timedout_job hw dev cfg vt s = Some s'"
proof -
  obtain b io1 where e: "vt_task_error vt (sp_backend s) (sp_io s) = Some (b, io1)"
    using error_returns [OF clk] by fastforce
  let ?s = "s\<lparr>sp_backend := b, sp_io := on_mmus cfg (lima_mmu_page_fault_resume hw dev) io1\<rparr>"
  have v: "vms_ok h ?s" using inv by (simp add: sched_inv_def vms_ok_def vm_refs_def)
  show ?thesis using vm_put_ref_spec [OF v, of "sp_current_vm s"] e
    by (auto simp: lima_sched_timedout_job_def Let_def)
qed

end

section \<open>The life of a pipe\<close>

text \<open>
  One step, with the holders of the address spaces. The DRM scheduler hands over one job at a time, and
  interrupts come from the job that runs. In \<open>others\<close> the rest of the driver queues jobs, frees
  finished ones and waits on fences: it keeps its own books of the address spaces and leaves the job
  that runs and its fence alone.
\<close>

inductive pipe_step ::
  "hw \<Rightarrow> lima_dev \<Rightarrow> pipe_cfg \<Rightarrow> 'b vtable \<Rightarrow> (nat \<Rightarrow> nat) \<times> 'b sched \<Rightarrow> (nat \<Rightarrow> nat) \<times> 'b sched \<Rightarrow> bool"
  for hw dev cfg vt where
  run: "\<not> in_flight s \<Longrightarrow> sp_tasks s i = Some t \<Longrightarrow> h (t_vm t) > 0 \<Longrightarrow>
      (\<forall>f. re_fence env = Some f \<longrightarrow> sp_fences s f = None) \<Longrightarrow>
      lima_sched_run_job hw dev cfg vt env i s = Some (fo, s') \<Longrightarrow> pipe_step hw dev cfg vt (h, s) (h, s')"
| finished: "in_flight s \<Longrightarrow> lima_sched_pipe_task_done vt s = Some s' \<Longrightarrow> pipe_step hw dev cfg vt (h, s) (h, s')"
| mmu_error: "in_flight s \<Longrightarrow> lima_sched_pipe_mmu_error vt s = Some s' \<Longrightarrow> pipe_step hw dev cfg vt (h, s) (h, s')"
| timed_out: "in_flight s \<Longrightarrow> lima_sched_timedout_job hw dev cfg vt s = Some s' \<Longrightarrow>
      pipe_step hw dev cfg vt (h, s) (h, s')"
| recover: "in_flight s \<Longrightarrow> sp_recover s \<Longrightarrow> lima_sched_recover_work hw dev cfg vt s = Some s' \<Longrightarrow>
      pipe_step hw dev cfg vt (h, s) (h, s')"
| others: "sp_current_task s' = sp_current_task s \<Longrightarrow> sp_current_vm s' = sp_current_vm s \<Longrightarrow>
      sp_pm s' = sp_pm s \<Longrightarrow> vms_ok h' s' \<Longrightarrow> current_ok s' \<Longrightarrow> in_flight s' = in_flight s \<Longrightarrow>
      pipe_step hw dev cfg vt (h, s) (h', s')"

inductive_cases pipe_stepE: "pipe_step hw dev cfg vt (h, s) (h', s')"

definition fresh_pipe :: "(nat \<Rightarrow> nat) \<Rightarrow> 'b sched \<Rightarrow> bool" where
  "fresh_pipe h s \<longleftrightarrow> sp_current_task s = None \<and> sp_current_vm s = None \<and> sp_pm s = 0 \<and> vms_ok h s"

lemma fresh_pipe_inv: "fresh_pipe h s \<Longrightarrow> sched_inv h s"
  by (auto simp: fresh_pipe_def sched_inv_def current_ok_def elim: in_flightE)

context pipe_backend
begin

lemma step_inv:
  assumes "sched_inv h s" and "pipe_step hw dev cfg vt (h, s) (h', s')"
  shows "sched_inv h' s'"
  using assms(2)
proof (rule pipe_stepE)
  fix i t env fo
  assume "\<not> in_flight s" "sp_tasks s i = Some t" "h (t_vm t) > 0"
    "\<forall>f. re_fence env = Some f \<longrightarrow> sp_fences s f = None" "h' = h"
    "lima_sched_run_job hw dev cfg vt env i s = Some (fo, s')"
  then show ?thesis using run_job_inv [OF assms(1)] by simp
next
  assume "in_flight s" "h' = h" "lima_sched_pipe_task_done vt s = Some s'"
  then show ?thesis using task_done_inv [OF assms(1)] by (metis option.inject)
next
  assume "in_flight s" "h' = h" "lima_sched_pipe_mmu_error vt s = Some s'"
  then show ?thesis using mmu_error_inv [OF assms(1)] by (metis option.inject)
next
  assume "in_flight s" "h' = h" "lima_sched_timedout_job hw dev cfg vt s = Some s'"
  then show ?thesis using timedout_inv(1) [OF assms(1)] by simp
next
  assume "in_flight s" "h' = h" "lima_sched_recover_work hw dev cfg vt s = Some s'"
  then show ?thesis using recover_inv [OF assms(1)] by simp
next
  assume "sp_current_task s' = sp_current_task s" "sp_current_vm s' = sp_current_vm s" "sp_pm s' = sp_pm s"
    "vms_ok h' s'" "current_ok s'" "in_flight s' = in_flight s"
  then show ?thesis using assms(1) by (simp add: sched_inv_def)
qed

lemma steps_inv:
  assumes "(pipe_step hw dev cfg vt)\<^sup>*\<^sup>* p q" and "sched_inv (fst p) (snd p)"
  shows "sched_inv (fst q) (snd q)"
  using assms
proof (induction rule: rtranclp_induct)
  case (step y z)
  then show ?case using step_inv [of "fst y" "snd y" dev cfg "fst z" "snd z"] by simp
qed simp

end



end
