(* ===== verification/Lima_Sched_Fini.thy ===== *)
theory Lima_Sched_Fini
  imports Lima_Sched_Spec
begin

text \<open>
  Starting a job and tearing a pipe down: both return whatever the hardware does; what a late timeout and a
  late recovery do to a pipe; concrete pipes.
\<close>

section \<open>Starting a job\<close>

lemma l2_flush_all_returns:
  assumes "clock_advances hw"
  obtains t io1 where "l2_flush_all hw dev ips t0 io = Some (t, io1)"
proof -
  have "\<exists>t io1. l2_flush_all hw dev ips t0 io = Some (t, io1)"
  proof (induction ips arbitrary: t0 io)
    case (Cons ip ips)
    obtain r p t1 io1 where "lima_l2_cache_flush hw (d_base dev ip) t0 io = Some (r, p, t1, io1)"
      using l2_flush_some [OF assms] by blast
    then show ?case using Cons.IH by simp
  qed simp
  then show thesis using that by blast
qed

context pipe_backend
begin

lemma run_job_starts:
  assumes inv: "sched_inv h s" and clk: "clock_advances hw" and i: "sp_tasks s i = Some t"
    and held: "h (t_vm t) > 0"
    and env: "\<not> re_finished_error env" "re_fence env = Some f" "re_pm_resume env = OK"
    and run: "\<And>io. vt_task_run vt (t\<lparr>t_fence := Some f\<rparr>) (sp_backend s) io \<noteq> None"
  obtains s' where "lima_sched_run_job hw dev cfg vt env i s = Some (Some f, s')" and "in_flight s'"
    and "sp_current_task s' = Some i" and "\<not> sp_error s'"
proof -
  obtain tt ioo where l2: "l2_flush_all hw dev (pc_l2_cache cfg) (sp_l2_timeouts s) (sp_io s) = Some (tt, ioo)"
    by (rule l2_flush_all_returns [OF clk])
  let ?s6 = "job_taken i f t tt ioo s"
  have v6: "vms_ok h ?s6" using inv by (simp add: sched_inv_def)
  obtain s7 where p: "vm_put_ref (sp_current_vm s) ?s6 = Some s7" and s7: "s7 = ?s6\<lparr>sp_vms := sp_vms s7\<rparr>"
    "\<forall>v. vm_refs s7 v = h v" "\<forall>v vm. sp_vms s7 v = Some vm \<longrightarrow> vm_refcount vm > 0"
    using vm_put_ref_spec [OF v6, of "sp_current_vm s"] by auto
  obtain s8 vm where g: "vm_get_ref (t_vm t) s7 = Some s8" and s8: "s8 = s7\<lparr>sp_vms := sp_vms s8\<rparr>"
    and vm: "sp_vms s8 (t_vm t) = Some vm"
    using vm_get_ref_spec [OF s7(2,3) held] by blast
  have b8: "sp_backend s8 = sp_backend s" by (subst s8, subst s7(1)) simp
  obtain t1 b io1 where tr: "vt_task_run vt (t\<lparr>t_fence := Some f\<rparr>) (sp_backend s8)
      (on_mmus cfg (\<lambda>m. lima_mmu_switch_vm hw dev m vm) (sp_io s8)) = Some (t1, b, io1)"
    unfolding b8 using run by (metis not_None_eq prod_cases3)
  let ?s' = "s8\<lparr>sp_current_vm := Some (t_vm t), sp_error := False,
      sp_tasks := (sp_tasks s8)(i \<mapsto> t1), sp_backend := b, sp_io := io1\<rparr>"
  have eq: "lima_sched_run_job hw dev cfg vt env i s = Some (Some f, ?s')"
    unfolding run_job_eq [OF env i] using l2 p g vm tr by simp
  have fields: "sp_current_task ?s' = Some i" "sp_fences ?s' f = Some (new_fence s)"
    by (subst s8, subst s7(1), simp)+
  have f1: "t_fence t1 = Some f" using run_keeps [OF tr] by simp
  have "in_flight ?s'"
    by (rule in_flightI [of ?s' i t1 f "new_fence s"]) (use fields f1 in simp_all)
  then show thesis using that eq fields(1) by simp
qed

end

text \<open>
  A validated job handed to an idle pixel pipe is started. Whatever the caches and the MMUs answer,
  and however long the resets take while the clock advances, the callback of the scheduler returns
  the new fence with the job in flight and the error mark of the previous job cleared.
\<close>

theorem lima_sched_pp_run_job_starts:
  assumes "fresh_pipe h0 s0" and "(pipe_step hw dev cfg (pp_vtable hw dev))\<^sup>*\<^sup>* (h0, s0) (h, s)"
    and "clock_advances hw" and "sp_tasks s i = Some t" and "h (t_vm t) > 0"
    and "\<not> re_finished_error env" and "re_fence env = Some f" and "re_pm_resume env = OK"
    and "lima_pp_task_validate (sp_backend s) (t_frame t) = OK" and "List.length (t_frame t) = 68"
    and "pp_bcast (sp_backend s) = None" and "List.length (pp_processor (sp_backend s)) \<le> 4"
    and "lima_ip_pp_bcast \<notin> set (pp_processor (sp_backend s))"
  shows "\<exists>s'. lima_sched_run_job hw dev cfg (pp_vtable hw dev) env i s = Some (Some f, s') \<and>
    in_flight s' \<and> sp_current_task s' = Some i \<and> \<not> sp_error s'"
proof -
  have inv: "sched_inv h s" using pp_pipe.steps_inv [OF assms(2)] fresh_pipe_inv [OF assms(1)] by simp
  have run: "vt_task_run (pp_vtable hw dev) (t\<lparr>t_fence := Some f\<rparr>) (sp_backend s) io \<noteq> None" for io
    using m400_task_run [OF assms(9,11,12,13,10,3), of dev io]
    by (auto simp: pp_vtable_def)
  obtain s' where "lima_sched_run_job hw dev cfg (pp_vtable hw dev) env i s = Some (Some f, s')" "in_flight s'"
    "sp_current_task s' = Some i" "\<not> sp_error s'"
    by (rule pp_pipe.run_job_starts [OF inv assms(3,4,5,6,7,8) run])
  then show ?thesis by blast
qed

section \<open>Tearing a pipe down\<close>

text \<open>What the rest of the driver keeps while the teardown sleeps: the books, and the current job.\<close>

definition settled :: "'b sched \<Rightarrow> bool" where
  "settled s \<longleftrightarrow> (\<exists>h. sched_inv h s) \<and> (\<forall>i. sp_current_task s = Some i \<longrightarrow> sp_tasks s i \<noteq> None)"

lemma settled_probe:
  assumes "settled s"
  obtains busy where "pipe_task_in_flight w s = Some busy"
proof (cases "sp_current_task s")
  case None
  then show ?thesis using that [of False] by (simp add: pipe_task_in_flight_def)
next
  case (Some i)
  then obtain t where t: "sp_tasks s i = Some t" using assms by (auto simp: settled_def)
  then obtain f fn where "t_fence t = Some f" "sp_fences s f = Some fn"
    using assms Some by (auto simp: settled_def sched_inv_def current_ok_def)
  then show ?thesis using that Some t by (cases w) (simp_all add: pipe_task_in_flight_def)
qed

lemma fini_wait_returns:
  assumes "settled s" and "\<And>n s. settled s \<Longrightarrow> settled (world n s) \<and> sp_sleeps (world n s) = sp_sleeps s"
    and "waited \<le> 2000"
  shows "\<exists>s1. pipe_fini_wait w world waited s = Some s1 \<and> settled s1 \<and>
    10 * sp_sleeps s1 + waited \<le> 10 * sp_sleeps s + 2009"
  using assms(1,3)
proof (induction "2000 - waited" arbitrary: waited s rule: less_induct)
  case less
  obtain busy where b: "pipe_task_in_flight w s = Some busy" by (rule settled_probe [OF less.prems(1)])
  show ?case
  proof (cases "busy \<and> waited < 2000")
    case False
    then have "pipe_fini_wait w world waited s = Some s"
      using b by (subst pipe_fini_wait.simps) (auto simp: LIMA_SCHED_PIPE_FINI_TIMEOUT_MS_def)
    then show ?thesis using less.prems by simp
  next
    case True
    let ?s = "s\<lparr>sp_sleeps := sp_sleeps s + 1\<rparr>" and ?s1 = "world (sp_sleeps s) (s\<lparr>sp_sleeps := sp_sleeps s + 1\<rparr>)"
    have "sched_inv h ?s = sched_inv h s" for h by (rule sched_inv_cong) simp_all
    then have "settled ?s" using less.prems(1) by (simp add: settled_def)
    then have s1: "settled ?s1" "sp_sleeps ?s1 = sp_sleeps s + 1" using assms(2) by simp_all
    have eq: "pipe_fini_wait w world waited s = pipe_fini_wait w world (waited + 10) ?s1"
      using True b by (subst pipe_fini_wait.simps)
        (simp add: LIMA_SCHED_PIPE_FINI_TIMEOUT_MS_def LIMA_SCHED_PIPE_FINI_POLL_MS_def)
    show ?thesis
    proof (cases "waited + 10 \<le> 2000")
      case le: True
      then have "\<exists>s2. pipe_fini_wait w world (waited + 10) ?s1 = Some s2 \<and> settled s2 \<and>
          10 * sp_sleeps s2 + (waited + 10) \<le> 10 * sp_sleeps ?s1 + 2009"
        by (intro less.hyps s1(1)) (use True in auto)
      then show ?thesis unfolding eq using s1(2) by auto
    next
      case False
      obtain busy1 where "pipe_task_in_flight w ?s1 = Some busy1" by (rule settled_probe [OF s1(1)])
      then have "pipe_fini_wait w world (waited + 10) ?s1 = Some ?s1"
        using False by (subst pipe_fini_wait.simps) (simp add: LIMA_SCHED_PIPE_FINI_TIMEOUT_MS_def)
      then show ?thesis unfolding eq using s1 True by auto
    qed
  qed
qed

lemma fini_drops_vm:
  assumes "sched_inv h s" and "sp_current_vm s' = sp_current_vm s" and "sp_vms s' = sp_vms s"
  obtains s2 where "vm_put_ref (sp_current_vm s') s' = Some s2" and "s2 = s'\<lparr>sp_vms := sp_vms s2\<rparr>"
    and "\<forall>v. vm_refs s2 v = h v"
proof -
  have "vms_ok h s'" using assms by (simp add: sched_inv_def vms_ok_def vm_refs_def)
  from vm_put_ref_spec [OF this refl] show thesis using that by blast
qed

context pipe_backend
begin

lemma pipe_fini_returns:
  assumes "settled s" and "\<And>n s. settled s \<Longrightarrow> settled (world n s) \<and> sp_sleeps (world n s) = sp_sleeps s"
    and "clock_advances hw"
  obtains s' where "lima_sched_pipe_fini vt w world s = Some s'" and "sp_current_task s' = None"
    and "sp_current_vm s' = None" and "sp_sleeps s' \<le> sp_sleeps s + 200"
proof -
  obtain s1 where w: "pipe_fini_wait w world 0 s = Some s1" and ok: "settled s1"
    and n: "10 * sp_sleeps s1 + 0 \<le> 10 * sp_sleeps s + 2009"
    using fini_wait_returns [where world = world and waited = 0 and w = w, OF assms(1,2)] by auto
  obtain busy where b: "pipe_task_in_flight w s1 = Some busy" by (rule settled_probe [OF ok])
  obtain h where inv: "sched_inv h s1" using ok by (auto simp: settled_def)
  show thesis
  proof (cases busy)
    case True
    then obtain i t f where c: "sp_current_task s1 = Some i" "sp_tasks s1 i = Some t" "t_fence t = Some f"
      using b by (auto simp: pipe_task_in_flight_def bind_eq_Some_conv split: option.splits)
    then obtain fn where fn: "sp_fences s1 f = Some fn" using inv by (auto simp: sched_inv_def current_ok_def)
    obtain bb io1 where e: "vt_task_error vt (sp_backend s1) (sp_io s1) = Some (bb, io1)"
      using error_returns [OF assms(3)] by fastforce
    let ?s3 = "s1\<lparr>sp_error := True, sp_backend := bb, sp_io := io1,
        sp_fences := (sp_fences s1)(f \<mapsto> fn\<lparr>fn_error := Some ENODEV, fn_signalled := True\<rparr>)\<rparr>"
    obtain s4 where p: "vm_put_ref (sp_current_vm s1) ?s3 = Some s4" and s4: "s4 = ?s3\<lparr>sp_vms := sp_vms s4\<rparr>"
      using fini_drops_vm [OF inv, of ?s3] by auto
    have sl: "sp_sleeps s4 = sp_sleeps s1" by (subst s4) simp
    have "lima_sched_pipe_fini vt w world s = Some (s4\<lparr>sp_current_vm := None, sp_current_task := None\<rparr>)"
      using w b True c fn e p
      by (simp add: lima_sched_pipe_fini_def Let_def dma_fence_set_error_def dma_fence_signal_def update_fence_def)
    then show ?thesis using that sl n by simp
  next
    case False
    obtain s2 where p: "vm_put_ref (sp_current_vm s1) s1 = Some s2" and s2: "s2 = s1\<lparr>sp_vms := sp_vms s2\<rparr>"
      using fini_drops_vm [OF inv, of s1] by auto
    have sl: "sp_sleeps s2 = sp_sleeps s1" by (subst s2) simp
    show ?thesis
    proof (cases "sp_current_task s1")
      case None
      then have "sp_current_vm s1 = None" using inv by (simp add: sched_inv_def)
      then show ?thesis using that [of s1] None False w b n by (simp add: lima_sched_pipe_fini_def)
    next
      case (Some i)
      then have "lima_sched_pipe_fini vt w world s = Some (s2\<lparr>sp_current_vm := None, sp_current_task := None\<rparr>)"
        using w b False p by (simp add: lima_sched_pipe_fini_def)
      then show ?thesis using that sl n by simp
    qed
  qed
qed

end


section \<open>A job that is stuck, a timeout that is late\<close>

lemma fini_wait_stuck:
  assumes "in_flight s" and "waited = 10 * k" and "k \<le> 200"
  shows "pipe_fini_wait False (\<lambda>_ s. s) waited s = Some (s\<lparr>sp_sleeps := sp_sleeps s + (200 - k)\<rparr>)"
  using assms
proof (induction "200 - k" arbitrary: k waited s)
  case 0
  then show ?case
    by (subst pipe_fini_wait.simps) (simp add: in_flight_def LIMA_SCHED_PIPE_FINI_TIMEOUT_MS_def)
next
  case (Suc n)
  let ?s = "s\<lparr>sp_sleeps := sp_sleeps s + 1\<rparr>"
  have f: "in_flight ?s" using Suc.prems(1) by (subst in_flight_cong [where s = s]) simp_all
  have "k < 200" using Suc.hyps(2) by simp
  then have "pipe_fini_wait False (\<lambda>_ s. s) waited s = pipe_fini_wait False (\<lambda>_ s. s) (waited + 10) ?s"
    using Suc.prems by (subst pipe_fini_wait.simps)
      (simp add: in_flight_def LIMA_SCHED_PIPE_FINI_TIMEOUT_MS_def LIMA_SCHED_PIPE_FINI_POLL_MS_def)
  also have "\<dots> = Some (?s\<lparr>sp_sleeps := sp_sleeps ?s + (200 - (k + 1))\<rparr>)"
    by (rule Suc.hyps(1)) (use Suc f in auto)
  also have "\<dots> = Some (s\<lparr>sp_sleeps := sp_sleeps s + (200 - k)\<rparr>)" using Suc.hyps(2) by simp
  finally show ?case .
qed

lemma vm_put_ref_keeps:
  "vm_put_ref vo s = Some s' \<Longrightarrow> s' = s\<lparr>sp_vms := sp_vms s'\<rparr>"
  by (auto simp: vm_put_ref_def bind_eq_Some_conv split: option.splits)

text \<open>
  a job that never completes. The teardown waits its full two seconds for it, then completes
  its fence with \<open>-ENODEV\<close> so that no waiter is left behind; but the runtime-PM reference the
  job took when it was started is not given back.
\<close>

theorem lima_sched_pipe_fini_stuck_job:
  assumes "sched_inv h s" and "in_flight s"
    and "lima_sched_pipe_fini (pp_vtable hw dev) False (\<lambda>_ s. s) s = Some s'"
  shows "sp_sleeps s' = sp_sleeps s + 200 \<and> sp_pm s' = 1 \<and> sp_current_task s' = None \<and>
    (\<exists>i t f fn. sp_current_task s = Some i \<and> sp_tasks s i = Some t \<and> t_fence t = Some f \<and>
       sp_fences s' f = Some fn \<and> fn_signalled fn \<and> fn_error fn = Some ENODEV)"
proof -
  from assms(2) obtain i t f fn where c: "sp_current_task s = Some i" "sp_tasks s i = Some t" "t_fence t = Some f"
    "sp_fences s f = Some fn" "\<not> fn_signalled fn" by (rule in_flightE)
  let ?s1 = "s\<lparr>sp_sleeps := sp_sleeps s + 200\<rparr>"
  have w: "pipe_fini_wait False (\<lambda>_ s. s) 0 s = Some ?s1" using fini_wait_stuck [OF assms(2), of 0 0] by simp
  from assms(3) obtain bb io1 s4 where
    p: "vm_put_ref (sp_current_vm s) (?s1\<lparr>sp_error := True, sp_backend := bb, sp_io := io1,
        sp_fences := (sp_fences s)(f \<mapsto> fn\<lparr>fn_error := Some ENODEV, fn_signalled := True\<rparr>)\<rparr>) = Some s4"
    and s': "s' = s4\<lparr>sp_current_vm := None, sp_current_task := None\<rparr>"
    using c by (auto simp: lima_sched_pipe_fini_def w pipe_task_in_flight_def bind_eq_Some_conv Let_def
        dma_fence_set_error_def dma_fence_signal_def update_fence_def)
  have "sp_sleeps s4 = sp_sleeps s + 200" "sp_pm s4 = sp_pm s"
    "sp_fences s4 f = Some (fn\<lparr>fn_error := Some ENODEV, fn_signalled := True\<rparr>)"
    by (subst vm_put_ref_keeps [OF p], simp)+
  moreover have "sp_pm s = 1" using assms by (simp add: sched_inv_def)
  ultimately show ?thesis using c by (simp add: s')
qed

text \<open>
  a timeout that comes late. If the timeout handler of a job runs after the job has completed
  (the work item was already queued), it gives the power reference back a second time and the usage count of
  the device falls below zero.
\<close>

theorem lima_sched_late_timeout_underflows:
  assumes "fresh_pipe h0 s0" and "(pipe_step hw dev cfg (gp_vtable hw env base))\<^sup>*\<^sup>* (h0, s0) (h, s)"
    and "in_flight s" and "\<not> sp_error s"
    and "lima_sched_pipe_task_done (gp_vtable hw env base) s = Some s1"
    and "lima_sched_timedout_job hw dev cfg (gp_vtable hw env base) s1 = Some s2"
  shows "sp_pm s1 = 0 \<and> sp_pm s2 = -1"
proof -
  have inv: "sched_inv h s" using gp_pipe.steps_inv [OF assms(2)] fresh_pipe_inv [OF assms(1)] by simp
  have pm: "sp_pm s1 = 0" using gp_pipe.task_done_inv [OF inv assms(3)] assms(4,5) by (metis option.inject)
  from assms(6) obtain b io1 s3 where p: "vm_put_ref (sp_current_vm s1)
      (s1\<lparr>sp_backend := b, sp_io := on_mmus cfg (lima_mmu_page_fault_resume hw dev) io1\<rparr>) = Some s3"
    and s2: "s2 = lima_pm_idle (s3\<lparr>sp_current_vm := None, sp_current_task := None\<rparr>)"
    by (auto simp: lima_sched_timedout_job_def bind_eq_Some_conv)
  have "sp_pm s3 = sp_pm s1" by (subst vm_put_ref_keeps [OF p]) simp
  then show ?thesis using pm by (simp add: s2 lima_pm_idle_def)
qed

text \<open>
  a recovery that comes late. The timeout handler does not cancel a queued \<open>recover_work\<close>;
  when that work runs after it, it follows the null \<open>current_task\<close>.
\<close>

theorem lima_sched_late_recovery_derefs_null:
  assumes "sp_recover s" and "lima_sched_timedout_job hw dev cfg vt s = Some s'"
  shows "sp_recover s' \<and> lima_sched_recover_work hw dev cfg vt s' = None"
proof -
  from assms(2) obtain b io1 s3 where p: "vm_put_ref (sp_current_vm s)
      (s\<lparr>sp_backend := b, sp_io := on_mmus cfg (lima_mmu_page_fault_resume hw dev) io1\<rparr>) = Some s3"
    and s': "s' = lima_pm_idle (s3\<lparr>sp_current_vm := None, sp_current_task := None\<rparr>)"
    by (auto simp: lima_sched_timedout_job_def bind_eq_Some_conv)
  have "sp_recover s3 = sp_recover s" by (subst vm_put_ref_keeps [OF p]) simp
  then show ?thesis using assms(1)
    by (auto simp: s' lima_pm_idle_def lima_sched_recover_work_def Option.bind_eq_None_conv)
qed

section \<open>Concrete pipes\<close>

definition demo_cfg :: pipe_cfg where
  "demo_cfg = \<lparr>pc_l2_cache = [lima_ip_l2_cache0], pc_mmu = [lima_ip_ppmmu0, lima_ip_ppmmu1],
     pc_bcast_mmu = None, pc_frame_size = 272\<rparr>"

definition demo_task :: "u32 list \<Rightarrow> lima_sched_task" where
  "demo_task f = \<lparr>t_vm = 3, t_frame = f, t_bos = [], t_recoverable = True, t_heap = None, t_fence = None\<rparr>"

definition demo_sched :: "u32 list \<Rightarrow> 'b \<Rightarrow> 'b sched" where
  "demo_sched f b = \<lparr>sp_current_task = None, sp_current_vm = None, sp_error = False, sp_fence_seqno = 0,
     sp_tasks = [0 \<mapsto> demo_task f], sp_fences = (\<lambda>_. None), sp_vms = [3 \<mapsto> vm_blank 0x1000], sp_pm = 0,
     sp_recover = True, sp_faults = 0, sp_sleeps = 0, sp_l2_timeouts = 0, sp_backend = b, sp_io = []\<rparr>"

definition demo_run_env :: run_env where
  "demo_run_env = \<lparr>re_finished_error = False, re_fence = Some 5, re_pm_resume = OK\<rparr>"

definition demo_holders :: "nat \<Rightarrow> nat" where
  "demo_holders v = (if v = 3 then vm_refcount (vm_blank 0x1000) else 0)"

lemma demo_fresh: "fresh_pipe demo_holders (demo_sched f b)"
  by (auto simp: fresh_pipe_def demo_sched_def vms_ok_def vm_refs_def demo_holders_def vm_blank_def)

lemma demo_sched_simps [simp]:
  "sp_tasks (demo_sched f b) 0 = Some (demo_task f)" "sp_backend (demo_sched f b) = b"
  "t_vm (demo_task f) = 3" "t_frame (demo_task f) = f" "demo_holders 3 = 1" "sp_fences (demo_sched f b) = (\<lambda>_. None)"
  "\<not> re_finished_error demo_run_env" "re_fence demo_run_env = Some 5" "re_pm_resume demo_run_env = OK"
  by (simp_all add: demo_sched_def demo_task_def demo_holders_def demo_run_env_def vm_blank_def)

lemma demo_not_in_flight: "\<not> in_flight (demo_sched f b)"
  by (simp add: in_flight_def pipe_task_in_flight_def demo_sched_def)

lemma demo_pp_clock: "clock_advances demo_pp_hw"
  unfolding demo_pp_hw_def by (rule demo_clock)

lemma demo_gp_clock: "clock_advances demo_gp_hw"
  unfolding demo_gp_hw_def by (rule demo_clock)

abbreviation demo_m400_frame :: "u32 list" where "demo_m400_frame \<equiv> take 68 demo_pp_frame"

lemma demo_m400:
  "lima_pp_task_validate (demo_pp_pipe None) demo_m400_frame = OK" "List.length demo_m400_frame = 68"
  "pp_bcast (demo_pp_pipe None) = None" "List.length (pp_processor (demo_pp_pipe None)) \<le> 4"
  "lima_ip_pp_bcast \<notin> set (pp_processor (demo_pp_pipe None))"
  by (simp_all add: lima_pp_task_validate_def demo_pp_pipe_def frame_num_pp_def demo_pp_frame_def)

lemma demo_run_step:
  assumes "lima_sched_run_job hw dev cfg vt demo_run_env 0 (demo_sched f b) = Some (fo, s')"
  shows "pipe_step hw dev cfg vt (demo_holders, demo_sched f b) (demo_holders, s')"
  by (rule pipe_step.run [where t = "demo_task f", OF demo_not_in_flight _ _ _ assms]) simp_all

lemma demo_pp_running:
  obtains s where "(pipe_step demo_pp_hw demo_pp_dev demo_cfg (pp_vtable demo_pp_hw demo_pp_dev))\<^sup>*\<^sup>*
      (demo_holders, demo_sched demo_m400_frame (demo_pp_pipe None)) (demo_holders, s)"
    and "in_flight s"
proof -
  let ?s = "demo_sched demo_m400_frame (demo_pp_pipe None)"
  have run: "vt_task_run (pp_vtable demo_pp_hw demo_pp_dev) (demo_task demo_m400_frame\<lparr>t_fence := Some 5\<rparr>)
      (sp_backend ?s) io \<noteq> None" for io
    using m400_task_run [OF demo_m400(1,3,4,5,2) demo_pp_clock, of demo_pp_dev io] by (auto simp: pp_vtable_def)
  obtain s where r: "lima_sched_run_job demo_pp_hw demo_pp_dev demo_cfg (pp_vtable demo_pp_hw demo_pp_dev)
      demo_run_env 0 ?s = Some (Some 5, s)" and f: "in_flight s"
    by (rule pp_pipe.run_job_starts [where cfg = demo_cfg and i = 0 and env = demo_run_env and f = 5,
        OF fresh_pipe_inv [OF demo_fresh] demo_pp_clock _ _ _ _ _ run]) simp_all
  show thesis by (rule that [OF _ f], rule r_into_rtranclp, rule demo_run_step [OF r])
qed

lemma demo_gp_running:
  obtains s where "(pipe_step demo_gp_hw demo_pp_dev demo_cfg (gp_vtable demo_gp_hw demo_heap_env 0))\<^sup>*\<^sup>*
      (demo_holders, demo_sched f \<lparr>gb_bos = (\<lambda>_. demo_heap), gb_sys = demo_vmsys, gb_async = False\<rparr>) (demo_holders, s)"
    and "in_flight s" and "\<not> sp_error s"
proof -
  let ?b = "\<lparr>gb_bos = (\<lambda>_. demo_heap), gb_sys = demo_vmsys, gb_async = False\<rparr>"
  have run: "vt_task_run (gp_vtable demo_gp_hw demo_heap_env 0) (demo_task f\<lparr>t_fence := Some 5\<rparr>)
      (sp_backend (demo_sched f ?b)) io \<noteq> None" for io
    by (simp add: gp_vtable_def lima_gp_task_run_def demo_task_def lima_gp_soft_reset_async_wait_def Let_def)
  obtain s where r: "lima_sched_run_job demo_gp_hw demo_pp_dev demo_cfg (gp_vtable demo_gp_hw demo_heap_env 0)
      demo_run_env 0 (demo_sched f ?b) = Some (Some 5, s)" and f: "in_flight s" "\<not> sp_error s"
    by (rule gp_pipe.run_job_starts [where cfg = demo_cfg and i = 0 and env = demo_run_env and f = 5,
        OF fresh_pipe_inv [OF demo_fresh] demo_gp_clock _ _ _ _ _ run]) simp_all
  show thesis by (rule that [OF _ f], rule r_into_rtranclp, rule demo_run_step [OF r])
qed

theorem lima_sched_pp_run_job_starts_witness:
  "\<exists>s'. lima_sched_run_job demo_pp_hw demo_pp_dev demo_cfg (pp_vtable demo_pp_hw demo_pp_dev) demo_run_env 0
     (demo_sched demo_m400_frame (demo_pp_pipe None)) = Some (Some 5, s') \<and> in_flight s'"
  using lima_sched_pp_run_job_starts [where i = 0 and t = "demo_task demo_m400_frame" and env = demo_run_env
      and f = 5 and cfg = demo_cfg and dev = demo_pp_dev and s = "demo_sched demo_m400_frame (demo_pp_pipe None)",
      OF demo_fresh rtranclp.rtrancl_refl demo_pp_clock] demo_m400 by auto



lemma demo_settled: "settled (demo_sched f b)"
  using fresh_pipe_inv [OF demo_fresh, of f b] by (auto simp: settled_def demo_sched_def)


theorem lima_sched_pipe_fini_stuck_job_witness:
  "\<exists>s s'. lima_sched_pipe_fini (pp_vtable demo_pp_hw demo_pp_dev) False (\<lambda>_ s. s) s = Some s' \<and>
     in_flight s \<and> sp_pm s' = 1"
proof -
  obtain s where r: "(pipe_step demo_pp_hw demo_pp_dev demo_cfg (pp_vtable demo_pp_hw demo_pp_dev))\<^sup>*\<^sup>*
      (demo_holders, demo_sched demo_m400_frame (demo_pp_pipe None)) (demo_holders, s)"
    and f: "in_flight s" by (rule demo_pp_running)
  have inv: "sched_inv demo_holders s" using pp_pipe.steps_inv [OF r] by (simp add: fresh_pipe_inv [OF demo_fresh])
  then have "settled s" using f by (auto simp: settled_def elim: in_flightE)
  then obtain s' where d: "lima_sched_pipe_fini (pp_vtable demo_pp_hw demo_pp_dev) False (\<lambda>_ s. s) s = Some s'"
    by (rule pp_pipe.pipe_fini_returns [where world = "\<lambda>_ s. s" and w = False and dev = demo_pp_dev,
        OF _ _ demo_pp_clock]) simp_all
  show ?thesis using lima_sched_pipe_fini_stuck_job [OF inv f d] d f by blast
qed

theorem lima_sched_late_timeout_underflows_witness:
  "\<exists>s1 s2. lima_sched_timedout_job demo_gp_hw demo_pp_dev demo_cfg (gp_vtable demo_gp_hw demo_heap_env 0) s1 =
     Some s2 \<and> sp_pm s1 = 0 \<and> sp_pm s2 = -1"
proof -
  obtain s where r: "(pipe_step demo_gp_hw demo_pp_dev demo_cfg (gp_vtable demo_gp_hw demo_heap_env 0))\<^sup>*\<^sup>*
      (demo_holders, demo_sched [] \<lparr>gb_bos = (\<lambda>_. demo_heap), gb_sys = demo_vmsys, gb_async = False\<rparr>)
      (demo_holders, s)" and f: "in_flight s" "\<not> sp_error s" by (rule demo_gp_running)
  have inv: "sched_inv demo_holders s" using gp_pipe.steps_inv [OF r] by (simp add: fresh_pipe_inv [OF demo_fresh])
  obtain s1 where d: "lima_sched_pipe_task_done (gp_vtable demo_gp_hw demo_heap_env 0) s = Some s1"
    and i1: "sched_inv demo_holders s1" by (rule gp_pipe.task_done_inv [OF inv f(1)])
  obtain s2 where t: "lima_sched_timedout_job demo_gp_hw demo_pp_dev demo_cfg
      (gp_vtable demo_gp_hw demo_heap_env 0) s1 = Some s2"
    using gp_pipe.timedout_returns [OF i1 demo_gp_clock] by blast
  show ?thesis using lima_sched_late_timeout_underflows [OF demo_fresh r f d t] t by blast
qed

theorem lima_sched_late_recovery_derefs_null_witness:
  "\<exists>s'. lima_sched_timedout_job demo_gp_hw demo_pp_dev demo_cfg (gp_vtable demo_gp_hw demo_heap_env 0)
     (demo_sched [] \<lparr>gb_bos = (\<lambda>_. demo_heap), gb_sys = demo_vmsys, gb_async = False\<rparr>) = Some s' \<and>
     lima_sched_recover_work demo_gp_hw demo_pp_dev demo_cfg (gp_vtable demo_gp_hw demo_heap_env 0) s' = None"
proof -
  let ?s = "demo_sched [] \<lparr>gb_bos = (\<lambda>_. demo_heap), gb_sys = demo_vmsys, gb_async = False\<rparr>"
  have q: "sp_recover ?s" by (simp add: demo_sched_def)
  obtain s' where t: "lima_sched_timedout_job demo_gp_hw demo_pp_dev demo_cfg
      (gp_vtable demo_gp_hw demo_heap_env 0) ?s = Some s'"
    using gp_pipe.timedout_returns [OF fresh_pipe_inv [OF demo_fresh] demo_gp_clock] by blast
  show ?thesis using lima_sched_late_recovery_derefs_null [OF q t] t by blast
qed

end
