(* ===== verification/Lima_Device.thy ===== *)
theory Lima_Device
  imports Lima_Sched_Fini
begin

text \<open>
  The device as a whole (\<open>lima_device.c\<close>, \<open>lima_ccu_debug.c\<close>): clocks, reset and supply, the bring-up and
  shutdown of every block, the two scheduler pipes, suspend and resume. Clocks, the reset line
  and the supply are counted: enables minus disables. Return codes are kept without their sign
  (\<open>lima_ccu_force_pll_gpu\<close> answers positive codes, everything else negative ones); every caller
  tests them against zero only.
\<close>

section \<open>The CCU stopgap\<close>

definition A64_CCU_PA :: u32 where "A64_CCU_PA = 0x01c20000"
definition CCU_PLL_GPU_CTRL :: u32 where "CCU_PLL_GPU_CTRL = 0x038"
definition PLL_GPU_ENABLE_BIT :: nat where "PLL_GPU_ENABLE_BIT = 31"
definition PLL_GPU_LOCK_BIT :: nat where "PLL_GPU_LOCK_BIT = 28"

definition CCU_GPU_CLK_REG :: u32 where "CCU_GPU_CLK_REG = 0x1A0"
definition CCU_BUS_GATING1 :: u32 where "CCU_BUS_GATING1 = 0x064"
definition CCU_BUS_SOFT_RST1 :: u32 where "CCU_BUS_SOFT_RST1 = 0x2C4"

text \<open>What is printed is left out.\<close>

definition lima_ccu_dump :: "hw \<Rightarrow> bool \<Rightarrow> io \<Rightarrow> io" where
  "lima_ccu_dump hw mapdev io =
     (if \<not> mapdev then io
      else snd (readl hw (A64_CCU_PA + CCU_BUS_SOFT_RST1) (snd (readl hw (A64_CCU_PA + CCU_BUS_GATING1)
        (snd (readl hw (A64_CCU_PA + CCU_GPU_CLK_REG) (snd (readl hw (A64_CCU_PA + CCU_PLL_GPU_CTRL) io))))))))"

text \<open>\<open>DELAY(10)\<close> is ten microseconds of \<open>DELAY\<close>.\<close>

fun pll_lock_loop :: "hw \<Rightarrow> nat \<Rightarrow> io \<Rightarrow> io" where
  "pll_lock_loop hw 0 io = io"
| "pll_lock_loop hw (Suc n) io =
     (let (v, io1) = readl hw (A64_CCU_PA + CCU_PLL_GPU_CTRL) io in
      if drop_bit PLL_GPU_LOCK_BIT v AND 1 \<noteq> 0 then io1
      else pll_lock_loop hw n (replicate 10 DELAY @ io1))"

text \<open>\<open>force\<close> is the tunable \<open>hw.lima.force_pll_gpu\<close>, \<open>mapdev\<close> whether the page can be mapped.\<close>

definition lima_ccu_force_pll_gpu :: "hw \<Rightarrow> int \<Rightarrow> bool \<Rightarrow> io \<Rightarrow> rc \<times> io" where
  "lima_ccu_force_pll_gpu hw force mapdev io =
     (let reg = A64_CCU_PA + CCU_PLL_GPU_CTRL in
      if force = 0 then (OK, io)
      else if \<not> mapdev then (E ENXIO, io)
      else
        let (v, io1) = readl hw reg io;
            io2 = (if drop_bit PLL_GPU_ENABLE_BIT v AND 1 = 0
                   then writel (v OR push_bit PLL_GPU_ENABLE_BIT 1) reg io1 else io1);
            (v2, io3) = readl hw reg (pll_lock_loop hw 1000 io2)
        in if drop_bit PLL_GPU_LOCK_BIT v2 AND 1 = 0 then (E ETIMEDOUT, io3) else (OK, io3))"

section \<open>State\<close>

text \<open>
  The pipes are the ones of \<open>Lima_Sched\<close>; their histories of accesses are all copies of \<open>ld_io\<close>, see \<open>on_gp\<close>.
  \<open>ld_started p\<close>: the DRM scheduler of the pipe runs.
\<close>

record lima_device =
  ld_dev :: lima_dev
  ld_irq :: "lima_ip_id \<Rightarrow> int"
  ld_has_reset :: bool
  ld_has_regulator :: bool
  ld_clk_bus :: int
  ld_clk_gpu :: int
  ld_reset :: int
  ld_supply :: int
  ld_empty_vm :: "lima_vm option"
  ld_va_start :: u64
  ld_va_end :: u64
  ld_dlbu :: "u64 option"
  ld_iomem :: u32
  ld_pmu_mask :: u32
  ld_l2_timeouts :: u64
  ld_gp_version :: u32
  ld_pp_version :: u32
  ld_gp_slab :: "bool \<times> int"
  ld_pp_slab :: "bool \<times> int"
  ld_gp :: "gp_backend sched"
  ld_pp :: "pp_pipe sched"
  ld_gp_cfg :: pipe_cfg
  ld_pp_cfg :: pipe_cfg
  ld_gp_processor :: "lima_ip_id list"
  ld_started :: "lima_pipe_id \<Rightarrow> bool"
  ld_errors :: nat        \<comment> \<open>tasks on \<open>error_task_list\<close>\<close>
  ld_error_lock :: bool   \<comment> \<open>\<open>error_task_list_lock\<close> is initialised\<close>
  ld_io :: io

text \<open>What the kernel and the hardware answer during a call.\<close>

record device_env =
  de_hw :: hw
  de_stage :: "int option"             \<comment> \<open>\<open>kenv hw.lima.clk_stage\<close>\<close>
  de_force_pll :: int
  de_mapdev :: bool
  de_get_bus :: rc
  de_get_gpu :: rc
  de_get_reset :: "errno + bool"       \<comment> \<open>whether there is a reset control\<close>
  de_get_regulator :: rc
  de_bus_on :: rc
  de_gpu_on :: rc
  de_deassert :: rc
  de_regulator_on :: rc
  de_vm :: vm_create_env
  de_dlbu :: "u64 option"
  de_iomem :: "errno + u32"
  de_irq :: "lima_ip_id \<Rightarrow> errno + int"
  de_request_irq :: "lima_ip_id \<Rightarrow> rc"
  de_sched_init :: "lima_pipe_id \<Rightarrow> int \<Rightarrow> rc"
  de_timeout_ms :: int
  de_gp_slab :: bool
  de_pp_slab :: bool
  de_heap :: heap_env
  de_fake_wedge :: bool
  de_gp_world :: "nat \<Rightarrow> gp_backend sched \<Rightarrow> gp_backend sched"
  de_pp_world :: "nat \<Rightarrow> pp_pipe sched \<Rightarrow> pp_pipe sched"
  de_hw_rq_count :: "lima_pipe_id \<Rightarrow> nat"  \<comment> \<open>jobs the DRM scheduler has given to the hardware\<close>

section \<open>Clocks, reset and supply\<close>

definition LIMA_CLK_STAGE_NONE :: int where "LIMA_CLK_STAGE_NONE = 0"
definition LIMA_CLK_STAGE_BUS :: int where "LIMA_CLK_STAGE_BUS = 1"
definition LIMA_CLK_STAGE_CORE :: int where "LIMA_CLK_STAGE_CORE = 2"
definition LIMA_CLK_STAGE_FULL :: int where "LIMA_CLK_STAGE_FULL = 3"

definition lima_clk_stage :: "int option \<Rightarrow> int" where
  "lima_clk_stage kenv =
     (let stage = (case kenv of Some v \<Rightarrow> v | None \<Rightarrow> LIMA_CLK_STAGE_FULL) in
      if stage < LIMA_CLK_STAGE_NONE \<or> stage > LIMA_CLK_STAGE_FULL then LIMA_CLK_STAGE_FULL else stage)"

definition bus_on :: "lima_device \<Rightarrow> lima_device" where "bus_on d = d\<lparr>ld_clk_bus := ld_clk_bus d + 1\<rparr>"
definition bus_off :: "lima_device \<Rightarrow> lima_device" where "bus_off d = d\<lparr>ld_clk_bus := ld_clk_bus d - 1\<rparr>"
definition gpu_on :: "lima_device \<Rightarrow> lima_device" where "gpu_on d = d\<lparr>ld_clk_gpu := ld_clk_gpu d + 1\<rparr>"
definition gpu_off :: "lima_device \<Rightarrow> lima_device" where "gpu_off d = d\<lparr>ld_clk_gpu := ld_clk_gpu d - 1\<rparr>"

definition dump :: "device_env \<Rightarrow> lima_device \<Rightarrow> lima_device" where
  "dump env d = d\<lparr>ld_io := lima_ccu_dump (de_hw env) (de_mapdev env) (ld_io d)\<rparr>"

definition lima_clk_enable :: "device_env \<Rightarrow> lima_device \<Rightarrow> rc \<times> lima_device" where
  "lima_clk_enable env d =
     (let stage = lima_clk_stage (de_stage env); d0 = dump env d in
      if stage < LIMA_CLK_STAGE_BUS then (OK, d0)
      else case de_bus_on env of E e \<Rightarrow> (E e, d0) | OK \<Rightarrow>
      let d1 = dump env (bus_on d0) in
      if stage < LIMA_CLK_STAGE_CORE then (OK, d1)
      else case lima_ccu_force_pll_gpu (de_hw env) (de_force_pll env) (de_mapdev env) (ld_io d1) of
        (E e, io) \<Rightarrow> (E e, bus_off (d1\<lparr>ld_io := io\<rparr>))
      | (OK, io) \<Rightarrow>
      let d2 = d1\<lparr>ld_io := io\<rparr> in
      case de_gpu_on env of E e \<Rightarrow> (E e, bus_off d2) | OK \<Rightarrow>
      let d3 = dump env (gpu_on d2) in
      if stage < LIMA_CLK_STAGE_FULL then (OK, d3)
      else if ld_has_reset d3 then
        (case de_deassert env of
           E e \<Rightarrow> (E e, bus_off (gpu_off d3))
         | OK \<Rightarrow> (OK, dump env (d3\<lparr>ld_reset := ld_reset d3 + 1\<rparr>)))
      else (OK, dump env d3))"

definition lima_clk_disable :: "lima_device \<Rightarrow> lima_device" where
  "lima_clk_disable d =
     bus_off (gpu_off (if ld_has_reset d then d\<lparr>ld_reset := ld_reset d - 1\<rparr> else d))"

definition lima_clk_init :: "device_env \<Rightarrow> lima_device \<Rightarrow> rc \<times> lima_device" where
  "lima_clk_init env d =
     (case de_get_bus env of E e \<Rightarrow> (E e, d) | OK \<Rightarrow>
      case de_get_gpu env of E e \<Rightarrow> (E e, d) | OK \<Rightarrow>
      case de_get_reset env of
        Inl e \<Rightarrow> (E e, d\<lparr>ld_has_reset := False\<rparr>)
      | Inr r \<Rightarrow> lima_clk_enable env (d\<lparr>ld_has_reset := r\<rparr>))"

definition lima_clk_fini :: "lima_device \<Rightarrow> lima_device" where
  "lima_clk_fini d = lima_clk_disable d"

definition lima_regulator_enable :: "device_env \<Rightarrow> lima_device \<Rightarrow> rc \<times> lima_device" where
  "lima_regulator_enable env d =
     (if \<not> ld_has_regulator d then (OK, d)
      else case de_regulator_on env of
        E e \<Rightarrow> (E e, d)
      | OK \<Rightarrow> (OK, d\<lparr>ld_supply := ld_supply d + 1\<rparr>))"

definition lima_regulator_disable :: "lima_device \<Rightarrow> lima_device" where
  "lima_regulator_disable d = (if ld_has_regulator d then d\<lparr>ld_supply := ld_supply d - 1\<rparr> else d)"

definition lima_regulator_init :: "device_env \<Rightarrow> lima_device \<Rightarrow> rc \<times> lima_device" where
  "lima_regulator_init env d =
     (case de_get_regulator env of
        E e \<Rightarrow> (if e = ENODEV then OK else E e, d\<lparr>ld_has_regulator := False\<rparr>)
      | OK \<Rightarrow> lima_regulator_enable env (d\<lparr>ld_has_regulator := True\<rparr>))"

definition lima_regulator_fini :: "lima_device \<Rightarrow> lima_device" where
  "lima_regulator_fini d = lima_regulator_disable d"

section \<open>The table of blocks\<close>

datatype ip_func = ip_pmu | ip_l2_cache | ip_gp | ip_pp | ip_mmu | ip_dlbu | ip_bcast | ip_pp_bcast

text \<open>\<open>None\<close> is the offset -1. The callbacks of a block are named by their prefix.\<close>

record ip_desc =
  ipd_must_have :: "lima_gpu_id \<Rightarrow> bool"
  ipd_offset :: "lima_gpu_id \<Rightarrow> u32 option"
  ipd_func :: ip_func
  ipd_irq_name :: "string option"

definition desc :: "bool \<times> bool \<Rightarrow> u32 option \<times> u32 option \<Rightarrow> ip_func \<Rightarrow> string option \<Rightarrow> ip_desc" where
  "desc must off func irq =
     \<lparr>ipd_must_have = (\<lambda>g. case g of lima_gpu_mali400 \<Rightarrow> fst must | lima_gpu_mali450 \<Rightarrow> snd must),
      ipd_offset = (\<lambda>g. case g of lima_gpu_mali400 \<Rightarrow> fst off | lima_gpu_mali450 \<Rightarrow> snd off),
      ipd_func = func, ipd_irq_name = irq\<rparr>"

primrec lima_ip_desc :: "lima_ip_id \<Rightarrow> ip_desc" where
  "lima_ip_desc lima_ip_pmu = desc (False, False) (Some 0x02000, Some 0x02000) ip_pmu (Some ''pmu'')"
| "lima_ip_desc lima_ip_gpmmu = desc (True, True) (Some 0x03000, Some 0x03000) ip_mmu (Some ''gpmmu'')"
| "lima_ip_desc lima_ip_ppmmu0 = desc (True, True) (Some 0x04000, Some 0x04000) ip_mmu (Some ''ppmmu0'')"
| "lima_ip_desc lima_ip_ppmmu1 = desc (False, False) (Some 0x05000, Some 0x05000) ip_mmu (Some ''ppmmu1'')"
| "lima_ip_desc lima_ip_ppmmu2 = desc (False, False) (Some 0x06000, Some 0x06000) ip_mmu (Some ''ppmmu2'')"
| "lima_ip_desc lima_ip_ppmmu3 = desc (False, False) (Some 0x07000, Some 0x07000) ip_mmu (Some ''ppmmu3'')"
| "lima_ip_desc lima_ip_ppmmu4 = desc (False, False) (None, Some 0x1C000) ip_mmu (Some ''ppmmu4'')"
| "lima_ip_desc lima_ip_ppmmu5 = desc (False, False) (None, Some 0x1D000) ip_mmu (Some ''ppmmu5'')"
| "lima_ip_desc lima_ip_ppmmu6 = desc (False, False) (None, Some 0x1E000) ip_mmu (Some ''ppmmu6'')"
| "lima_ip_desc lima_ip_ppmmu7 = desc (False, False) (None, Some 0x1F000) ip_mmu (Some ''ppmmu7'')"
| "lima_ip_desc lima_ip_gp = desc (True, True) (Some 0x00000, Some 0x00000) ip_gp (Some ''gp'')"
| "lima_ip_desc lima_ip_pp0 = desc (True, True) (Some 0x08000, Some 0x08000) ip_pp (Some ''pp0'')"
| "lima_ip_desc lima_ip_pp1 = desc (False, False) (Some 0x0A000, Some 0x0A000) ip_pp (Some ''pp1'')"
| "lima_ip_desc lima_ip_pp2 = desc (False, False) (Some 0x0C000, Some 0x0C000) ip_pp (Some ''pp2'')"
| "lima_ip_desc lima_ip_pp3 = desc (False, False) (Some 0x0E000, Some 0x0E000) ip_pp (Some ''pp3'')"
| "lima_ip_desc lima_ip_pp4 = desc (False, False) (None, Some 0x28000) ip_pp (Some ''pp4'')"
| "lima_ip_desc lima_ip_pp5 = desc (False, False) (None, Some 0x2A000) ip_pp (Some ''pp5'')"
| "lima_ip_desc lima_ip_pp6 = desc (False, False) (None, Some 0x2C000) ip_pp (Some ''pp6'')"
| "lima_ip_desc lima_ip_pp7 = desc (False, False) (None, Some 0x2E000) ip_pp (Some ''pp7'')"
| "lima_ip_desc lima_ip_l2_cache0 = desc (True, True) (Some 0x01000, Some 0x10000) ip_l2_cache None"
| "lima_ip_desc lima_ip_l2_cache1 = desc (False, True) (None, Some 0x01000) ip_l2_cache None"
| "lima_ip_desc lima_ip_l2_cache2 = desc (False, False) (None, Some 0x11000) ip_l2_cache None"
| "lima_ip_desc lima_ip_dlbu = desc (False, True) (None, Some 0x14000) ip_dlbu None"
| "lima_ip_desc lima_ip_bcast = desc (False, True) (None, Some 0x13000) ip_bcast None"
| "lima_ip_desc lima_ip_pp_bcast = desc (False, True) (None, Some 0x16000) ip_pp_bcast (Some ''pp'')"
| "lima_ip_desc lima_ip_ppmmu_bcast = desc (False, True) (None, Some 0x15000) ip_mmu None"

section \<open>One block\<close>

definition set_present :: "lima_ip_id \<Rightarrow> lima_device \<Rightarrow> lima_device" where
  "set_present i d = d\<lparr>ld_dev := (ld_dev d)\<lparr>d_present := (d_present (ld_dev d))(i := True)\<rparr>\<rparr>"

definition set_backend :: "pp_pipe \<Rightarrow> io \<Rightarrow> lima_device \<Rightarrow> lima_device" where
  "set_backend p io d = d\<lparr>ld_pp := (ld_pp d)\<lparr>sp_backend := p\<rparr>, ld_io := io\<rparr>"

definition set_gp_async :: "bool \<Rightarrow> io \<Rightarrow> lima_device \<Rightarrow> lima_device" where
  "set_gp_async a io d =
     d\<lparr>ld_gp := (ld_gp d)\<lparr>sp_backend := (sp_backend (ld_gp d))\<lparr>gb_async := a\<rparr>\<rparr>, ld_io := io\<rparr>"

text \<open>\<open>desc->init(ip)\<close>.\<close>

definition ip_init :: "device_env \<Rightarrow> lima_ip_id \<Rightarrow> lima_device \<Rightarrow> (rc \<times> lima_device) option" where
  "ip_init env i d =
     (let hw = de_hw env; dev = ld_dev d; base = d_base dev i; io = ld_io d in
      case ipd_func (lima_ip_desc i) of
        ip_pmu \<Rightarrow> (let (r, io1) = lima_pmu_init hw dev io in Some (r, d\<lparr>ld_io := io1\<rparr>))
      | ip_mmu \<Rightarrow> (let (r, io1) = lima_mmu_init hw dev (de_request_irq env i) i io in Some (r, d\<lparr>ld_io := io1\<rparr>))
      | ip_gp \<Rightarrow>
          (let (r, a, v, io1) = lima_gp_init hw base (de_request_irq env i) io; d1 = set_gp_async a io1 d
           in Some (r, (case v of Some x \<Rightarrow> d1\<lparr>ld_gp_version := x\<rparr> | None \<Rightarrow> d1)))
      | ip_pp \<Rightarrow> do {
          (r, p, v, io1) \<leftarrow> lima_pp_init hw dev i (de_request_irq env i) (sp_backend (ld_pp d)) io;
          let d1 = set_backend p io1 d;
          Some (r, (case v of Some x \<Rightarrow> d1\<lparr>ld_pp_version := x\<rparr> | None \<Rightarrow> d1)) }
      | ip_l2_cache \<Rightarrow> do {
          (r, t, io1) \<leftarrow> lima_l2_cache_init hw dev i (ld_l2_timeouts d) io;
          Some (r, d\<lparr>ld_l2_timeouts := t, ld_io := io1\<rparr>) }
      | ip_dlbu \<Rightarrow> (let (r, io1) = lima_dlbu_init io in Some (r, d\<lparr>ld_io := io1\<rparr>))
      | ip_bcast \<Rightarrow> (let (r, io1) = lima_bcast_init io in Some (r, d\<lparr>ld_io := io1\<rparr>))
      | ip_pp_bcast \<Rightarrow> (let (r, io1) = lima_pp_bcast_init dev i (de_request_irq env i) io in Some (r, d\<lparr>ld_io := io1\<rparr>)))"

text \<open>\<open>desc->resume(ip)\<close>; no pixel job is current when the device resumes.\<close>

definition ip_resume :: "device_env \<Rightarrow> lima_ip_id \<Rightarrow> lima_device \<Rightarrow> (rc \<times> lima_device) option" where
  "ip_resume env i d =
     (let hw = de_hw env; dev = ld_dev d; base = d_base dev i; io = ld_io d in
      case ipd_func (lima_ip_desc i) of
        ip_pmu \<Rightarrow> (let (r, io1) = lima_pmu_resume hw dev io in Some (r, d\<lparr>ld_io := io1\<rparr>))
      | ip_mmu \<Rightarrow> (let (r, io1) = lima_mmu_resume hw dev i io in Some (r, d\<lparr>ld_io := io1\<rparr>))
      | ip_gp \<Rightarrow> (let (r, a, io1) = lima_gp_resume hw base io in Some (r, set_gp_async a io1 d))
      | ip_pp \<Rightarrow> do {
          (r, p, io1) \<leftarrow> lima_pp_resume hw dev i None (sp_backend (ld_pp d)) io;
          Some (r, set_backend p io1 d) }
      | ip_l2_cache \<Rightarrow> do {
          (r, t, io1) \<leftarrow> lima_l2_cache_resume hw dev i (ld_l2_timeouts d) io;
          Some (r, d\<lparr>ld_l2_timeouts := t, ld_io := io1\<rparr>) }
      | ip_dlbu \<Rightarrow> (let (r, io1) = lima_dlbu_resume io in Some (r, d\<lparr>ld_io := io1\<rparr>))
      | ip_bcast \<Rightarrow> (let (r, io1) = lima_bcast_resume io in Some (r, d\<lparr>ld_io := io1\<rparr>))
      | ip_pp_bcast \<Rightarrow> (let (r, p) = lima_pp_bcast_resume i (sp_backend (ld_pp d)) in Some (r, set_backend p io d)))"

text \<open>\<open>desc->fini(ip)\<close> and \<open>desc->suspend(ip)\<close>: empty except for the power management unit.\<close>

definition ip_fini :: "device_env \<Rightarrow> lima_ip_id \<Rightarrow> lima_device \<Rightarrow> lima_device" where
  "ip_fini env i d =
     (if ipd_func (lima_ip_desc i) = ip_pmu then
        let (msk, io1) = lima_pmu_fini (de_hw env) (ld_dev d) (ld_pmu_mask d) (ld_io d)
        in d\<lparr>ld_pmu_mask := msk, ld_io := io1\<rparr>
      else d)"

definition ip_suspend :: "device_env \<Rightarrow> lima_ip_id \<Rightarrow> lima_device \<Rightarrow> lima_device" where
  "ip_suspend env i d =
     (if ipd_func (lima_ip_desc i) = ip_pmu then
        let (msk, io1) = lima_pmu_suspend (de_hw env) (ld_dev d) (ld_pmu_mask d) (ld_io d)
        in d\<lparr>ld_pmu_mask := msk, ld_io := io1\<rparr>
      else d)"

definition lima_init_ip :: "device_env \<Rightarrow> lima_ip_id \<Rightarrow> lima_device \<Rightarrow> (rc \<times> lima_device) option" where
  "lima_init_ip env i d =
     (let gpu = d_id (ld_dev d); must = ipd_must_have (lima_ip_desc i) gpu;
          failed = (\<lambda>e d. Some (if must then E e else OK, d)) in
      case ipd_offset (lima_ip_desc i) gpu of
        None \<Rightarrow> Some (OK, d)
      | Some off \<Rightarrow>
          let d1 = d\<lparr>ld_dev := (ld_dev d)\<lparr>d_base := (d_base (ld_dev d))(i := ld_iomem d + off)\<rparr>\<rparr>;
              irq = (case ipd_irq_name (lima_ip_desc i) of None \<Rightarrow> Inr None | Some _ \<Rightarrow>
                (case de_irq env i of Inl e \<Rightarrow> Inl e | Inr n \<Rightarrow> Inr (Some n))) in
          case irq of
            Inl e \<Rightarrow> failed e d1
          | Inr n \<Rightarrow>
              let d2 = (case n of None \<Rightarrow> d1 | Some n \<Rightarrow> d1\<lparr>ld_irq := (ld_irq d1)(i := n)\<rparr>) in do {
              (r, d3) \<leftarrow> ip_init env i d2;
              (case r of OK \<Rightarrow> Some (OK, set_present i d3) | E e \<Rightarrow> failed e d3) })"

definition lima_fini_ip :: "device_env \<Rightarrow> lima_ip_id \<Rightarrow> lima_device \<Rightarrow> lima_device" where
  "lima_fini_ip env i d = (if d_present (ld_dev d) i then ip_fini env i d else d)"

definition lima_resume_ip :: "device_env \<Rightarrow> lima_ip_id \<Rightarrow> lima_device \<Rightarrow> (rc \<times> lima_device) option" where
  "lima_resume_ip env i d = (if d_present (ld_dev d) i then ip_resume env i d else Some (OK, d))"

definition lima_suspend_ip :: "device_env \<Rightarrow> lima_ip_id \<Rightarrow> lima_device \<Rightarrow> lima_device" where
  "lima_suspend_ip env i d = (if d_present (ld_dev d) i then ip_suspend env i d else d)"

section \<open>The pipes\<close>

definition LIMA_SCHED_PIPE_MAX_MMU :: nat where "LIMA_SCHED_PIPE_MAX_MMU = 8"
definition LIMA_SCHED_PIPE_MAX_L2_CACHE :: nat where "LIMA_SCHED_PIPE_MAX_L2_CACHE = 2"
definition LIMA_SCHED_PIPE_MAX_PROCESSOR :: nat where "LIMA_SCHED_PIPE_MAX_PROCESSOR = 8"

text \<open>An operation of the scheduler on a pipe works on the device's history.\<close>

definition on_gp :: "(gp_backend sched \<Rightarrow> gp_backend sched option) \<Rightarrow> lima_device \<Rightarrow> lima_device option" where
  "on_gp f d = do {
     s \<leftarrow> f ((ld_gp d)\<lparr>sp_io := ld_io d\<rparr>);
     Some (d\<lparr>ld_gp := s, ld_io := sp_io s\<rparr>) }"

definition on_pp :: "(pp_pipe sched \<Rightarrow> pp_pipe sched option) \<Rightarrow> lima_device \<Rightarrow> lima_device option" where
  "on_pp f d = do {
     s \<leftarrow> f ((ld_pp d)\<lparr>sp_io := ld_io d\<rparr>);
     Some (d\<lparr>ld_pp := s, ld_io := sp_io s\<rparr>) }"

definition set_started :: "lima_pipe_id \<Rightarrow> bool \<Rightarrow> lima_device \<Rightarrow> lima_device" where
  "set_started p b d = d\<lparr>ld_started := (ld_started d)(p := b)\<rparr>"

definition gp_sched_fini :: "device_env \<Rightarrow> lima_device \<Rightarrow> lima_device option" where
  "gp_sched_fini env d = map_option (set_started lima_pipe_gp False)
     (on_gp (lima_sched_pipe_fini (gp_vtable (de_hw env) (de_heap env) (d_base (ld_dev d) lima_ip_gp))
       (de_fake_wedge env) (de_gp_world env)) d)"

definition pp_sched_fini :: "device_env \<Rightarrow> lima_device \<Rightarrow> lima_device option" where
  "pp_sched_fini env d = map_option (set_started lima_pipe_pp False)
     (on_pp (lima_sched_pipe_fini (pp_vtable (de_hw env) (ld_dev d)) (de_fake_wedge env) (de_pp_world env)) d)"

definition lima_init_gp_pipe :: "device_env \<Rightarrow> lima_device \<Rightarrow> (rc \<times> lima_device) option" where
  "lima_init_gp_pipe env d =
     (case lima_sched_pipe_init (de_timeout_ms env) (de_sched_init env lima_pipe_gp) of
        E e \<Rightarrow> Some (E e, d)
      | OK \<Rightarrow>
          let cfg = ld_gp_cfg d;
              d1 = (set_started lima_pipe_gp True d)\<lparr>ld_gp_cfg := cfg\<lparr>pc_l2_cache := pc_l2_cache cfg @ [lima_ip_l2_cache0],
                pc_mmu := pc_mmu cfg @ [lima_ip_gpmmu]\<rparr>, ld_gp_processor := ld_gp_processor d @ [lima_ip_gp]\<rparr>;
              (err, slab) = lima_gp_pipe_init (de_gp_slab env) (ld_gp_slab d1);
              d2 = d1\<lparr>ld_gp_slab := slab\<rparr> in
          (case err of
             E e \<Rightarrow> do { d3 \<leftarrow> gp_sched_fini env d2; Some (E e, d3) }
           | OK \<Rightarrow> Some (OK, d2\<lparr>ld_gp_cfg := (ld_gp_cfg d2)\<lparr>pc_frame_size := 4 * of_nat LIMA_GP_FRAME_REG_NUM\<rparr>\<rparr>)))"

definition lima_fini_gp_pipe :: "device_env \<Rightarrow> lima_device \<Rightarrow> lima_device option" where
  "lima_fini_gp_pipe env d = do {
     d1 \<leftarrow> gp_sched_fini env d;
     Some (d1\<lparr>ld_gp_slab := lima_gp_pipe_fini (ld_gp_slab d1)\<rparr>) }"

text \<open>One round of the loop over the pixel processors; a slot of \<open>l2_cache\<close> is null beyond the end of the list.\<close>

definition pp_pipe_add :: "nat \<Rightarrow> lima_device \<Rightarrow> lima_device" where
  "pp_pipe_add i d =
     (let dev = ld_dev d; cfg = ld_pp_cfg d; p = sp_backend (ld_pp d);
          pp = ip_plus lima_ip_pp0 i; ppmmu = ip_plus lima_ip_ppmmu0 i;
          l2_cache = (if d_id dev = lima_gpu_mali400 then lima_ip_l2_cache0
                      else ip_plus lima_ip_l2_cache1 (drop_bit 2 i)) in
      if d_present dev pp \<and> d_present dev ppmmu \<and> d_present dev l2_cache then
        d\<lparr>ld_pp := (ld_pp d)\<lparr>sp_backend := p\<lparr>pp_processor := pp_processor p @ [pp]\<rparr>\<rparr>,
          ld_pp_cfg := cfg\<lparr>pc_l2_cache := (if List.length (pc_l2_cache cfg) \<le> drop_bit 2 i
              then pc_l2_cache cfg @ [l2_cache] else pc_l2_cache cfg),
            pc_mmu := pc_mmu cfg @ [ppmmu]\<rparr>\<rparr>
      else d)"

definition lima_init_pp_pipe :: "device_env \<Rightarrow> lima_device \<Rightarrow> (rc \<times> lima_device) option" where
  "lima_init_pp_pipe env d =
     (case lima_sched_pipe_init (de_timeout_ms env) (de_sched_init env lima_pipe_pp) of
        E e \<Rightarrow> Some (E e, d)
      | OK \<Rightarrow>
          let d1 = fold pp_pipe_add [0..<LIMA_SCHED_PIPE_MAX_PROCESSOR] (set_started lima_pipe_pp True d);
              d2 = (if d_present (ld_dev d1) lima_ip_bcast
                    then d1\<lparr>ld_pp := (ld_pp d1)\<lparr>sp_backend := (sp_backend (ld_pp d1))\<lparr>pp_bcast := Some lima_ip_pp_bcast\<rparr>\<rparr>,
                      ld_pp_cfg := (ld_pp_cfg d1)\<lparr>pc_bcast_mmu := Some lima_ip_ppmmu_bcast\<rparr>\<rparr>
                    else d1);
              (err, frame_size, slab) = lima_pp_pipe_init (d_id (ld_dev d2)) (de_pp_slab env) (ld_pp_slab d2);
              d3 = d2\<lparr>ld_pp_slab := slab\<rparr> in
          (case err of
             E e \<Rightarrow> do { d4 \<leftarrow> pp_sched_fini env d3; Some (E e, d4) }
           | OK \<Rightarrow> Some (OK, (case frame_size of None \<Rightarrow> d3
               | Some n \<Rightarrow> d3\<lparr>ld_pp_cfg := (ld_pp_cfg d3)\<lparr>pc_frame_size := of_nat n\<rparr>\<rparr>))))"

definition lima_fini_pp_pipe :: "device_env \<Rightarrow> lima_device \<Rightarrow> lima_device option" where
  "lima_fini_pp_pipe env d = do {
     d1 \<leftarrow> pp_sched_fini env d;
     Some (d1\<lparr>ld_pp_slab := lima_pp_pipe_fini (ld_pp_slab d1)\<rparr>) }"

section \<open>Bringing the device up and down\<close>

text \<open>The loop over the blocks, of the bring-up and of the resume: how many were passed when it ended.\<close>

fun each_ip :: "(lima_ip_id \<Rightarrow> lima_device \<Rightarrow> (rc \<times> lima_device) option) \<Rightarrow> lima_ip_id list \<Rightarrow> nat \<Rightarrow> lima_device \<Rightarrow>
    (rc \<times> nat \<times> lima_device) option" where
  "each_ip f [] n d = Some (OK, n, d)"
| "each_ip f (i # is) n d = do {
     (r, d1) \<leftarrow> f i d;
     (case r of E e \<Rightarrow> Some (E e, n, d1) | OK \<Rightarrow> each_ip f is (Suc n) d1) }"

definition put_empty_vm :: "lima_device \<Rightarrow> lima_device" where
  "put_empty_vm d = d\<lparr>ld_empty_vm := (case lima_vm_put (ld_empty_vm d) of Inl r \<Rightarrow> r | Inr _ \<Rightarrow> None)\<rparr>"

text \<open>The exits \<open>err_out0\<close> to \<open>err_out5\<close>; a freed DLBU page is \<open>None\<close>.\<close>

definition device_err_out0 :: "lima_device \<Rightarrow> lima_device" where
  "device_err_out0 d = lima_clk_fini d"

definition device_err_out1 :: "lima_device \<Rightarrow> lima_device" where
  "device_err_out1 d = device_err_out0 (lima_regulator_fini d)"

definition device_err_out2 :: "lima_device \<Rightarrow> lima_device" where
  "device_err_out2 d = device_err_out1 (put_empty_vm d)"

definition device_err_out3 :: "lima_device \<Rightarrow> lima_device" where
  "device_err_out3 d = device_err_out2 (d\<lparr>ld_dlbu := None\<rparr>)"

definition device_err_out4 :: "device_env \<Rightarrow> nat \<Rightarrow> lima_device \<Rightarrow> lima_device" where
  "device_err_out4 env n d = device_err_out3 (fold (lima_fini_ip env) (rev (take n ip_list)) d)"

text \<open>The second half of \<open>lima_device_init\<close>: the blocks, then the pipes.\<close>

definition init_blocks :: "device_env \<Rightarrow> lima_device \<Rightarrow> (rc \<times> lima_device) option" where
  "init_blocks env d = do {
     (r, n, d5) \<leftarrow> each_ip (lima_init_ip env) ip_list 0 d;
     (case r of E e \<Rightarrow> Some (E e, device_err_out4 env n d5) | OK \<Rightarrow> do {
       (r6, d6) \<leftarrow> lima_init_gp_pipe env d5;
       (case r6 of E e \<Rightarrow> Some (E e, device_err_out4 env n d6) | OK \<Rightarrow> do {
         (r7, d7) \<leftarrow> lima_init_pp_pipe env d6;
         (case r7 of
            E e \<Rightarrow> do { d8 \<leftarrow> lima_fini_gp_pipe env d7; Some (E e, device_err_out4 env n d8) }
          | OK \<Rightarrow> Some (OK, d7\<lparr>ld_errors := 0, ld_error_lock := True\<rparr>)) }) }) }"

definition lima_device_init :: "device_env \<Rightarrow> lima_device \<Rightarrow> (rc \<times> lima_device) option" where
  "lima_device_init env d =
     (case lima_clk_init env d of (E e, d1) \<Rightarrow> Some (E e, d1) | (OK, d1) \<Rightarrow>
      (case lima_regulator_init env d1 of (E e, d2) \<Rightarrow> Some (E e, device_err_out0 d2) | (OK, d2) \<Rightarrow>
      (case lima_vm_create ((de_vm env)\<lparr>vc_dlbu := ld_dlbu d2, vc_va_start := ld_va_start d2, vc_va_end := ld_va_end d2\<rparr>) of
         None \<Rightarrow> Some (E ENOMEM, device_err_out1 d2)
       | Some vm \<Rightarrow>
      let mali450 = (d_id (ld_dev d2) = lima_gpu_mali450);
          d3 = d2\<lparr>ld_dev := (ld_dev d2)\<lparr>d_empty_pd := vp_dma (vm_pd vm)\<rparr>, ld_empty_vm := Some vm, ld_va_start := 0,
            ld_va_end := (if mali450 then LIMA_VA_RESERVE_START else LIMA_VA_RESERVE_END)\<rparr> in
      if mali450 \<and> de_dlbu env = None then Some (E ENOMEM, device_err_out2 d3)
      else
        let d4 = (if mali450 then d3\<lparr>ld_dlbu := de_dlbu env\<rparr> else d3) in
        (case de_iomem env of
           Inl e \<Rightarrow> Some (E e, device_err_out3 d4)
         | Inr a \<Rightarrow> init_blocks env (d4\<lparr>ld_iomem := a\<rparr>)))))"

definition lima_device_fini :: "device_env \<Rightarrow> lima_device \<Rightarrow> lima_device option" where
  "lima_device_fini env d = do {
     d1 \<leftarrow> lima_fini_pp_pipe env (d\<lparr>ld_errors := 0, ld_error_lock := False\<rparr>);
     d2 \<leftarrow> lima_fini_gp_pipe env d1;
     let d3 = fold (lima_fini_ip env) (rev ip_list) d2;
     Some (lima_clk_fini (lima_regulator_fini (put_empty_vm (d3\<lparr>ld_dlbu := None\<rparr>)))) }"

section \<open>Suspend and resume\<close>

text \<open>\<open>lima_devfreq_resume\<close> and \<open>lima_devfreq_suspend\<close> are stubs that return 0 (\<open>lima_devfreq.h\<close>).\<close>

definition lima_devfreq_resume :: rc where "lima_devfreq_resume = OK"
definition lima_devfreq_suspend :: rc where "lima_devfreq_suspend = OK"

definition resume_err_out1 :: "device_env \<Rightarrow> nat \<Rightarrow> lima_device \<Rightarrow> lima_device" where
  "resume_err_out1 env n d =
     lima_clk_disable (lima_regulator_disable (fold (lima_suspend_ip env) (rev (take n ip_list)) d))"

definition lima_device_resume :: "device_env \<Rightarrow> lima_device \<Rightarrow> (rc \<times> lima_device) option" where
  "lima_device_resume env d =
     (case lima_clk_enable env d of (E e, d1) \<Rightarrow> Some (E e, d1) | (OK, d1) \<Rightarrow>
      (case lima_regulator_enable env d1 of (E e, d2) \<Rightarrow> Some (E e, lima_clk_disable d2) | (OK, d2) \<Rightarrow> do {
        (r, n, d3) \<leftarrow> each_ip (lima_resume_ip env) ip_list 0 d2;
        (case r of E e \<Rightarrow> Some (E e, resume_err_out1 env n d3) | OK \<Rightarrow>
        (case lima_devfreq_resume of E e \<Rightarrow> Some (E e, resume_err_out1 env n d3) | OK \<Rightarrow> Some (OK, d3))) }))"

definition lima_device_suspend :: "device_env \<Rightarrow> lima_device \<Rightarrow> rc \<times> lima_device" where
  "lima_device_suspend env d =
     (if de_hw_rq_count env lima_pipe_gp \<noteq> 0 \<or> de_hw_rq_count env lima_pipe_pp \<noteq> 0 then (E EBUSY, d)
      else case lima_devfreq_suspend of
        E e \<Rightarrow> (E e, d)
      | OK \<Rightarrow> (OK, lima_clk_disable (lima_regulator_disable (fold (lima_suspend_ip env) (rev ip_list) d))))"

end
