(* ===== verification/Lima_Device_Spec.thy ===== *)
theory Lima_Device_Spec
  imports Lima_Device
begin

text \<open>
  What the device owns: \<open>owned\<close> collects everything the bring-up acquires and the shutdown must give
  back. The blocks themselves leave it alone, so the proofs follow the chain of acquisitions only.
\<close>

section \<open>What is owned\<close>

definition power :: "lima_device \<Rightarrow> int \<times> int \<times> int \<times> int" where
  "power d = (ld_clk_bus d, ld_clk_gpu d, ld_reset d, ld_supply d)"

definition owned :: "lima_device \<Rightarrow> (int \<times> int \<times> int \<times> int) \<times> bool \<times> bool \<times> lima_vm option \<times> u64 option \<times>
    (lima_pipe_id \<Rightarrow> bool) \<times> (bool \<times> int) \<times> (bool \<times> int)" where
  "owned d = (power d, ld_has_reset d, ld_has_regulator d, ld_empty_vm d, ld_dlbu d, ld_started d, ld_gp_slab d, ld_pp_slab d)"

text \<open>No job is on a pipe.\<close>

definition pipes_idle :: "lima_device \<Rightarrow> bool" where
  "pipes_idle d = (sp_current_task (ld_gp d) = None \<and> sp_current_task (ld_pp d) = None)"

lemmas owned_defs = owned_def power_def

lemma owned_set [simp]: "owned (set_present i d) = owned d" "owned (set_backend p io d) = owned d"
  "owned (set_gp_async a io d) = owned d" "owned (d\<lparr>ld_io := io\<rparr>) = owned d" "owned (d\<lparr>ld_irq := q\<rparr>) = owned d"
  "owned (d\<lparr>ld_dev := dv\<rparr>) = owned d" "owned (d\<lparr>ld_iomem := b\<rparr>) = owned d" "owned (d\<lparr>ld_l2_timeouts := t\<rparr>) = owned d"
  "owned (d\<lparr>ld_gp_version := v\<rparr>) = owned d" "owned (d\<lparr>ld_pp_version := v\<rparr>) = owned d" "owned (d\<lparr>ld_pmu_mask := m\<rparr>) = owned d"
  by (simp_all add: owned_defs set_present_def set_backend_def set_gp_async_def)

lemma idle_set [simp]: "pipes_idle (set_present i d) = pipes_idle d" "pipes_idle (set_backend p io d) = pipes_idle d"
  "pipes_idle (set_gp_async a io d) = pipes_idle d" "pipes_idle (d\<lparr>ld_io := io\<rparr>) = pipes_idle d"
  "pipes_idle (d\<lparr>ld_irq := q\<rparr>) = pipes_idle d" "pipes_idle (d\<lparr>ld_dev := dv\<rparr>) = pipes_idle d"
  "pipes_idle (d\<lparr>ld_iomem := b\<rparr>) = pipes_idle d" "pipes_idle (d\<lparr>ld_l2_timeouts := t\<rparr>) = pipes_idle d"
  "pipes_idle (d\<lparr>ld_gp_version := v\<rparr>) = pipes_idle d" "pipes_idle (d\<lparr>ld_pp_version := v\<rparr>) = pipes_idle d"
  "pipes_idle (d\<lparr>ld_pmu_mask := m\<rparr>) = pipes_idle d"
  by (simp_all add: pipes_idle_def set_present_def set_backend_def set_gp_async_def)

section \<open>Blocks leave it alone, and return\<close>

definition keeps :: "lima_device \<Rightarrow> lima_device \<Rightarrow> bool" where
  "keeps d d' = (owned d' = owned d \<and> (pipes_idle d \<longrightarrow> pipes_idle d'))"

lemma keeps_refl [simp]: "keeps d d"
  by (simp add: keeps_def)

lemma keeps_trans: "keeps a b \<Longrightarrow> keeps b c \<Longrightarrow> keeps a c"
  by (simp add: keeps_def)

lemma ip_init_keeps: "ip_init env i d = Some (r, d') \<Longrightarrow> keeps d d'"
  by (auto simp: ip_init_def keeps_def Let_def bind_eq_Some_conv split: ip_func.splits prod.splits option.splits)

lemma ip_resume_keeps: "ip_resume env i d = Some (r, d') \<Longrightarrow> keeps d d'"
  by (auto simp: ip_resume_def keeps_def Let_def bind_eq_Some_conv split: ip_func.splits prod.splits option.splits)

lemma fini_ip_keeps: "keeps d (lima_fini_ip env i d)" "keeps d (lima_suspend_ip env i d)"
  by (auto simp: lima_fini_ip_def ip_fini_def lima_suspend_ip_def ip_suspend_def keeps_def Let_def split: prod.splits)

lemma fold_keeps:
  assumes "\<And>i d. keeps d (f i d)"
  shows "keeps d (fold f is d)"
  by (induction "is" arbitrary: d) (auto intro: keeps_trans assms)

text \<open>A block is skipped, fails before its callback, or is what the callback makes of it.\<close>

definition ip_result :: "bool \<Rightarrow> lima_ip_id \<Rightarrow> rc \<times> lima_device \<Rightarrow> rc \<times> lima_device" where
  "ip_result must i = (\<lambda>(r, d). case r of OK \<Rightarrow> (OK, set_present i d) | E e \<Rightarrow> (if must then E e else OK, d))"

lemma init_ip_cases:
  obtains r d2 where "keeps d d2" "lima_init_ip env i d = Some (r, d2)"
  | must d2 where "keeps d d2" "lima_init_ip env i d = map_option (ip_result must i) (ip_init env i d2)"
proof (cases "ipd_offset (lima_ip_desc i) (d_id (ld_dev d))")
  case None
  then show ?thesis using that(1) [of d OK] by (simp add: lima_init_ip_def)
next
  case (Some off)
  let ?must = "ipd_must_have (lima_ip_desc i) (d_id (ld_dev d))"
  let ?d1 = "d\<lparr>ld_dev := (ld_dev d)\<lparr>d_base := (d_base (ld_dev d))(i := ld_iomem d + off)\<rparr>\<rparr>"
  have res: "(do { (r, d3) \<leftarrow> x; case r of OK \<Rightarrow> Some (OK, set_present i d3) | E e \<Rightarrow> Some (if m then E e else OK, d3) }) =
      map_option (ip_result m i) x" for x m
    by (cases x) (auto simp: ip_result_def split: rc.split)
  have k: "keeps d ?d1" "keeps d (?d1\<lparr>ld_irq := q\<rparr>)" for q by (simp_all add: keeps_def)
  show ?thesis
  proof (cases "ipd_irq_name (lima_ip_desc i)")
    case None
    then show ?thesis using that(2) [OF k(1), of ?must] by (simp add: lima_init_ip_def Let_def Some res)
  next
    case (Some name)
    show ?thesis
    proof (cases "de_irq env i")
      case (Inl e)
      then show ?thesis using that(1) [OF k(1)] Some \<open>ipd_offset _ _ = Some off\<close> by (simp add: lima_init_ip_def Let_def)
    next
      case (Inr n)
      then show ?thesis
        using that(2) [OF k(2), of ?must "(ld_irq d)(i := n)"] Some \<open>ipd_offset _ _ = Some off\<close>
        by (simp add: lima_init_ip_def Let_def res)
    qed
  qed
qed

lemma ip_result_keeps: "keeps d (snd x) \<Longrightarrow> keeps d (snd (ip_result m i x))"
  by (cases x) (auto simp: ip_result_def keeps_def split: rc.split)

lemma init_ip_keeps: "lima_init_ip env i d = Some (r, d') \<Longrightarrow> keeps d d'"
proof (rule init_ip_cases [of d env i])
  fix m d2
  assume "lima_init_ip env i d = Some (r, d')" "keeps d d2"
    "lima_init_ip env i d = map_option (ip_result m i) (ip_init env i d2)"
  then show "keeps d d'" by (auto dest!: ip_init_keeps sym [of "Some _"])
    (metis ip_result_keeps keeps_trans snd_conv)
qed simp

lemma resume_ip_keeps: "lima_resume_ip env i d = Some (r, d') \<Longrightarrow> keeps d d'"
  by (auto simp: lima_resume_ip_def split: if_splits dest: ip_resume_keeps)

lemma each_ip_keeps:
  assumes "\<And>i d r d'. f i d = Some (r, d') \<Longrightarrow> keeps d d'"
  shows "each_ip f is n d = Some (r, m, d') \<Longrightarrow> keeps d d'"
proof (induction "is" arbitrary: n d)
  case (Cons i "is")
  then obtain r1 d1 where "f i d = Some (r1, d1)" by (auto simp: bind_eq_Some_conv)
  with Cons show ?case by (cases r1) (auto dest: assms intro: keeps_trans)
qed simp

lemma each_ip_returns: "(\<And>i d. f i d \<noteq> None) \<Longrightarrow> each_ip f is n d \<noteq> None"
proof (induction "is" arbitrary: n d)
  case (Cons i "is")
  obtain r1 d1 where "f i d = Some (r1, d1)" using Cons.prems [of i d] by auto
  with Cons show ?case by (cases r1) auto
qed simp

lemma pp_hw_init_returns:
  assumes "clock_advances hw" "ip \<noteq> lima_ip_pp_bcast"
  shows "lima_pp_hw_init hw dev ip frame p io \<noteq> None"
proof -
  obtain r io1 where "lima_pp_soft_reset_async_wait_one hw (d_base dev ip) (snd (lima_pp_soft_reset_async dev ip
      (p\<lparr>pp_async := (pp_async p)(ip := False)\<rparr>) io)) = Some (r, io1)"
    using wait_one_returns [OF assms(1)] by (metis not_None_eq prod.exhaust)
  then show ?thesis
    using assms(2) by (auto simp: lima_pp_hw_init_def lima_pp_soft_reset_async_wait_def lima_pp_soft_reset_async_def Let_def)
qed

lemma ip_func_pp: "ipd_func (lima_ip_desc i) = ip_pp \<Longrightarrow> i \<noteq> lima_ip_pp_bcast"
  by (auto simp: desc_def)

lemma l2_init_returns:
  assumes "clock_advances hw"
  shows "lima_l2_cache_init hw dev i t io \<noteq> None"
proof -
  obtain r p t1 io1 where "lima_l2_cache_flush hw (d_base dev i) t (snd (readl hw (d_base dev i + LIMA_L2_CACHE_SIZE) io)) =
      Some (r, p, t1, io1)"
    using l2_flush_some [OF assms] by blast
  then show ?thesis by (auto simp: lima_l2_cache_init_def Let_def split: prod.splits)
qed

lemma ip_init_returns:
  assumes "clock_advances (de_hw env)"
  shows "ip_init env i d \<noteq> None" "ip_resume env i d \<noteq> None"
proof -
  have pp: "lima_pp_hw_init (de_hw env) (ld_dev d) i f p io \<noteq> None" if "ipd_func (lima_ip_desc i) = ip_pp" for f p io
    by (rule pp_hw_init_returns [OF assms ip_func_pp [OF that]])
  have init: "lima_pp_init (de_hw env) (ld_dev d) i q p io \<noteq> None" if f: "ipd_func (lima_ip_desc i) = ip_pp" for q p io
  proof -
    obtain r p1 io1 where "lima_pp_hw_init (de_hw env) (ld_dev d) i None p (snd (lima_pp_print_version (de_hw env)
        (d_base (ld_dev d) i) io)) = Some (r, p1, io1)"
      using pp [OF f, of None p] by (metis (no_types) option.exhaust prod_cases3)
    then show ?thesis by (cases r; cases q) (auto simp: lima_pp_init_def Let_def split: prod.splits)
  qed
  have l2: "lima_l2_cache_init (de_hw env) (ld_dev d) i t io \<noteq> None" for t io by (rule l2_init_returns [OF assms])
  show "ip_init env i d \<noteq> None"
    using init [of "de_request_irq env i" "sp_backend (ld_pp d)" "ld_io d"] l2 [of "ld_l2_timeouts d" "ld_io d"]
    by (auto simp: ip_init_def Let_def split: ip_func.split prod.splits)
  show "ip_resume env i d \<noteq> None"
    using pp [of None "sp_backend (ld_pp d)" "ld_io d"] l2 [of "ld_l2_timeouts d" "ld_io d"]
    by (auto simp: ip_resume_def Let_def lima_pp_resume_def lima_l2_cache_resume_def split: ip_func.split prod.splits)
qed

lemma init_ip_returns:
  assumes "clock_advances (de_hw env)"
  shows "lima_init_ip env i d \<noteq> None" "lima_resume_ip env i d \<noteq> None"
proof -
  show "lima_init_ip env i d \<noteq> None"
    by (rule init_ip_cases [of d env i]) (use ip_init_returns(1) [OF assms] in auto)
  show "lima_resume_ip env i d \<noteq> None" using ip_init_returns(2) [OF assms] by (simp add: lima_resume_ip_def)
qed

section \<open>Clocks and supply\<close>

lemma owned_dump [simp]: "owned (dump env d) = owned d" "pipes_idle (dump env d) = pipes_idle d"
  "ld_has_reset (dump env d) = ld_has_reset d" "ld_has_regulator (dump env d) = ld_has_regulator d"
  by (simp_all add: dump_def)

lemmas clock_defs = bus_on_def bus_off_def gpu_on_def gpu_off_def dump_def owned_defs pipes_idle_def

lemma clk_enable_full:
  assumes "lima_clk_stage (de_stage env) = LIMA_CLK_STAGE_FULL" and "lima_clk_enable env d = (r, d')"
    and "owned d = ((b, g, rs, s), hr, rest)"
  shows "owned d' = (if r = OK then (b + 1, g + 1, rs + of_bool hr, s) else (b, g, rs, s), hr, rest) \<and>
    pipes_idle d' = pipes_idle d"
  using assms
  by (auto simp: lima_clk_enable_def clock_defs LIMA_CLK_STAGE_FULL_def LIMA_CLK_STAGE_BUS_def LIMA_CLK_STAGE_CORE_def Let_def
      split: rc.splits prod.splits if_splits)

lemma clk_disable_owned:
  assumes "owned d = ((b, g, rs, s), hr, rest)"
  shows "owned (lima_clk_disable d) = ((b - 1, g - 1, rs - of_bool hr, s), hr, rest)"
  using assms by (auto simp: lima_clk_disable_def clock_defs)

lemma regulator_enable_owned:
  assumes "lima_regulator_enable env d = (r, d')" and "owned d = ((b, g, rs, s), hr, hg, rest)"
  shows "owned d' = ((b, g, rs, if r = OK then s + of_bool hg else s), hr, hg, rest) \<and> pipes_idle d' = pipes_idle d"
  using assms by (auto simp: lima_regulator_enable_def clock_defs split: rc.splits if_splits)

lemma regulator_disable_owned:
  assumes "owned d = ((b, g, rs, s), hr, hg, rest)"
  shows "owned (lima_regulator_disable d) = ((b, g, rs, s - of_bool hg), hr, hg, rest)"
  using assms by (auto simp: lima_regulator_disable_def clock_defs)

lemma clk_init_full:
  assumes stage: "lima_clk_stage (de_stage env) = LIMA_CLK_STAGE_FULL" and init: "lima_clk_init env d = (r, d')"
    and own: "owned d = ((b, g, rs, s), hr, rest)"
  obtains hr' where "owned d' = (if r = OK then (b + 1, g + 1, rs + of_bool hr', s) else (b, g, rs, s), hr', rest)"
    and "pipes_idle d' = pipes_idle d"
proof -
  have step: "\<exists>hr'. owned d' = (if r = OK then (b + 1, g + 1, rs + of_bool hr', s) else (b, g, rs, s), hr', rest) \<and>
      pipes_idle d' = pipes_idle d" if "lima_clk_enable env (d\<lparr>ld_has_reset := h\<rparr>) = (r, d')" for h
  proof -
    have "owned (d\<lparr>ld_has_reset := h\<rparr>) = ((b, g, rs, s), h, rest)" using own by (simp add: owned_defs)
    then show ?thesis using clk_enable_full [OF stage that] by (auto simp: pipes_idle_def)
  qed
  have "\<exists>hr'. owned d' = (if r = OK then (b + 1, g + 1, rs + of_bool hr', s) else (b, g, rs, s), hr', rest) \<and>
      pipes_idle d' = pipes_idle d"
    using init own step
    by (auto simp: lima_clk_init_def owned_defs pipes_idle_def split: rc.splits sum.splits)
  then show thesis using that by blast
qed

lemma regulator_init_owned:
  assumes init: "lima_regulator_init env d = (r, d')" and own: "owned d = ((b, g, rs, s), hr, hg, rest)"
  obtains hg' where "owned d' = ((b, g, rs, if r = OK then s + of_bool hg' else s), hr, hg', rest)"
    and "pipes_idle d' = pipes_idle d"
proof -
  have on: "owned (d\<lparr>ld_has_regulator := h\<rparr>) = ((b, g, rs, s), hr, h, rest)" for h using own by (simp add: owned_defs)
  have "\<exists>hg'. owned d' = ((b, g, rs, if r = OK then s + of_bool hg' else s), hr, hg', rest) \<and> pipes_idle d' = pipes_idle d"
  proof (cases "de_get_regulator env")
    case OK
    then have "lima_regulator_enable env (d\<lparr>ld_has_regulator := True\<rparr>) = (r, d')" using init by (simp add: lima_regulator_init_def)
    then show ?thesis using regulator_enable_owned [OF _ on] by (auto simp: pipes_idle_def)
  next
    case (E e)
    then have "d' = d\<lparr>ld_has_regulator := False\<rparr>" using init by (simp add: lima_regulator_init_def)
    then show ?thesis using on [of False] by (intro exI [of _ False]) (simp add: pipes_idle_def)
  qed
  then show thesis using that by blast
qed

section \<open>Pipes\<close>

text \<open>The slab exists exactly while somebody uses it.\<close>

definition slab_ok :: "bool \<times> int \<Rightarrow> bool" where
  "slab_ok slab = (fst slab \<longleftrightarrow> snd slab \<noteq> 0)"

lemma idle_pipe_fini: "sp_current_task s = None \<Longrightarrow> lima_sched_pipe_fini vt w world s = Some s"
  by (simp add: lima_sched_pipe_fini_def pipe_fini_wait.simps pipe_task_in_flight_def)

lemma gp_sched_fini_idle:
  assumes "pipes_idle d" and "owned d = (p, hr, hg, vm, dl, st, gs, ps)"
  obtains d' where "gp_sched_fini env d = Some d'" and "owned d' = (p, hr, hg, vm, dl, st(lima_pipe_gp := False), gs, ps)"
    and "pipes_idle d'"
  using assms by (auto simp: gp_sched_fini_def on_gp_def idle_pipe_fini pipes_idle_def set_started_def owned_defs)

lemma pp_sched_fini_idle:
  assumes "pipes_idle d" and "owned d = (p, hr, hg, vm, dl, st, gs, ps)"
  obtains d' where "pp_sched_fini env d = Some d'" and "owned d' = (p, hr, hg, vm, dl, st(lima_pipe_pp := False), gs, ps)"
    and "pipes_idle d'"
  using assms by (auto simp: pp_sched_fini_def on_pp_def idle_pipe_fini pipes_idle_def set_started_def owned_defs)

lemma pipe_add_owned: "owned (fold pp_pipe_add is d) = owned d \<and> pipes_idle (fold pp_pipe_add is d) = pipes_idle d"
proof (induction "is" arbitrary: d)
  case (Cons i "is")
  have "owned (pp_pipe_add i d) = owned d \<and> pipes_idle (pp_pipe_add i d) = pipes_idle d"
    by (simp add: pp_pipe_add_def Let_def owned_defs pipes_idle_def)
  then show ?case using Cons.IH by simp
qed simp

lemma init_gp_pipe_idle:
  assumes idle: "pipes_idle d" and own: "owned d = (p, hr, hg, vm, dl, st, gs, ps)"
    and st: "\<not> st lima_pipe_gp" and gs: "slab_ok gs"
  obtains r d' where "lima_init_gp_pipe env d = Some (r, d')" and "pipes_idle d'"
    and "owned d' = (p, hr, hg, vm, dl, st(lima_pipe_gp := r = OK), if r = OK then (True, snd gs + 1) else gs, ps)"
proof (cases "lima_sched_pipe_init (de_timeout_ms env) (de_sched_init env lima_pipe_gp)")
  case (E e)
  have "st(lima_pipe_gp := False) = st" using st by (simp add: fun_upd_idem)
  then show ?thesis using that [of "E e" d] E idle own by (simp add: lima_init_gp_pipe_def)
next
  case OK
  let ?d1 = "(set_started lima_pipe_gp True d)\<lparr>ld_gp_cfg := (ld_gp_cfg d)\<lparr>pc_l2_cache := pc_l2_cache (ld_gp_cfg d) @ [lima_ip_l2_cache0],
                pc_mmu := pc_mmu (ld_gp_cfg d) @ [lima_ip_gpmmu]\<rparr>, ld_gp_processor := ld_gp_processor d @ [lima_ip_gp]\<rparr>"
  have own1: "owned ?d1 = (p, hr, hg, vm, dl, st(lima_pipe_gp := True), gs, ps)" "pipes_idle ?d1" "ld_gp_slab ?d1 = gs"
    using own idle by (auto simp: owned_defs set_started_def pipes_idle_def)
  obtain ex cnt where gs': "gs = (ex, cnt)" by (cases gs)
  show ?thesis
  proof (cases "\<not> ex \<and> \<not> de_gp_slab env")
    case True
    then have gs0: "gs = (False, cnt)" by (simp add: gs')
    have "pipes_idle (?d1\<lparr>ld_gp_slab := gs\<rparr>)"
      and "owned (?d1\<lparr>ld_gp_slab := gs\<rparr>) = (p, hr, hg, vm, dl, st(lima_pipe_gp := True), gs, ps)"
      using own1 by (simp_all add: owned_defs pipes_idle_def)
    then obtain d3 where "gp_sched_fini env (?d1\<lparr>ld_gp_slab := gs\<rparr>) = Some d3" "pipes_idle d3"
      "owned d3 = (p, hr, hg, vm, dl, (st(lima_pipe_gp := True))(lima_pipe_gp := False), gs, ps)"
      by (rule gp_sched_fini_idle [where env = env])
    then show ?thesis
      using that [of "E ENOMEM" d3] True own1(3)
      by (simp add: lima_init_gp_pipe_def OK lima_gp_pipe_init_def gs0 Let_def)
  next
    case False
    let ?d2 = "?d1\<lparr>ld_gp_slab := (True, cnt + 1)\<rparr>"
    let ?d' = "?d2\<lparr>ld_gp_cfg := (ld_gp_cfg ?d2)\<lparr>pc_frame_size := 4 * of_nat LIMA_GP_FRAME_REG_NUM\<rparr>\<rparr>"
    have "lima_init_gp_pipe env d = Some (OK, ?d')"
      using False own1(3) unfolding lima_init_gp_pipe_def OK rc.case Let_def
      by (auto simp: lima_gp_pipe_init_def gs')
    moreover have "owned ?d' = (p, hr, hg, vm, dl, st(lima_pipe_gp := True), (True, cnt + 1), ps)" "pipes_idle ?d'"
      using own1 by (auto simp: owned_defs pipes_idle_def)
    ultimately show ?thesis using that [of OK ?d'] by (simp add: gs')
  qed
qed

lemma init_pp_pipe_idle:
  assumes idle: "pipes_idle d" and own: "owned d = (p, hr, hg, vm, dl, st, gs, ps)"
    and st: "\<not> st lima_pipe_pp" and ps: "slab_ok ps"
  obtains r d' where "lima_init_pp_pipe env d = Some (r, d')" and "pipes_idle d'"
    and "owned d' = (p, hr, hg, vm, dl, st(lima_pipe_pp := r = OK), gs, if r = OK then (True, snd ps + 1) else ps)"
proof (cases "lima_sched_pipe_init (de_timeout_ms env) (de_sched_init env lima_pipe_pp)")
  case (E e)
  have "st(lima_pipe_pp := False) = st" using st by (simp add: fun_upd_idem)
  then show ?thesis using that [of "E e" d] E idle own by (simp add: lima_init_pp_pipe_def)
next
  case OK
  define d1 where "d1 = fold pp_pipe_add [0..<LIMA_SCHED_PIPE_MAX_PROCESSOR] (set_started lima_pipe_pp True d)"
  define d2 where "d2 = (if d_present (ld_dev d1) lima_ip_bcast
      then d1\<lparr>ld_pp := (ld_pp d1)\<lparr>sp_backend := (sp_backend (ld_pp d1))\<lparr>pp_bcast := Some lima_ip_pp_bcast\<rparr>\<rparr>,
        ld_pp_cfg := (ld_pp_cfg d1)\<lparr>pc_bcast_mmu := Some lima_ip_ppmmu_bcast\<rparr>\<rparr>
      else d1)"
  have "owned d1 = owned (set_started lima_pipe_pp True d)" "pipes_idle d1"
    using pipe_add_owned [of "[0..<LIMA_SCHED_PIPE_MAX_PROCESSOR]" "set_started lima_pipe_pp True d"] idle
    by (simp_all add: d1_def set_started_def pipes_idle_def)
  moreover have "owned (set_started lima_pipe_pp True d) = (p, hr, hg, vm, dl, st(lima_pipe_pp := True), gs, ps)"
    using own by (auto simp: owned_defs set_started_def)
  moreover have "owned d2 = owned d1" "pipes_idle d2 = pipes_idle d1" by (simp_all add: d2_def owned_defs pipes_idle_def)
  ultimately have own2: "owned d2 = (p, hr, hg, vm, dl, st(lima_pipe_pp := True), gs, ps)" "pipes_idle d2" "ld_pp_slab d2 = ps"
    by (simp_all add: owned_def)
  obtain ex cnt where ps': "ps = (ex, cnt)" by (cases ps)
  show ?thesis
  proof (cases "\<not> ex \<and> \<not> de_pp_slab env")
    case True
    then have ps0: "ps = (False, cnt)" by (simp add: ps')
    have "pipes_idle (d2\<lparr>ld_pp_slab := ps\<rparr>)"
      and "owned (d2\<lparr>ld_pp_slab := ps\<rparr>) = (p, hr, hg, vm, dl, st(lima_pipe_pp := True), gs, ps)"
      using own2 by (simp_all add: owned_defs pipes_idle_def)
    then obtain d3 where "pp_sched_fini env (d2\<lparr>ld_pp_slab := ps\<rparr>) = Some d3" "pipes_idle d3"
      "owned d3 = (p, hr, hg, vm, dl, (st(lima_pipe_pp := True))(lima_pipe_pp := False), gs, ps)"
      by (rule pp_sched_fini_idle [where env = env])
    then show ?thesis
      using that [of "E ENOMEM" d3] True own2(3)
      by (simp add: lima_init_pp_pipe_def OK lima_pp_pipe_init_def ps0 Let_def d1_def [symmetric] d2_def [symmetric])
  next
    case False
    obtain n where "lima_pp_pipe_init (d_id (ld_dev d2)) (de_pp_slab env) (ld_pp_slab d2) = (OK, Some n, True, cnt + 1)"
      using False own2(3) by (auto simp: lima_pp_pipe_init_def ps' Let_def)
    then have "lima_init_pp_pipe env d = Some (OK, d2\<lparr>ld_pp_slab := (True, cnt + 1),
        ld_pp_cfg := (ld_pp_cfg d2)\<lparr>pc_frame_size := of_nat n\<rparr>\<rparr>)" (is "_ = Some (OK, ?d')")
      unfolding lima_init_pp_pipe_def OK rc.case Let_def d1_def [symmetric] d2_def [symmetric] by simp
    moreover have "owned ?d' = (p, hr, hg, vm, dl, st(lima_pipe_pp := True), gs, (True, cnt + 1))" "pipes_idle ?d'"
      using own2 by (auto simp: owned_defs pipes_idle_def)
    ultimately show ?thesis using that [of OK ?d'] by (simp add: ps')
  qed
qed

lemma slab_put: "slab_ok gs \<Longrightarrow> lima_gp_pipe_fini (True, snd gs + 1) = gs" "slab_ok gs \<Longrightarrow> lima_pp_pipe_fini (True, snd gs + 1) = gs"
  by (cases gs; simp add: lima_gp_pipe_fini_def lima_pp_pipe_fini_def slab_ok_def)+

lemma fini_gp_pipe_idle:
  assumes idle: "pipes_idle d" and own: "owned d = (p, hr, hg, vm, dl, st, (True, snd gs + 1), ps)" and gs: "slab_ok gs"
  obtains d' where "lima_fini_gp_pipe env d = Some d'" and "pipes_idle d'"
    and "owned d' = (p, hr, hg, vm, dl, st(lima_pipe_gp := False), gs, ps)"
proof -
  obtain d1 where d1: "gp_sched_fini env d = Some d1" "pipes_idle d1"
    "owned d1 = (p, hr, hg, vm, dl, st(lima_pipe_gp := False), (True, snd gs + 1), ps)"
    by (rule gp_sched_fini_idle [OF idle own])
  show thesis
    by (rule that [of "d1\<lparr>ld_gp_slab := gs\<rparr>"])
      (use d1 slab_put(1) [OF gs] in \<open>auto simp: lima_fini_gp_pipe_def owned_defs pipes_idle_def\<close>)
qed

lemma fini_pp_pipe_idle:
  assumes idle: "pipes_idle d" and own: "owned d = (p, hr, hg, vm, dl, st, gs, (True, snd ps + 1))" and ps: "slab_ok ps"
  obtains d' where "lima_fini_pp_pipe env d = Some d'" and "pipes_idle d'"
    and "owned d' = (p, hr, hg, vm, dl, st(lima_pipe_pp := False), gs, ps)"
proof -
  obtain d1 where d1: "pp_sched_fini env d = Some d1" "pipes_idle d1"
    "owned d1 = (p, hr, hg, vm, dl, st(lima_pipe_pp := False), gs, (True, snd ps + 1))"
    by (rule pp_sched_fini_idle [OF idle own])
  show thesis
    by (rule that [of "d1\<lparr>ld_pp_slab := ps\<rparr>"])
      (use d1 slab_put(2) [OF ps] in \<open>auto simp: lima_fini_pp_pipe_def owned_defs pipes_idle_def\<close>)
qed

section \<open>Giving everything back\<close>

text \<open>\<open>down d\<close>: what is owned once nothing is; \<open>held_up\<close>: with clocks, reset and supply up.\<close>

lemma create_refcount: "lima_vm_create env = Some vm \<Longrightarrow> vm_refcount vm = 1"
  by (auto simp: lima_vm_create_def Let_def vm_blank_def same_frame_def split: if_splits option.splits prod.splits rc.splits
      dest!: map_page_frame)

lemma err_out1_owned:
  assumes "owned d = ((b + 1, g + 1, rs + of_bool hr, s + of_bool hg), hr, hg, rest)"
  shows "owned (device_err_out1 d) = ((b, g, rs, s), hr, hg, rest)"
  using clk_disable_owned [OF regulator_disable_owned [OF assms]]
  by (simp add: device_err_out1_def device_err_out0_def lima_clk_fini_def lima_regulator_fini_def)

lemma put_empty_vm_owned:
  assumes "owned d = (p, hr, hg, Some vm, rest)" "vm_refcount vm = 1"
  shows "owned (put_empty_vm d) = (p, hr, hg, None, rest)"
  using assms by (auto simp: put_empty_vm_def owned_defs lima_vm_put_def)

lemma err_out3_owned:
  assumes own: "owned d = ((b + 1, g + 1, rs + of_bool hr, s + of_bool hg), hr, hg, Some vm, dl, rest)" and vm: "vm_refcount vm = 1"
  shows "owned (device_err_out3 d) = ((b, g, rs, s), hr, hg, None, None, rest)"
proof -
  have "owned (d\<lparr>ld_dlbu := None\<rparr>) = ((b + 1, g + 1, rs + of_bool hr, s + of_bool hg), hr, hg, Some vm, None, rest)"
    using own by (auto simp: owned_defs)
  then show ?thesis
    using err_out1_owned [OF put_empty_vm_owned [OF _ vm]] by (simp add: device_err_out3_def device_err_out2_def)
qed

lemma err_out4_owned:
  assumes "owned d = ((b + 1, g + 1, rs + of_bool hr, s + of_bool hg), hr, hg, Some vm, dl, rest)" "vm_refcount vm = 1"
  shows "owned (device_err_out4 env n d) = ((b, g, rs, s), hr, hg, None, None, rest)"
proof -
  have "keeps d (fold (lima_fini_ip env) (rev (take n ip_list)) d)" by (rule fold_keeps) (rule fini_ip_keeps)
  then have "owned (fold (lima_fini_ip env) (rev (take n ip_list)) d) = owned d" by (simp add: keeps_def)
  then show ?thesis unfolding device_err_out4_def using err_out3_owned assms by simp
qed

section \<open>Bring-up and shutdown\<close>

text \<open>
  \<open>up_or_down r d\<close>: after a bring-up that started from the counts \<open>b g rs s\<close> and the slabs \<open>gs ps\<close>, everything
  is held when it succeeded, nothing when it failed.
\<close>

definition up_or_down :: "int \<Rightarrow> int \<Rightarrow> int \<Rightarrow> int \<Rightarrow> bool \<times> int \<Rightarrow> bool \<times> int \<Rightarrow> rc \<Rightarrow> lima_device \<Rightarrow> bool" where
  "up_or_down b g rs s gs ps r d = (\<exists>hr hg. if r = OK
     then pipes_idle d \<and> (\<exists>vm dl. vm_refcount vm = 1 \<and>
       owned d = ((b + 1, g + 1, rs + of_bool hr, s + of_bool hg), hr, hg, Some vm, dl, (\<lambda>_. True),
         (True, snd gs + 1), (True, snd ps + 1)))
     else owned d = ((b, g, rs, s), hr, hg, None, None, (\<lambda>_. False), gs, ps))"

lemma init_blocks_owned:
  assumes clk: "clock_advances (de_hw env)" and idle: "pipes_idle d" and vm: "vm_refcount vm = 1"
    and own: "owned d = ((b + 1, g + 1, rs + of_bool hr, s + of_bool hg), hr, hg, Some vm, dl, (\<lambda>_. False), gs, ps)"
    and slabs: "slab_ok gs" "slab_ok ps"
  shows "\<exists>r d'. init_blocks env d = Some (r, d') \<and> up_or_down b g rs s gs ps r d'"
proof -
  have down: "up_or_down b g rs s gs ps (E e) (device_err_out4 env n d1)"
    if "owned d1 = ((b + 1, g + 1, rs + of_bool hr, s + of_bool hg), hr, hg, Some vm, dl, (\<lambda>_. False), gs, ps)" for e n d1
    using err_out4_owned [OF that vm] by (auto simp: up_or_down_def)
  have upd: "((\<lambda>_. False)(lima_pipe_gp := False)) = (\<lambda>_. False)" for x by auto
  have "each_ip (lima_init_ip env) ip_list 0 d \<noteq> None" by (rule each_ip_returns [OF init_ip_returns(1) [OF clk]])
  then obtain r5 n d5 where e5: "each_ip (lima_init_ip env) ip_list 0 d = Some (r5, n, d5)" by auto
  have k5: "keeps d d5" by (rule each_ip_keeps [OF _ e5]) (rule init_ip_keeps)
  note own5 = own [folded k5 [unfolded keeps_def, THEN conjunct1]] and idle5 = k5 [unfolded keeps_def, THEN conjunct2, rule_format, OF idle]
  obtain r6 d6 where e6: "lima_init_gp_pipe env d5 = Some (r6, d6)" and idle6: "pipes_idle d6" and own6:
    "owned d6 = ((b + 1, g + 1, rs + of_bool hr, s + of_bool hg), hr, hg, Some vm, dl,
      (\<lambda>_. False)(lima_pipe_gp := r6 = OK), if r6 = OK then (True, snd gs + 1) else gs, ps)"
    by (rule init_gp_pipe_idle [OF idle5 own5 _ slabs(1)]) simp
  obtain r7 d7 where e7: "lima_init_pp_pipe env d6 = Some (r7, d7)" and idle7: "pipes_idle d7" and own7:
    "owned d7 = ((b + 1, g + 1, rs + of_bool hr, s + of_bool hg), hr, hg, Some vm, dl,
      (\<lambda>_. False)(lima_pipe_gp := r6 = OK, lima_pipe_pp := r7 = OK), if r6 = OK then (True, snd gs + 1) else gs,
      if r7 = OK then (True, snd ps + 1) else ps)"
    by (rule init_pp_pipe_idle [OF idle6 own6 _ slabs(2)]) simp
  have all: "((\<lambda>_. False)(lima_pipe_gp := True, lima_pipe_pp := True)) = (\<lambda>_. True)"
    by (rule ext) (metis fun_upd_apply lima_pipe_id.exhaust)
  show ?thesis
  proof (cases r5)
    case (E e)
    then show ?thesis using down [OF own5] by (simp add: init_blocks_def e5)
  next
    case r5: OK
    show ?thesis
    proof (cases r6)
      case (E e)
      then show ?thesis using down [of d6 e n] own6 by (simp add: init_blocks_def e5 e6 r5 fun_upd_idem)
    next
      case r6: OK
      show ?thesis
      proof (cases r7)
        case (E e)
        obtain d8 where "lima_fini_gp_pipe env d7 = Some d8" "owned d8 = ((b + 1, g + 1, rs + of_bool hr, s + of_bool hg),
            hr, hg, Some vm, dl, ((\<lambda>_. False)(lima_pipe_gp := True, lima_pipe_pp := False))(lima_pipe_gp := False), gs, ps)"
          by (rule fini_gp_pipe_idle [OF idle7 _ slabs(1)]) (use own7 r6 E in auto)
        then show ?thesis using down [of d8 e n] by (simp add: init_blocks_def e5 e6 e7 r5 r6 E fun_upd_idem fun_upd_twist)
      next
        case OK
        have "up_or_down b g rs s gs ps OK (d7\<lparr>ld_errors := 0, ld_error_lock := True\<rparr>)"
          using own7 idle7 vm all by (auto simp: up_or_down_def owned_defs pipes_idle_def r6 OK)
        then show ?thesis by (simp add: init_blocks_def e5 e6 e7 r5 r6 OK)
      qed
    qed
  qed
qed

lemma device_init_owned:
  assumes clk: "clock_advances (de_hw env)" and stage: "lima_clk_stage (de_stage env) = LIMA_CLK_STAGE_FULL"
    and idle: "pipes_idle d" and own: "owned d = ((b, g, rs, s), hr, hg, None, None, (\<lambda>_. False), gs, ps)"
    and slabs: "slab_ok gs" "slab_ok ps"
  shows "\<exists>r d'. lima_device_init env d = Some (r, d') \<and> up_or_down b g rs s gs ps r d'"
proof -
  obtain r1 d1 where e1: "lima_clk_init env d = (r1, d1)" by fastforce
  obtain hr1 where own1: "owned d1 = (if r1 = OK then (b + 1, g + 1, rs + of_bool hr1, s) else (b, g, rs, s),
      hr1, hg, None, None, (\<lambda>_. False), gs, ps)" and idle1: "pipes_idle d1"
    by (rule clk_init_full [OF stage e1 own]) (use idle in simp)
  show ?thesis
  proof (cases r1)
    case (E e)
    then show ?thesis using own1 by (auto simp: lima_device_init_def e1 up_or_down_def)
  next
    case r1: OK
    note own1 = own1 [simplified r1, simplified]
    obtain r2 d2 where e2: "lima_regulator_init env d1 = (r2, d2)" by fastforce
    obtain hg2 where own2: "owned d2 = ((b + 1, g + 1, rs + of_bool hr1, if r2 = OK then s + of_bool hg2 else s), hr1, hg2,
        None, None, (\<lambda>_. False), gs, ps)" and idle2: "pipes_idle d2"
      by (rule regulator_init_owned [OF e2 own1]) (use idle1 in simp)
    show ?thesis
    proof (cases r2)
      case (E e)
      have "owned (device_err_out0 d2) = ((b, g, rs, s), hr1, hg2, None, None, (\<lambda>_. False), gs, ps)"
        using clk_disable_owned [OF own2] by (simp add: device_err_out0_def lima_clk_fini_def E)
      then show ?thesis by (auto simp: lima_device_init_def e1 e2 r1 E up_or_down_def)
    next
      case r2: OK
      note own2 = own2 [simplified r2, simplified]
      let ?vm = "lima_vm_create ((de_vm env)\<lparr>vc_dlbu := ld_dlbu d2, vc_va_start := ld_va_start d2, vc_va_end := ld_va_end d2\<rparr>)"
      show ?thesis
      proof (cases ?vm)
        case None
        then show ?thesis using err_out1_owned [OF own2] by (auto simp: lima_device_init_def e1 e2 r1 r2 up_or_down_def)
      next
        case (Some vm)
        note ref = create_refcount [OF Some]
        let ?m = "d_id (ld_dev d2) = lima_gpu_mali450"
        define d3 where "d3 = d2\<lparr>ld_dev := (ld_dev d2)\<lparr>d_empty_pd := vp_dma (vm_pd vm)\<rparr>, ld_empty_vm := Some vm, ld_va_start := 0,
            ld_va_end := (if ?m then LIMA_VA_RESERVE_START else LIMA_VA_RESERVE_END)\<rparr>"
        define d4 where "d4 = (if ?m then d3\<lparr>ld_dlbu := de_dlbu env\<rparr> else d3)"
        have own3: "owned d3 = ((b + 1, g + 1, rs + of_bool hr1, s + of_bool hg2), hr1, hg2, Some vm, None, (\<lambda>_. False), gs, ps)"
          using own2 by (auto simp: d3_def owned_defs)
        obtain dl where own4: "owned d4 = ((b + 1, g + 1, rs + of_bool hr1, s + of_bool hg2), hr1, hg2, Some vm, dl, (\<lambda>_. False), gs, ps)"
          and idle4: "pipes_idle d4"
          using own3 idle2 by (auto simp: d4_def d3_def owned_defs pipes_idle_def)
        have out: "up_or_down b g rs s gs ps (E e) (device_err_out2 d3)" "up_or_down b g rs s gs ps (E e) (device_err_out3 d4)" for e
          using err_out1_owned [OF put_empty_vm_owned [OF own3 ref]] err_out3_owned [OF own4 ref]
          by (auto simp: up_or_down_def device_err_out2_def)
        obtain r5 d5 where e5: "init_blocks env (d4\<lparr>ld_iomem := a\<rparr>) = Some (r5, d5)" "up_or_down b g rs s gs ps r5 d5" if "de_iomem env = Inr a" for a
          by (cases "de_iomem env")
            (use init_blocks_owned [OF clk _ ref _ slabs, of "d4\<lparr>ld_iomem := projr (de_iomem env)\<rparr>"] own4 idle4 in auto)
        have "lima_device_init env d = (if ?m \<and> de_dlbu env = None then Some (E ENOMEM, device_err_out2 d3)
            else case de_iomem env of Inl e \<Rightarrow> Some (E e, device_err_out3 d4) | Inr a \<Rightarrow> init_blocks env (d4\<lparr>ld_iomem := a\<rparr>))"
          unfolding lima_device_init_def e1 e2 r1 r2 prod.case rc.case Some option.case Let_def d3_def d4_def ..
        then show ?thesis using out e5 by (cases "de_iomem env") auto
      qed
    qed
  qed
qed

lemma fresh_owned:
  assumes "ld_empty_vm d = None" "ld_dlbu d = None" "\<forall>p. \<not> ld_started d p"
  shows "owned d = ((ld_clk_bus d, ld_clk_gpu d, ld_reset d, ld_supply d), ld_has_reset d, ld_has_regulator d, None, None,
    (\<lambda>_. False), ld_gp_slab d, ld_pp_slab d)"
  using assms by (auto simp: owned_defs)

lemma fini_owned:
  assumes idle: "pipes_idle d" and vm: "vm_refcount vm = 1" and slabs: "slab_ok gs" "slab_ok ps"
    and own: "owned d = ((b + 1, g + 1, rs + of_bool hr, s + of_bool hg), hr, hg, Some vm, dl, (\<lambda>_. True),
      (True, snd gs + 1), (True, snd ps + 1))"
  shows "\<exists>d'. lima_device_fini env d = Some d' \<and> owned d' = ((b, g, rs, s), hr, hg, None, None, (\<lambda>_. False), gs, ps)"
proof -
  let ?d0 = "d\<lparr>ld_errors := 0, ld_error_lock := False\<rparr>"
  have "pipes_idle ?d0" "owned ?d0 = owned d" using idle by (simp_all add: owned_defs pipes_idle_def)
  note d0 = this(1) this(2) [unfolded own]
  obtain d1 where d1: "lima_fini_pp_pipe env ?d0 = Some d1" "pipes_idle d1" "owned d1 = ((b + 1, g + 1, rs + of_bool hr, s + of_bool hg),
      hr, hg, Some vm, dl, (\<lambda>_. True)(lima_pipe_pp := False), (True, snd gs + 1), ps)"
    by (rule fini_pp_pipe_idle [OF d0 slabs(2)])
  obtain d2 where d2: "lima_fini_gp_pipe env d1 = Some d2" "owned d2 = ((b + 1, g + 1, rs + of_bool hr, s + of_bool hg),
      hr, hg, Some vm, dl, ((\<lambda>_. True)(lima_pipe_pp := False))(lima_pipe_gp := False), gs, ps)"
    by (rule fini_gp_pipe_idle [OF d1(2,3) slabs(1)])
  have off: "((\<lambda>_. True)(lima_pipe_pp := False))(lima_pipe_gp := False) = (\<lambda>_. False)"
    by (rule ext) (metis fun_upd_apply lima_pipe_id.exhaust)
  have "owned (device_err_out4 env (List.length ip_list) d2) = ((b, g, rs, s), hr, hg, None, None, (\<lambda>_. False), gs, ps)"
    by (rule err_out4_owned [OF _ vm]) (use d2(2) off in simp)
  then show ?thesis
    using d1(1) d2(1) by (simp add: lima_device_fini_def device_err_out4_def device_err_out3_def device_err_out2_def
        device_err_out1_def device_err_out0_def)
qed



section \<open>Suspend and resume\<close>

lemma ips_owned: "owned (fold (lima_suspend_ip e) is x) = owned x"
  using fold_keeps [where f = "lima_suspend_ip e", OF fini_ip_keeps(2)] by (simp add: keeps_def)

lemma power_owned: "power x = fst (owned x)"
  by (simp add: owned_def)

lemma resume_power:
  assumes clk: "clock_advances (de_hw env)" and stage: "lima_clk_stage (de_stage env) = LIMA_CLK_STAGE_FULL"
    and own1: "owned d1 = ((b - 1, g - 1, rs - of_bool hr, s - of_bool hg), hr, hg, rest)"
  shows "\<exists>r2 d2. lima_device_resume env d1 = Some (r2, d2) \<and> power d2 = (if r2 = OK then (b, g, rs, s) else power d1)"
proof -
  have off: "owned (resume_err_out1 env n x) = ((b - 1, g - 1, rs - of_bool hr, s - of_bool hg), hr, hg, rest)"
    if "owned x = ((b, g, rs, s), hr, hg, rest)" for n x
    unfolding resume_err_out1_def by (rule clk_disable_owned [OF regulator_disable_owned]) (simp add: ips_owned that)
  obtain r2 d2 where e2: "lima_clk_enable env d1 = (r2, d2)" by fastforce
  obtain r3 d3 where e3: "lima_regulator_enable env d2 = (r3, d3)" by fastforce
  have own2: "owned d2 = (if r2 = OK then (b, g, rs, s - of_bool hg) else (b - 1, g - 1, rs - of_bool hr, s - of_bool hg), hr, hg, rest)"
    using clk_enable_full [OF stage e2 own1] by simp
  show ?thesis
  proof (cases r2)
    case (E e)
    then show ?thesis using own2 own1 by (simp add: lima_device_resume_def e2 power_owned)
  next
    case r2: OK
    have "owned d2 = ((b, g, rs, s - of_bool hg), hr, hg, rest)" using own2 r2 by simp
    from regulator_enable_owned [OF e3 this] have own3: "owned d3 = ((b, g, rs, if r3 = OK then s else s - of_bool hg), hr, hg, rest)" by simp
    show ?thesis
    proof (cases r3)
      case (E e)
      have "owned (lima_clk_disable d3) = ((b - 1, g - 1, rs - of_bool hr, s - of_bool hg), hr, hg, rest)"
        by (rule clk_disable_owned) (use own3 E in simp)
      then show ?thesis using own1 by (simp add: lima_device_resume_def e2 e3 r2 E power_owned)
    next
      case r3: OK
      have "each_ip (lima_resume_ip env) ip_list 0 d3 \<noteq> None" by (rule each_ip_returns [OF init_ip_returns(2) [OF clk]])
      then obtain r4 n d4 where e4: "each_ip (lima_resume_ip env) ip_list 0 d3 = Some (r4, n, d4)" by auto
      have own4: "owned d4 = ((b, g, rs, s), hr, hg, rest)" using each_ip_keeps [OF resume_ip_keeps e4] own3 r3 by (simp add: keeps_def)
      have "lima_device_resume env d1 = Some (case r4 of E e \<Rightarrow> (E e, resume_err_out1 env n d4) | OK \<Rightarrow> (OK, d4))"
        by (simp add: lima_device_resume_def e2 e3 r2 r3 e4 lima_devfreq_resume_def split: rc.split)
      then show ?thesis using off [OF own4] own4 own1 by (cases r4) (simp_all add: power_owned)
    qed
  qed
qed


section \<open>The wiring of the pixel pipe\<close>

definition pp_l2 :: "lima_dev \<Rightarrow> nat \<Rightarrow> lima_ip_id" where
  "pp_l2 dev i = (if d_id dev = lima_gpu_mali400 then lima_ip_l2_cache0 else if i < 4 then lima_ip_l2_cache1 else lima_ip_l2_cache2)"

definition pp_usable :: "lima_dev \<Rightarrow> nat \<Rightarrow> bool" where
  "pp_usable dev i = (d_present dev (ip_plus lima_ip_pp0 i) \<and> d_present dev (ip_plus lima_ip_ppmmu0 i) \<and> d_present dev (pp_l2 dev i))"

definition pp_wired :: "nat \<Rightarrow> lima_dev \<Rightarrow> lima_device \<Rightarrow> bool" where
  "pp_wired n dev d = (let used = filter (pp_usable dev) [0..<n] in ld_dev d = dev \<and>
     pp_processor (sp_backend (ld_pp d)) = map (ip_plus lima_ip_pp0) used \<and> pc_mmu (ld_pp_cfg d) = map (ip_plus lima_ip_ppmmu0) used \<and>
     set (pc_l2_cache (ld_pp_cfg d)) \<subseteq> pp_l2 dev ` set used \<and> List.length (pc_l2_cache (ld_pp_cfg d)) \<le> (if n \<le> 4 then 1 else 2))"

lemma l2_plus: "i < 8 \<Longrightarrow> ip_plus lima_ip_l2_cache1 (drop_bit 2 i) = (if i < 4 then lima_ip_l2_cache1 else lima_ip_l2_cache2)"
proof -
  assume "i < 8"
  then have "drop_bit 2 i = (if i < 4 then 0 else 1)" by (auto simp: drop_bit_eq_div)
  then show ?thesis by (simp add: ip_plus_def ip_list_def)
qed

lemma wired_step:
  assumes "pp_wired i dev d" and "i < 8"
  shows "pp_wired (Suc i) dev (pp_pipe_add i d)"
proof -
  have len: "List.length (pc_l2_cache (ld_pp_cfg d)) \<le> (if i \<le> 4 then 1 else 2)" and dev: "ld_dev d = dev"
    using assms(1) by (simp_all add: pp_wired_def Let_def)
  have slot: "drop_bit 2 i = (if i < 4 then 0 else 1)" using assms(2) by (auto simp: drop_bit_eq_div)
  have l2: "(if d_id dev = lima_gpu_mali400 then lima_ip_l2_cache0 else ip_plus lima_ip_l2_cache1 (drop_bit 2 i)) = pp_l2 dev i"
    using l2_plus [OF assms(2)] by (simp add: pp_l2_def)
  have add: "pp_pipe_add i d = (if pp_usable dev i then
        d\<lparr>ld_pp := (ld_pp d)\<lparr>sp_backend := (sp_backend (ld_pp d))\<lparr>pp_processor := pp_processor (sp_backend (ld_pp d)) @ [ip_plus lima_ip_pp0 i]\<rparr>\<rparr>,
          ld_pp_cfg := (ld_pp_cfg d)\<lparr>pc_l2_cache := (if List.length (pc_l2_cache (ld_pp_cfg d)) \<le> drop_bit 2 i
              then pc_l2_cache (ld_pp_cfg d) @ [pp_l2 dev i] else pc_l2_cache (ld_pp_cfg d)),
            pc_mmu := pc_mmu (ld_pp_cfg d) @ [ip_plus lima_ip_ppmmu0 i]\<rparr>\<rparr>
      else d)"
    unfolding pp_pipe_add_def Let_def dev l2 pp_usable_def by simp
  show ?thesis
    using assms(1) len unfolding add slot by (auto simp: pp_wired_def Let_def split: if_splits)
qed

lemma wired_fold: "pp_wired 0 dev d \<Longrightarrow> n \<le> 8 \<Longrightarrow> pp_wired n dev (fold pp_pipe_add [0..<n] d)"
  by (induction n) (simp_all add: wired_step)

text \<open>
  C0: The pixel pipe gets exactly the processors that can be used - present together with their MMU and their
  cache - in order and each with its own MMU, and the fixed-size arrays of the pipe are never overrun: at
  most 8 processors and MMUs and at most 2 caches, although the cache slot is tested by one index and
  written by another.
\<close>

theorem lima_init_pp_pipe_wiring:
  assumes init: "lima_init_pp_pipe env d = Some (OK, d')"
    and new: "pp_processor (sp_backend (ld_pp d)) = []" "pc_mmu (ld_pp_cfg d) = []" "pc_l2_cache (ld_pp_cfg d) = []"
  shows "let used = filter (pp_usable (ld_dev d)) [0..<8] in
    pp_processor (sp_backend (ld_pp d')) = map (ip_plus lima_ip_pp0) used \<and>
    pc_mmu (ld_pp_cfg d') = map (ip_plus lima_ip_ppmmu0) used \<and>
    set (pc_l2_cache (ld_pp_cfg d')) \<subseteq> pp_l2 (ld_dev d) ` set used \<and>
    List.length (pp_processor (sp_backend (ld_pp d'))) \<le> LIMA_SCHED_PIPE_MAX_PROCESSOR \<and>
    List.length (pc_mmu (ld_pp_cfg d')) \<le> LIMA_SCHED_PIPE_MAX_MMU \<and>
    List.length (pc_l2_cache (ld_pp_cfg d')) \<le> LIMA_SCHED_PIPE_MAX_L2_CACHE"
proof -
  have "pp_wired 0 (ld_dev d) (set_started lima_pipe_pp True d)" using new by (simp add: pp_wired_def set_started_def Let_def)
  then have w: "pp_wired 8 (ld_dev d) (fold pp_pipe_add [0..<8] (set_started lima_pipe_pp True d))" by (rule wired_fold) simp
  have "pp_wired 8 (ld_dev d) d'"
    using init w by (auto simp: lima_init_pp_pipe_def LIMA_SCHED_PIPE_MAX_PROCESSOR_def Let_def bind_eq_Some_conv pp_wired_def
        split: rc.splits prod.splits if_splits option.splits)
  moreover have "List.length (filter (pp_usable (ld_dev d)) [0..<8]) \<le> 8"
    using length_filter_le [of "pp_usable (ld_dev d)" "[0..<8]"] by simp
  ultimately show ?thesis
    by (simp add: pp_wired_def Let_def LIMA_SCHED_PIPE_MAX_PROCESSOR_def LIMA_SCHED_PIPE_MAX_MMU_def LIMA_SCHED_PIPE_MAX_L2_CACHE_def)
qed

end
