(* ===== verification/Lima_Dump.thy ===== *)
theory Lima_Dump
  imports Lima_Sched
begin

text \<open>
  The error dump of a failed job (\<open>lima_sched_build_error_task_list\<close> of \<open>lima_sched.c\<close>, the structures of
  \<open>lima_dump.h\<close>). The buffer is what \<open>kvmalloc\<close> returns for \<open>mem_size\<close> bytes; the model records every
  write into it as an offset from its start and a length, in order.
\<close>

section \<open>The format\<close>

text \<open>\<open>sizeof\<close> of the structures on a 64-bit kernel.\<close>

definition sizeof_dump_task :: nat where "sizeof_dump_task = 12"
definition sizeof_dump_chunk :: nat where "sizeof_dump_chunk = 8"
definition sizeof_dump_chunk_pid :: nat where "sizeof_dump_chunk_pid = 12"
definition sizeof_dump_chunk_buffer :: nat where "sizeof_dump_chunk_buffer = 16"
definition sizeof_error_task :: nat where "sizeof_error_task = 32"

lemmas dump_sizes = sizeof_dump_task_def sizeof_dump_chunk_def sizeof_dump_chunk_pid_def
  sizeof_dump_chunk_buffer_def sizeof_error_task_def

record lima_dump_head =
  dh_size :: u32
  dh_num_tasks :: u32

record dump_env =
  du_kvmalloc :: bool
  du_vmap :: "nat \<Rightarrow> bool"          \<comment> \<open>\<open>vmap\<close> of the pages of the i-th object\<close>
  du_gem_vmap :: "nat \<Rightarrow> bool"      \<comment> \<open>\<open>drm_gem_vmap_unlocked\<close> of the i-th object succeeds\<close>

section \<open>Building a dump\<close>

definition dumped_size :: "lima_bo \<Rightarrow> u64" where
  "dumped_size bo = (if bo_heap_size bo \<noteq> 0 then bo_heap_size bo else lima_bo_size bo)"

text \<open>The size of the chunks, in the \<open>u32\<close> arithmetic of the code.\<close>

definition dump_size :: "u32 \<Rightarrow> u32 \<Rightarrow> lima_bo list \<Rightarrow> u32" where
  "dump_size frame_size pname_len bos =
     (let s1 = of_nat sizeof_dump_chunk + frame_size;
          s2 = s1 + (of_nat sizeof_dump_chunk + pname_len);
          s3 = s2 + of_nat sizeof_dump_chunk
      in fold (\<lambda>bo s. s + of_nat sizeof_dump_chunk + ucast (dumped_size bo)) bos s3)"

text \<open>
  The loop over the objects of address space \<open>v\<close>: \<open>at\<close> is the offset of \<open>buffer_chunk\<close>, \<open>i\<close> the index.
  The result is the writes and whether every object could be mapped.
\<close>

fun dump_buffers ::
  "dump_env \<Rightarrow> nat \<Rightarrow> nat \<Rightarrow> nat \<Rightarrow> lima_bo list \<Rightarrow> ((nat \<times> nat) list \<times> bool) option" where
  "dump_buffers env v i at [] = Some ([], True)"
| "dump_buffers env v i at (bo # bos) = do {
     va \<leftarrow> lima_vm_get_va v bo;
     let size = unat (ucast (dumped_size bo) :: u32);
     let mapped = (if bo_heap_size bo \<noteq> 0 then du_vmap env i else du_gem_vmap env i);
     (if \<not> mapped then Some ([(at, sizeof_dump_chunk_buffer)], False)
      else do {
        (ws, ok) \<leftarrow> dump_buffers env v (i + 1) (at + sizeof_dump_chunk_buffer + size) bos;
        Some ([(at, sizeof_dump_chunk_buffer), (at + sizeof_dump_chunk_buffer, size)] @ ws, ok) }) }"

text \<open>
  The result: whether the dump was saved, the size asked of \<open>kvmalloc\<close>, the writes and the head.
\<close>

definition lima_sched_build_error_task_list ::
  "dump_env \<Rightarrow> u32 \<Rightarrow> u32 \<Rightarrow> u32 \<Rightarrow> nat \<Rightarrow> lima_bo list \<Rightarrow> lima_dump_head \<Rightarrow>
   (bool \<times> u32 \<times> (nat \<times> nat) list \<times> lima_dump_head) option" where
  "lima_sched_build_error_task_list env max_error_tasks frame_size pname_len v bos head =
     (let size = dump_size frame_size pname_len bos;
          task_size = size + of_nat sizeof_dump_task;
          mem_size = task_size + of_nat sizeof_error_task in
      if dh_num_tasks head \<ge> max_error_tasks then Some (False, 0, [], head)
      else if \<not> du_kvmalloc env then Some (False, mem_size, [], head)
      else
        let et = (0, sizeof_error_task);
            dt = sizeof_error_task;
            frame = dt + sizeof_dump_task;
            name = frame + sizeof_dump_chunk + unat frame_size;
            pid = name + sizeof_dump_chunk + unat pname_len;
            buf = pid + sizeof_dump_chunk_pid;
            ws0 = [et, (dt, sizeof_dump_task),
                   (frame, sizeof_dump_chunk), (frame + sizeof_dump_chunk, unat frame_size),
                   (name, sizeof_dump_chunk), (name + sizeof_dump_chunk, unat pname_len),
                   (pid, sizeof_dump_chunk_pid)]
        in do {
          (ws, ok) \<leftarrow> dump_buffers env v 0 buf bos;
          Some (ok, mem_size, ws0 @ ws,
            (if ok then head\<lparr>dh_size := dh_size head + task_size, dh_num_tasks := dh_num_tasks head + 1\<rparr> else head)) })"

section \<open>How much is written\<close>

definition dump_bytes :: "lima_bo list \<Rightarrow> nat" where
  "dump_bytes bos = sum_list (map (\<lambda>bo. unat (dumped_size bo)) bos)"

lemma dump_bytes_Cons [simp]: "dump_bytes (bo # bos) = unat (dumped_size bo) + dump_bytes bos"
  by (simp add: dump_bytes_def)

lemma dump_bytes_Nil [simp]: "dump_bytes [] = 0"
  by (simp add: dump_bytes_def)

lemma fold_dump_size:
  "unat (s :: u32) + 8 * List.length bos + dump_bytes bos < 4294967296 \<Longrightarrow>
   unat (fold (\<lambda>bo s. s + of_nat sizeof_dump_chunk + ucast (dumped_size bo)) bos s) =
   unat s + 8 * List.length bos + dump_bytes bos"
proof (induction bos arbitrary: s)
  case (Cons bo bos)
  have "unat (ucast (dumped_size bo) :: u32) = unat (dumped_size bo)"
    using Cons.prems by (simp add: unat_ucast_u64_u32)
  moreover have "unat (s + 8) = unat s + 8"
    using Cons.prems unat_add_no_wrap32 [of s 8] by simp
  ultimately have u: "unat (s + 8 + ucast (dumped_size bo)) = unat s + 8 + unat (dumped_size bo)"
    using Cons.prems unat_add_no_wrap32 [of "s + 8" "ucast (dumped_size bo)"] by simp
  show ?case using Cons.IH [of "s + 8 + ucast (dumped_size bo)"] Cons.prems u
    by (simp add: dump_sizes)
qed simp

lemma unat_dump_size:
  assumes "24 + unat frame_size + unat pname_len + 8 * List.length bos + dump_bytes bos < 4294967296"
  shows "unat (dump_size frame_size pname_len bos) =
    24 + unat frame_size + unat pname_len + 8 * List.length bos + dump_bytes bos"
proof -
  have 1: "unat (8 + frame_size) = 8 + unat frame_size"
    using assms unat_add_no_wrap32 [of 8 frame_size] by simp
  have 2: "unat (8 + pname_len) = 8 + unat pname_len"
    using assms unat_add_no_wrap32 [of 8 pname_len] by simp
  have 3: "unat ((8 + frame_size) + (8 + pname_len)) = 16 + unat frame_size + unat pname_len"
    using assms 1 2 unat_add_no_wrap32 [of "8 + frame_size" "8 + pname_len"] by simp
  have 4: "unat ((8 + frame_size) + (8 + pname_len) + 8) = 24 + unat frame_size + unat pname_len"
    using assms 3 unat_add_no_wrap32 [of "(8 + frame_size) + (8 + pname_len)" 8] by simp
  show ?thesis
    unfolding dump_size_def Let_def
    using fold_dump_size [of "(8 + frame_size) + (8 + pname_len) + 8" bos] assms 4
    by (simp add: sizeof_dump_chunk_def del: add_uminus_conv_diff)
qed

text \<open>The end of the last write of the loop over the objects.\<close>

lemma dump_buffers_end:
  assumes "dump_buffers env v i at bos = Some (ws, True)" and "dump_bytes bos < 4294967296"
  shows "(if bos = [] then ws = [] else (\<exists>w \<in> set ws. fst w + snd w = at + 16 * List.length bos + dump_bytes bos)) \<and>
    (\<forall>w \<in> set ws. fst w + snd w \<le> at + 16 * List.length bos + dump_bytes bos)"
  using assms
proof (induction bos arbitrary: i at ws)
  case (Cons bo bos)
  let ?n = "unat (dumped_size bo)"
  have n: "unat (ucast (dumped_size bo) :: u32) = ?n" using Cons.prems(2) by (simp add: unat_ucast_u64_u32)
  from Cons.prems(1) obtain ws1 where d: "dump_buffers env v (i + 1) (at + 16 + ?n) bos = Some (ws1, True)"
    and ws: "ws = [(at, 16), (at + 16, ?n)] @ ws1"
    by (auto simp: bind_eq_Some_conv n dump_sizes Let_def split: if_splits)
  have "dump_bytes bos < 4294967296" using Cons.prems(2) by simp
  note IH = Cons.IH [OF d this]
  show ?case
  proof (cases "bos = []")
    case True
    then show ?thesis using IH by (simp add: ws)
  next
    case False
    then obtain w where w: "w \<in> set ws1" "fst w + snd w = at + 16 + ?n + 16 * List.length bos + dump_bytes bos"
      using IH by auto
    have "w \<in> set ws" "fst w + snd w = at + 16 * List.length (bo # bos) + dump_bytes (bo # bos)"
      using w by (simp_all add: ws)
    moreover have "\<forall>w \<in> set ws. fst w + snd w \<le> at + 16 * List.length (bo # bos) + dump_bytes (bo # bos)"
      using IH by (auto simp: ws)
    ultimately show ?thesis by auto
  qed
qed simp

text \<open>
  C26: the buffer of an error dump is too small. \<open>mem_size\<close> counts the plain chunk header for the
  process id and for every buffer object, while the structures written there are longer: a dump that
  is saved ends 4 bytes plus 8 bytes per object behind the end of the buffer (in the absence of overflow
  of the \<open>u32\<close> sum), and never further.
\<close>

theorem lima_dump_overruns_buffer:
  assumes "lima_sched_build_error_task_list env max_error_tasks frame_size pname_len v bos head =
      Some (True, mem_size, ws, head')"
    and "68 + unat frame_size + unat pname_len + 8 * List.length bos + dump_bytes bos < 4294967296"
  shows "(\<exists>w \<in> set ws. fst w + snd w = unat mem_size + 4 + 8 * List.length bos) \<and>
    (\<forall>w \<in> set ws. fst w + snd w \<le> unat mem_size + 4 + 8 * List.length bos)"
proof -
  let ?size = "dump_size frame_size pname_len bos"
  let ?pid = "32 + 12 + 8 + unat frame_size + 8 + unat pname_len"
  from assms(1) obtain ws1 where d: "dump_buffers env v 0 (?pid + 12) bos = Some (ws1, True)"
    and m: "mem_size = ?size + 12 + 32"
    and ws: "ws = [(0, 32), (32, 12), (44, 8), (52, unat frame_size), (52 + unat frame_size, 8),
       (60 + unat frame_size, unat pname_len), (?pid, 12)] @ ws1"
    by (auto simp: lima_sched_build_error_task_list_def Let_def bind_eq_Some_conv dump_sizes split: if_splits)
  have s: "unat ?size = 24 + unat frame_size + unat pname_len + 8 * List.length bos + dump_bytes bos"
    by (rule unat_dump_size) (use assms(2) in simp)
  have "unat (?size + 12) = unat ?size + 12" using s assms(2) unat_add_no_wrap32 [of ?size 12] by simp
  then have "unat mem_size = unat ?size + 12 + 32"
    unfolding m using s assms(2) unat_add_no_wrap32 [of "?size + 12" 32] by simp
  then have e: "unat mem_size + 4 + 8 * List.length bos =
      ?pid + 12 + 16 * List.length bos + dump_bytes bos" using s by simp
  have b: "dump_bytes bos < 4294967296" using assms(2) by simp
  show ?thesis
    unfolding e using dump_buffers_end [OF d b] by (cases "bos = []") (auto simp: ws)
qed

definition demo_dump_env :: dump_env where
  "demo_dump_env = \<lparr>du_kvmalloc = True, du_vmap = (\<lambda>_. True), du_gem_vmap = (\<lambda>_. True)\<rparr>"

theorem lima_dump_overruns_buffer_witness:
  "\<exists>ws head'. lima_sched_build_error_task_list demo_dump_env 4 24 20 3
     [demo_bo\<lparr>bo_va := [new_va 3 0x10000 4096]\<rparr>] \<lparr>dh_size = 16, dh_num_tasks = 0\<rparr> = Some (True, 4216, ws, head') \<and>
     (\<exists>w \<in> set ws. fst w + snd w = 4228)"
proof -
  let ?bo = "demo_bo\<lparr>bo_va := [new_va 3 0x10000 4096]\<rparr>"
  have s: "dumped_size ?bo = 4096" by (simp add: dumped_size_def demo_bo_def lima_bo_size_def shmem_new_def)
  have f: "lima_vm_get_va 3 ?bo = Some 0x10000" "bo_heap_size ?bo = 0"
    by (simp_all add: lima_vm_get_va_def new_va_def demo_bo_def)
  obtain ws head' where d: "lima_sched_build_error_task_list demo_dump_env 4 24 20 3 [?bo]
      \<lparr>dh_size = 16, dh_num_tasks = 0\<rparr> = Some (True, 4216, ws, head')"
    by (simp add: lima_sched_build_error_task_list_def demo_dump_env_def Let_def dump_size_def s dump_sizes f)
  show ?thesis using lima_dump_overruns_buffer [OF d] d by (simp add: s)
qed

end
