(* ===== verification/Platform_Logic.thy ===== *)
theory Platform_Logic
  imports Lima_Prelude
begin

text \<open>
  The arithmetic of the platform bridge (\<open>linux/platform_logic.h\<close>): the scan of a match table, the tokens
  that stand for interrupt numbers, the bounds of a resource index.
\<close>

section \<open>Match tables\<close>

record of_device_id =
  oid_name :: string
  oid_type :: string
  oid_compatible :: string
  oid_data :: nat   \<comment> \<open>a pointer, 0 is null\<close>

text \<open>A table ends at its first entry with an empty \<open>compatible\<close>; \<open>None\<close> for a null table or a null predicate.\<close>

fun of_match_loop :: "(string \<Rightarrow> bool) \<Rightarrow> of_device_id list \<Rightarrow> of_device_id option" where
  "of_match_loop ok [] = None"
| "of_match_loop ok (e # tbl) =
     (if oid_compatible e = '''' then None
      else if ok (oid_compatible e) then Some e
      else of_match_loop ok tbl)"

definition lkpi_platform_of_match_scan ::
  "of_device_id list option \<Rightarrow> (string \<Rightarrow> bool) option \<Rightarrow> of_device_id option" where
  "lkpi_platform_of_match_scan tbl is_compatible =
     (case (tbl, is_compatible) of (Some t, Some f) \<Rightarrow> of_match_loop f t | _ \<Rightarrow> None)"

text \<open>The entry chosen is the first one that fits among those before the terminator.\<close>

lemma of_match_loop_find:
  "of_match_loop f t = find (\<lambda>e. f (oid_compatible e)) (takeWhile (\<lambda>e. oid_compatible e \<noteq> '''') t)"
  by (induction t) auto

section \<open>Interrupt tokens\<close>

definition LKPI_PLATFORM_MAX_MEM :: nat where "LKPI_PLATFORM_MAX_MEM = 8"
definition LKPI_PLATFORM_MAX_IRQ :: nat where "LKPI_PLATFORM_MAX_IRQ = 32"

definition LKPI_PLATFORM_IRQ_TAG :: u32 where "LKPI_PLATFORM_IRQ_TAG = 0x71d00000"
definition LKPI_PLATFORM_IRQ_TAG_MASK :: u32 where "LKPI_PLATFORM_IRQ_TAG_MASK = 0xfff00000"

definition LKPI_PLATFORM_IRQ_TOKEN :: "u32 \<Rightarrow> u32 \<Rightarrow> u32" where
  "LKPI_PLATFORM_IRQ_TOKEN unit idx = LKPI_PLATFORM_IRQ_TAG OR push_bit 8 (unit AND 0xfff) OR (idx AND 0xff)"

definition LKPI_PLATFORM_IRQ_IS_TOKEN :: "u32 \<Rightarrow> bool" where
  "LKPI_PLATFORM_IRQ_IS_TOKEN irq \<longleftrightarrow> irq AND LKPI_PLATFORM_IRQ_TAG_MASK = LKPI_PLATFORM_IRQ_TAG"

definition LKPI_PLATFORM_IRQ_INDEX :: "u32 \<Rightarrow> u32" where
  "LKPI_PLATFORM_IRQ_INDEX irq = irq AND 0xff"

definition LKPI_PLATFORM_IRQ_UNIT :: "u32 \<Rightarrow> u32" where
  "LKPI_PLATFORM_IRQ_UNIT irq = drop_bit 8 irq AND 0xfff"

definition lkpi_platform_res_index_ok :: "int \<Rightarrow> nat \<Rightarrow> bool" where
  "lkpi_platform_res_index_ok navail idx = (if navail \<le> 0 then False else int idx < navail)"

lemma res_index_ok [simp]: "lkpi_platform_res_index_ok (int n) i \<longleftrightarrow> i < n"
  by (auto simp: lkpi_platform_res_index_ok_def)

text \<open>The three fields of a token do not touch, so each is read back from the bits it was written to.\<close>

lemma token_masks: "(0xff :: u32) = mask 8" "(0xfff :: u32) = mask 12"
  by (simp_all add: mask_eq_exp_minus_1)

lemma tag_low: "n < 20 \<Longrightarrow> \<not> bit LKPI_PLATFORM_IRQ_TAG n"
proof -
  assume "n < 20"
  moreover have "\<forall>k \<in> {..<20}. \<not> bit LKPI_PLATFORM_IRQ_TAG k"
    by (simp add: LKPI_PLATFORM_IRQ_TAG_def lessThan_nat_numeral lessThan_Suc)
  ultimately show ?thesis by blast
qed

lemma token_bit:
  "bit (LKPI_PLATFORM_IRQ_TOKEN u i) n \<longleftrightarrow> n < 32 \<and>
     (if n < 8 then bit i n else if n < 20 then bit u (n - 8) else bit LKPI_PLATFORM_IRQ_TAG n)"
  unfolding LKPI_PLATFORM_IRQ_TOKEN_def token_masks
  by (auto simp: bit_simps tag_low dest: bit_imp_le_length)

lemma token_fields:
  "LKPI_PLATFORM_IRQ_IS_TOKEN (LKPI_PLATFORM_IRQ_TOKEN u i)"
  "LKPI_PLATFORM_IRQ_INDEX (LKPI_PLATFORM_IRQ_TOKEN u i) = i AND 0xff"
  "LKPI_PLATFORM_IRQ_UNIT (LKPI_PLATFORM_IRQ_TOKEN u i) = u AND 0xfff"
proof -
  have m: "LKPI_PLATFORM_IRQ_TAG_MASK = push_bit 20 (mask 12)"
    by (simp add: LKPI_PLATFORM_IRQ_TAG_MASK_def mask_eq_exp_minus_1 push_bit_eq_mult)
  show "LKPI_PLATFORM_IRQ_IS_TOKEN (LKPI_PLATFORM_IRQ_TOKEN u i)"
    unfolding LKPI_PLATFORM_IRQ_IS_TOKEN_def m by (intro bit_word_eqI) (auto simp: bit_simps token_bit tag_low)
  show "LKPI_PLATFORM_IRQ_INDEX (LKPI_PLATFORM_IRQ_TOKEN u i) = i AND 0xff"
    unfolding LKPI_PLATFORM_IRQ_INDEX_def token_masks by (intro bit_word_eqI) (auto simp: bit_simps token_bit)
  show "LKPI_PLATFORM_IRQ_UNIT (LKPI_PLATFORM_IRQ_TOKEN u i) = u AND 0xfff"
    unfolding LKPI_PLATFORM_IRQ_UNIT_def token_masks by (intro bit_word_eqI) (auto simp: bit_simps token_bit)
qed

lemma token_positive: "0 < sint (LKPI_PLATFORM_IRQ_TOKEN u i)"
proof -
  let ?t = "LKPI_PLATFORM_IRQ_TOKEN u i"
  have "bit ?t 30" "\<not> bit ?t 31" by (simp_all add: token_bit LKPI_PLATFORM_IRQ_TAG_def)
  then have "?t \<noteq> 0" "\<not> sint ?t < 0" using bit_last_iff [of ?t] by auto
  moreover from this have "sint ?t \<noteq> 0" using signed_word_eqI [of ?t 0] by auto
  ultimately show ?thesis by linarith
qed

lemma small_and_mask: "unat (x :: u32) < 2 ^ n \<Longrightarrow> x AND mask n = x"
  by (rule unsigned_word_eqI [where 'a = nat]) (simp add: unat_and_mask_word)

lemma token_unat: "n < 256 \<Longrightarrow> LKPI_PLATFORM_IRQ_INDEX (LKPI_PLATFORM_IRQ_TOKEN u (of_nat n)) = of_nat n"
proof -
  assume "n < 256"
  then have "unat (of_nat n :: u32) < 2 ^ 8" by (simp add: unat_of_nat_u32)
  then show ?thesis unfolding token_fields token_masks by (rule small_and_mask)
qed

end
