(* ===== verification/Platform_Device.thy ===== *)
theory Platform_Device
  imports Platform_Logic "HOL-Library.Multiset"
begin

text \<open>
  The bridge between newbus and the platform devices of Linux (\<open>linux/platform_device.c\<close> and \<open>.h\<close>,
  \<open>linux/interrupt.h\<close>): registry, resources, interrupts, DMA tags, attach and detach. A device is
  its number, and its \<open>softc\<close> an entry of \<open>pw_dev\<close>. What newbus, busdma and the device tree answer is
  \<open>bus_env\<close>; a driver is a record of callbacks. Locks are left out: each operation is one step.
\<close>

section \<open>State\<close>

text \<open>Entries of a device's devres list, the latest first: what is released with the device.\<close>

datatype devres =
    DR_irqe nat     \<comment> \<open>\<open>lkpi_platform_devm_irq_release\<close>\<close>
  | DR_clk nat      \<comment> \<open>\<open>lima_clk_release_action\<close>\<close>
  | DR_reset nat    \<comment> \<open>\<open>lima_reset_release_action\<close>\<close>
  | DR_kzalloc nat  \<comment> \<open>memory of \<open>devm_kzalloc\<close>\<close>

text \<open>The mirrored \<open>linux_dma_priv\<close>: which tags are read at the mirrored offsets, whether the lock is initialised.\<close>

record lkpi_dma_priv_mirror =
  dp_dmat :: bool
  dp_dmat_coherent :: bool
  dp_lock :: bool

text \<open>\<open>pd_link\<close>: the list head was initialised; \<open>pd_dev_irq\<close> is \<open>None\<close> for \<open>LINUX_IRQ_INVALID\<close>.\<close>

record platform_device =
  pd_magic :: u32
  pd_id :: u32
  pd_node :: u32
  pd_of_id :: "of_device_id option"
  pd_bsddev :: bool
  pd_nmem :: nat
  pd_nirq :: nat
  pd_mem :: "nat \<Rightarrow> nat option"
  pd_irq :: "nat \<Rightarrow> nat option"
  pd_irq_tag :: "nat \<Rightarrow> nat option"
  pd_irq_ent :: "nat \<Rightarrow> nat option"
  pd_link :: bool
  pd_dma_priv :: "lkpi_dma_priv_mirror option"
  pd_dev_irq :: "u32 option"
  pd_kref :: nat
  pd_devres :: "devres list"

record lkpi_platform_irqe =
  ie_pdev :: nat
  ie_handler :: nat
  ie_thread_handler :: "nat option"
  ie_arg :: nat
  ie_irq :: u32
  ie_idx :: nat
  ie_devres :: bool

record reset_control =
  rst_is_array :: bool
  rst_handle :: nat

text \<open>
  \<open>pw_irqe\<close> and \<open>pw_reset\<close> are memory, \<open>None\<close> is freed; \<open>pw_next\<close> is the next fresh address. \<open>pw_handlers\<close>: the
  descriptors installed on the bus (the cookie of \<open>bus_setup_intr\<close> is its descriptor); \<open>pw_res\<close>: the bus
  resources held, by device; \<open>pw_tags\<close> and \<open>pw_privs\<close>: live busdma tags and private blocks; \<open>pw_clk\<close> and
  \<open>pw_rst\<close>: handles held on clocks and reset lines; \<open>pw_clk_on\<close>: enables minus disables;
  \<open>pw_deasserted\<close>: lines that are not in reset.
\<close>

record platform_world =
  pw_dev :: "nat \<Rightarrow> platform_device"
  pw_list :: "nat list"
  pw_irqe :: "nat \<Rightarrow> lkpi_platform_irqe option"
  pw_reset :: "nat \<Rightarrow> reset_control option"
  pw_next :: nat
  pw_handlers :: "nat set"
  pw_res :: "(nat \<times> nat) multiset"
  pw_tags :: int
  pw_privs :: int
  pw_clk :: "nat \<Rightarrow> int"
  pw_rst :: "nat \<Rightarrow> int"
  pw_clk_on :: "nat \<Rightarrow> int"
  pw_deasserted :: "nat set"

datatype sys_res = SYS_RES_MEMORY | SYS_RES_IRQ | SYS_RES_OTHER int

record bus_env =
  be_status_okay :: bool                        \<comment> \<open>\<open>ofw_bus_status_okay\<close>\<close>
  be_compatible :: "string \<Rightarrow> bool"          \<comment> \<open>\<open>ofw_bus_is_compatible\<close>\<close>
  be_unit :: u32
  be_node :: u32
  be_alloc :: "sys_res \<Rightarrow> nat \<Rightarrow> nat option"  \<comment> \<open>\<open>bus_alloc_resource_any\<close> for a rid\<close>
  be_irq_names :: "string \<Rightarrow> nat option"       \<comment> \<open>\<open>ofw_bus_find_string_index\<close>\<close>
  be_kobject :: rc
  be_dma_tag :: rc                              \<comment> \<open>\<open>linux_dma_tag_init\<close>\<close>
  be_dma_tag_coherent :: rc
  be_layout :: bool                             \<comment> \<open>the mirrored layout is the real one\<close>

definition blank_pdev :: platform_device where
  "blank_pdev = \<lparr>pd_magic = 0, pd_id = 0, pd_node = 0, pd_of_id = None, pd_bsddev = False, pd_nmem = 0, pd_nirq = 0,
     pd_mem = Map.empty, pd_irq = Map.empty, pd_irq_tag = Map.empty, pd_irq_ent = Map.empty, pd_link = False,
     pd_dma_priv = None, pd_dev_irq = None, pd_kref = 0, pd_devres = []\<rparr>"

definition upd_dev :: "nat \<Rightarrow> (platform_device \<Rightarrow> platform_device) \<Rightarrow> platform_world \<Rightarrow> platform_world" where
  "upd_dev d f w = w\<lparr>pw_dev := (pw_dev w)(d := f (pw_dev w d))\<rparr>"

definition LKPI_PLATFORM_DEVICE_MAGIC :: u32 where "LKPI_PLATFORM_DEVICE_MAGIC = 0x706c6466"

definition to_platform_device :: "platform_world \<Rightarrow> nat option \<Rightarrow> nat option" where
  "to_platform_device w dev =
     (case dev of None \<Rightarrow> None
      | Some d \<Rightarrow> if pd_magic (pw_dev w d) \<noteq> LKPI_PLATFORM_DEVICE_MAGIC then None else Some d)"

definition dev_is_platform :: "platform_world \<Rightarrow> nat option \<Rightarrow> bool" where
  "dev_is_platform w dev \<longleftrightarrow> to_platform_device w dev \<noteq> None"

definition of_device_get_match_data :: "platform_world \<Rightarrow> nat option \<Rightarrow> nat" where
  "of_device_get_match_data w dev =
     (case to_platform_device w dev of None \<Rightarrow> 0
      | Some d \<Rightarrow> (case pd_of_id (pw_dev w d) of None \<Rightarrow> 0 | Some e \<Rightarrow> oid_data e))"

definition dev_of_node :: "platform_world \<Rightarrow> nat option \<Rightarrow> u32" where
  "dev_of_node w dev = (case to_platform_device w dev of None \<Rightarrow> 0 | Some d \<Rightarrow> pd_node (pw_dev w d))"

section \<open>The registry\<close>

definition lkpi_platform_publish :: "nat \<Rightarrow> platform_world \<Rightarrow> platform_world" where
  "lkpi_platform_publish d w = w\<lparr>pw_list := d # pw_list w\<rparr>"

definition lkpi_platform_unpublish :: "nat \<Rightarrow> platform_world \<Rightarrow> platform_world" where
  "lkpi_platform_unpublish d w =
     (if pd_link (pw_dev w d) then w\<lparr>pw_list := removeAll d (pw_list w)\<rparr> else w)"

definition lkpi_platform_irq_lookup :: "u32 \<Rightarrow> platform_world \<Rightarrow> (nat \<times> nat) option" where
  "lkpi_platform_irq_lookup irq w =
     (if \<not> LKPI_PLATFORM_IRQ_IS_TOKEN irq then None
      else let idx = LKPI_PLATFORM_IRQ_INDEX irq in
        map_option (\<lambda>d. (d, unat idx)) (find (\<lambda>d. LKPI_PLATFORM_IRQ_TOKEN (pd_id (pw_dev w d)) idx = irq) (pw_list w)))"

section \<open>DMA tags\<close>

definition lkpi_platform_dma_init :: "bus_env \<Rightarrow> nat \<Rightarrow> platform_world \<Rightarrow> rc \<times> platform_world" where
  "lkpi_platform_dma_init env d w =
     (let priv = \<lambda>p. pd_dma_priv_update (\<lambda>_. p);
          w0 = (upd_dev d (priv (Some \<lparr>dp_dmat = False, dp_dmat_coherent = False, dp_lock = False\<rparr>)) w)\<lparr>pw_privs := pw_privs w + 1\<rparr>;
          fail = \<lambda>e w. (E e, (upd_dev d (priv None) w)\<lparr>pw_privs := pw_privs w - 1\<rparr>) in
      case be_dma_tag env of E e \<Rightarrow> fail e w0 | OK \<Rightarrow>
      let w1 = w0\<lparr>pw_tags := pw_tags w0 + 1\<rparr> in
      case be_dma_tag_coherent env of E e \<Rightarrow> fail e w1 | OK \<Rightarrow>
      let w2 = w1\<lparr>pw_tags := pw_tags w1 + 1\<rparr> in
      if \<not> be_layout env then fail ENXIO w2
      else (OK, upd_dev d (priv (Some \<lparr>dp_dmat = True, dp_dmat_coherent = True, dp_lock = True\<rparr>)) w2))"

definition lkpi_platform_dma_fini :: "nat \<Rightarrow> platform_world \<Rightarrow> platform_world" where
  "lkpi_platform_dma_fini d w =
     (case pd_dma_priv (pw_dev w d) of
        None \<Rightarrow> w
      | Some p \<Rightarrow> (upd_dev d (\<lambda>v. v\<lparr>pd_dma_priv := None\<rparr>) w)\<lparr>
          pw_tags := pw_tags w - of_bool (dp_dmat p) - of_bool (dp_dmat_coherent p), pw_privs := pw_privs w - 1\<rparr>)"

section \<open>Matching and resources\<close>

definition lkpi_platform_of_match :: "bus_env \<Rightarrow> of_device_id list option \<Rightarrow> of_device_id option" where
  "lkpi_platform_of_match env tbl = lkpi_platform_of_match_scan tbl (Some (be_compatible env))"

definition lkpi_platform_get_resource :: "nat option \<Rightarrow> sys_res \<Rightarrow> nat \<Rightarrow> platform_world \<Rightarrow> nat option" where
  "lkpi_platform_get_resource pdev type num w =
     (case pdev of None \<Rightarrow> None | Some d \<Rightarrow>
      let v = pw_dev w d in
      (case type of
         SYS_RES_MEMORY \<Rightarrow> if \<not> lkpi_platform_res_index_ok (int (pd_nmem v)) num then None else pd_mem v num
       | SYS_RES_IRQ \<Rightarrow> if \<not> lkpi_platform_res_index_ok (int (pd_nirq v)) num then None else pd_irq v num
       | SYS_RES_OTHER _ \<Rightarrow> None))"

definition lkpi_platform_get_irq :: "nat option \<Rightarrow> nat \<Rightarrow> platform_world \<Rightarrow> errno + u32" where
  "lkpi_platform_get_irq pdev num w =
     (case pdev of None \<Rightarrow> Inl ENXIO | Some d \<Rightarrow>
      let v = pw_dev w d in
      if \<not> lkpi_platform_res_index_ok (int (pd_nirq v)) num \<or> pd_irq v num = None then Inl ENXIO
      else Inr (LKPI_PLATFORM_IRQ_TOKEN (pd_id v) (of_nat num)))"

definition lkpi_platform_get_irq_byname :: "bus_env \<Rightarrow> nat option \<Rightarrow> string option \<Rightarrow> platform_world \<Rightarrow> errno + u32" where
  "lkpi_platform_get_irq_byname env pdev name w =
     (case (pdev, name) of
        (Some d, Some s) \<Rightarrow>
          (if pd_node (pw_dev w d) = 0 then Inl ENXIO
           else (case be_irq_names env s of
              None \<Rightarrow> Inl ENXIO
            | Some idx \<Rightarrow> lkpi_platform_get_irq (Some d) idx w))
      | _ \<Rightarrow> Inl ENXIO)"

text \<open>The cookie of a mapped window is its resource.\<close>

definition lkpi_platform_ioremap_resource :: "nat option \<Rightarrow> nat \<Rightarrow> platform_world \<Rightarrow> errno + nat" where
  "lkpi_platform_ioremap_resource pdev i w =
     (case pdev of None \<Rightarrow> Inl ENXIO | Some d \<Rightarrow>
      let v = pw_dev w d in
      if i \<ge> pd_nmem v then Inl ENXIO
      else (case pd_mem v i of None \<Rightarrow> Inl ENXIO | Some r \<Rightarrow> Inr r))"

section \<open>Interrupts\<close>

datatype lkpi_irqreturn = IRQ_NONE_T | IRQ_HANDLED_T | IRQ_WAKE_THREAD

text \<open>The calls one interrupt makes: handler, number and argument. \<open>task\<close>: a task context could be set up.\<close>

definition lkpi_platform_irq_trampoline ::
  "bool \<Rightarrow> (nat \<Rightarrow> lkpi_irqreturn) \<Rightarrow> lkpi_platform_irqe \<Rightarrow> (nat \<times> u32 \<times> nat) list" where
  "lkpi_platform_irq_trampoline task ret ie =
     (if \<not> task then []
      else (ie_handler ie, ie_irq ie, ie_arg ie) #
        (case ie_thread_handler ie of
           Some t \<Rightarrow> if ret (ie_handler ie) = IRQ_WAKE_THREAD then [(t, ie_irq ie, ie_arg ie)] else []
         | None \<Rightarrow> []))"

definition lkpi_platform_irq_teardown :: "nat \<Rightarrow> platform_world \<Rightarrow> platform_world option" where
  "lkpi_platform_irq_teardown e w = do {
     ie \<leftarrow> pw_irqe w e;
     let d = ie_pdev ie;
     let idx = ie_idx ie;
     let w1 = (case pd_irq_tag (pw_dev w d) idx of
        None \<Rightarrow> w
      | Some t \<Rightarrow> upd_dev d (\<lambda>v. v\<lparr>pd_irq_tag := (pd_irq_tag v)(idx := None)\<rparr>)
          (w\<lparr>pw_handlers := pw_handlers w - {t}\<rparr>));
     Some (upd_dev d (\<lambda>v. v\<lparr>pd_irq_ent := (pd_irq_ent v)(idx := None)\<rparr>) w1) }"

text \<open>What the allocation and \<open>bus_setup_intr\<close> answer; the flags of the request are not used.\<close>

record request_env =
  re_alloc :: bool
  re_setup :: rc

definition lkpi_platform_request_irq ::
  "request_env \<Rightarrow> nat option \<Rightarrow> u32 \<Rightarrow> nat option \<Rightarrow> nat option \<Rightarrow> nat \<Rightarrow> platform_world \<Rightarrow> rc \<times> platform_world" where
  "lkpi_platform_request_irq env xdev irq handler thread_handler arg w =
     (case handler of None \<Rightarrow> (E EINVAL, w) | Some h \<Rightarrow>
      if \<not> LKPI_PLATFORM_IRQ_IS_TOKEN irq then (E ENXIO, w)
      else case (case to_platform_device w xdev of
          Some d \<Rightarrow> Some d | None \<Rightarrow> map_option fst (lkpi_platform_irq_lookup irq w)) of
        None \<Rightarrow> (E ENXIO, w)
      | Some d \<Rightarrow>
      let v = pw_dev w d; idx = unat (LKPI_PLATFORM_IRQ_INDEX irq) in
      if idx \<ge> pd_nirq v \<or> pd_irq v idx = None then (E ENXIO, w)
      else if pd_irq_tag v idx \<noteq> None then (E EBUSY, w)
      else if \<not> re_alloc env then (E ENOMEM, w)
      else
        let e = pw_next w;
            ie = \<lparr>ie_pdev = d, ie_handler = h, ie_thread_handler = thread_handler, ie_arg = arg, ie_irq = irq, ie_idx = idx,
              ie_devres = (xdev \<noteq> None)\<rparr>;
            w1 = w\<lparr>pw_irqe := (pw_irqe w)(e \<mapsto> ie), pw_next := e + 1\<rparr> in
        case re_setup env of
          E err \<Rightarrow> (E err, w1\<lparr>pw_irqe := (pw_irqe w1)(e := None)\<rparr>)
        | OK \<Rightarrow>
            let w2 = upd_dev d (\<lambda>v. v\<lparr>pd_irq_tag := (pd_irq_tag v)(idx \<mapsto> e), pd_irq_ent := (pd_irq_ent v)(idx \<mapsto> e)\<rparr>)
                  (w1\<lparr>pw_handlers := insert e (pw_handlers w1)\<rparr>);
                w3 = (case xdev of None \<Rightarrow> w2 | Some x \<Rightarrow> upd_dev x (\<lambda>v. v\<lparr>pd_devres := DR_irqe e # pd_devres v\<rparr>) w2)
            in (OK, upd_dev d (\<lambda>v. v\<lparr>pd_dev_irq := Some irq\<rparr>) w3))"

definition lkpi_platform_free_irq :: "nat option \<Rightarrow> u32 \<Rightarrow> platform_world \<Rightarrow> platform_world option" where
  "lkpi_platform_free_irq xdev irq w =
     (if \<not> LKPI_PLATFORM_IRQ_IS_TOKEN irq then Some w
      else case (case to_platform_device w xdev of
          Some d \<Rightarrow> Some d | None \<Rightarrow> map_option fst (lkpi_platform_irq_lookup irq w)) of
        None \<Rightarrow> Some w
      | Some d \<Rightarrow>
      let v = pw_dev w d; idx = unat (LKPI_PLATFORM_IRQ_INDEX irq) in
      if idx \<ge> pd_nirq v then Some w
      else (case pd_irq_ent v idx of
          None \<Rightarrow> Some w
        | Some e \<Rightarrow> do {
            ie \<leftarrow> pw_irqe w e;
            w1 \<leftarrow> lkpi_platform_irq_teardown e w;
            Some (if ie_devres ie then w1 else w1\<lparr>pw_irqe := (pw_irqe w1)(e := None)\<rparr>) }))"

text \<open>The routing of \<open>linux/interrupt.h\<close>: everything else goes to the functions of linuxkpi, \<open>other\<close>.\<close>

definition lkpi_platform_owns_irq :: "platform_world \<Rightarrow> nat option \<Rightarrow> u32 \<Rightarrow> bool" where
  "lkpi_platform_owns_irq w dev irq =
     (if LKPI_PLATFORM_IRQ_IS_TOKEN irq then True else dev \<noteq> None \<and> dev_is_platform w dev)"

definition lkpi_route_request_irq ::
  "(nat option \<Rightarrow> u32 \<Rightarrow> platform_world \<Rightarrow> rc \<times> platform_world) \<Rightarrow> request_env \<Rightarrow> nat option \<Rightarrow> u32 \<Rightarrow> nat option \<Rightarrow> nat option \<Rightarrow>
   nat \<Rightarrow> platform_world \<Rightarrow> rc \<times> platform_world" where
  "lkpi_route_request_irq other env dev irq handler thread_handler arg w =
     (if lkpi_platform_owns_irq w dev irq then lkpi_platform_request_irq env dev irq handler thread_handler arg w
      else other dev irq w)"

definition lkpi_route_free_irq ::
  "(nat option \<Rightarrow> u32 \<Rightarrow> platform_world \<Rightarrow> platform_world option) \<Rightarrow> nat option \<Rightarrow> u32 \<Rightarrow> platform_world \<Rightarrow>
   platform_world option" where
  "lkpi_route_free_irq other dev irq w =
     (if lkpi_platform_owns_irq w dev irq then lkpi_platform_free_irq dev irq w else other dev irq w)"

section \<open>Release of a device\<close>

definition hwreset_release :: "nat \<Rightarrow> platform_world \<Rightarrow> platform_world" where
  "hwreset_release h w = w\<lparr>pw_rst := (pw_rst w)(h := pw_rst w h - 1)\<rparr>"

definition clk_release :: "nat \<Rightarrow> platform_world \<Rightarrow> platform_world" where
  "clk_release c w = w\<lparr>pw_clk := (pw_clk w)(c := pw_clk w c - 1)\<rparr>"

definition lkpi_platform_devm_irq_release :: "nat \<Rightarrow> platform_world \<Rightarrow> platform_world option" where
  [simp]: "lkpi_platform_devm_irq_release e w = lkpi_platform_irq_teardown e w"

text \<open>The callback of an entry and the release of its block; a callback that follows freed memory is \<open>None\<close>.\<close>

definition release_devres :: "devres \<Rightarrow> platform_world \<Rightarrow> platform_world option" where
  "release_devres r w =
     (case r of
        DR_irqe e \<Rightarrow> do {
          w1 \<leftarrow> lkpi_platform_devm_irq_release e w;
          Some (w1\<lparr>pw_irqe := (pw_irqe w1)(e := None)\<rparr>) }
      | DR_clk c \<Rightarrow> Some (clk_release c w)
      | DR_reset a \<Rightarrow> do { rc \<leftarrow> pw_reset w a; Some (hwreset_release (rst_handle rc) w) }
      | DR_kzalloc a \<Rightarrow> Some (w\<lparr>pw_reset := (pw_reset w)(a := None)\<rparr>))"

text \<open>\<open>lkpi_devres_release_free_list\<close> takes the entries from the head of the list.\<close>

definition lkpi_platform_dev_release :: "nat \<Rightarrow> platform_world \<Rightarrow> platform_world option" where
  "lkpi_platform_dev_release d w =
     map_option (upd_dev d (\<lambda>v. v\<lparr>pd_devres := []\<rparr>)) (each release_devres (pd_devres (pw_dev w d)) w)"

definition put_device :: "nat \<Rightarrow> platform_world \<Rightarrow> platform_world option" where
  "put_device d w =
     (let w1 = upd_dev d (\<lambda>v. v\<lparr>pd_kref := pd_kref v - 1\<rparr>) w in
      if pd_kref (pw_dev w d) = 1 then lkpi_platform_dev_release d w1 else Some w1)"

section \<open>Attach and detach\<close>

record platform_driver =
  dr_probe :: "(nat \<Rightarrow> platform_world \<Rightarrow> (rc \<times> platform_world) option) option"
  dr_remove :: "(nat \<Rightarrow> platform_world \<Rightarrow> platform_world option) option"
  dr_suspend :: "(nat \<Rightarrow> platform_world \<Rightarrow> (rc \<times> platform_world) option) option"
  dr_resume :: "(nat \<Rightarrow> platform_world \<Rightarrow> (rc \<times> platform_world) option) option"
  dr_of_match_table :: "of_device_id list option"

text \<open>\<open>OK\<close> is \<open>BUS_PROBE_DEFAULT\<close>.\<close>

definition lkpi_platform_bus_probe :: "bus_env \<Rightarrow> platform_driver \<Rightarrow> rc" where
  "lkpi_platform_bus_probe env drv =
     (if \<not> be_status_okay env then E ENXIO
      else if lkpi_platform_of_match env (dr_of_match_table drv) = None then E ENXIO
      else OK)"

text \<open>
  The two loops of the attach, over memory and over interrupts: resources up to the first gap, \<open>n\<close> attempts
  from index \<open>i\<close>; \<open>store\<close> keeps one in the arrays of the device.
\<close>

fun alloc_loop :: "(nat \<Rightarrow> nat option) \<Rightarrow> (nat \<Rightarrow> nat \<Rightarrow> platform_device \<Rightarrow> platform_device) \<Rightarrow> nat \<Rightarrow> nat \<Rightarrow> nat \<Rightarrow>
    platform_world \<Rightarrow> platform_world" where
  "alloc_loop alloc store d 0 i w = w"
| "alloc_loop alloc store d (Suc n) i w =
     (case alloc i of
        None \<Rightarrow> w
      | Some r \<Rightarrow> alloc_loop alloc store d n (Suc i) ((upd_dev d (store i r) w)\<lparr>pw_res := add_mset (d, r) (pw_res w)\<rparr>))"

definition store_mem :: "nat \<Rightarrow> nat \<Rightarrow> platform_device \<Rightarrow> platform_device" where
  "store_mem i r v = v\<lparr>pd_mem := (pd_mem v)(i \<mapsto> r), pd_nmem := i + 1\<rparr>"

definition store_irq :: "nat \<Rightarrow> nat \<Rightarrow> platform_device \<Rightarrow> platform_device" where
  "store_irq i r v = v\<lparr>pd_irq := (pd_irq v)(i \<mapsto> r), pd_nirq := i + 1\<rparr>"

definition bus_release :: "nat \<Rightarrow> nat option \<Rightarrow> platform_world \<Rightarrow> platform_world option" where
  "bus_release d res w = do { r \<leftarrow> res; Some (w\<lparr>pw_res := pw_res w - {#(d, r)#}\<rparr>) }"

text \<open>The loops at \<open>fail_resources\<close> and at the end of the detach.\<close>

definition release_resources :: "nat \<Rightarrow> platform_world \<Rightarrow> platform_world option" where
  "release_resources d w = do {
     let v = pw_dev w d;
     w1 \<leftarrow> each (\<lambda>i. bus_release d (pd_irq v i)) [0..<pd_nirq v] w;
     w2 \<leftarrow> each (\<lambda>i. bus_release d (pd_mem v i)) [0..<pd_nmem v] w1;
     Some (upd_dev d (\<lambda>v. v\<lparr>pd_magic := 0\<rparr>) w2) }"

definition lkpi_platform_bus_attach ::
  "bus_env \<Rightarrow> nat \<Rightarrow> platform_driver \<Rightarrow> platform_world \<Rightarrow> (rc \<times> platform_world) option" where
  "lkpi_platform_bus_attach env d drv w =
     (case dr_probe drv of None \<Rightarrow> Some (E ENXIO, w) | Some probe \<Rightarrow>
      let w0 = upd_dev d (\<lambda>_. blank_pdev\<lparr>pd_magic := LKPI_PLATFORM_DEVICE_MAGIC, pd_id := be_unit env, pd_node := be_node env,
            pd_of_id := lkpi_platform_of_match env (dr_of_match_table drv), pd_link := True\<rparr>) w;
          w1 = alloc_loop (be_alloc env SYS_RES_MEMORY) store_mem d LKPI_PLATFORM_MAX_MEM 0 w0;
          w2 = alloc_loop (be_alloc env SYS_RES_IRQ) store_irq d LKPI_PLATFORM_MAX_IRQ 0 w1;
          fail = (\<lambda>e w. do { w' \<leftarrow> release_resources d w; Some (E e, w') }) in
      case be_kobject env of E _ \<Rightarrow> fail ENOMEM w2 | OK \<Rightarrow>
      let w3 = upd_dev d (\<lambda>v. v\<lparr>pd_kref := 1, pd_bsddev := True, pd_dev_irq := None, pd_devres := []\<rparr>) w2 in
      case lkpi_platform_dma_init env d w3 of
        (E e, w4) \<Rightarrow> do { w5 \<leftarrow> put_device d (lkpi_platform_dma_fini d w4); fail e w5 }
      | (OK, w4) \<Rightarrow> do {
          (r, w5) \<leftarrow> probe d (lkpi_platform_publish d w4);
          (case r of
             OK \<Rightarrow> Some (OK, w5)
           | E e \<Rightarrow> do {
               w6 \<leftarrow> put_device d (lkpi_platform_dma_fini d (lkpi_platform_unpublish d w5));
               fail e w6 }) })"

text \<open>The loop over the interrupts the driver left.\<close>

definition detach_intr :: "nat \<Rightarrow> nat \<Rightarrow> platform_world \<Rightarrow> platform_world" where
  "detach_intr d i w =
     (case pd_irq_tag (pw_dev w d) i of
        None \<Rightarrow> w
      | Some t \<Rightarrow> upd_dev d (\<lambda>v. v\<lparr>pd_irq_tag := (pd_irq_tag v)(i := None)\<rparr>) (w\<lparr>pw_handlers := pw_handlers w - {t}\<rparr>))"

definition lkpi_platform_bus_detach :: "nat \<Rightarrow> platform_driver \<Rightarrow> platform_world \<Rightarrow> platform_world option" where
  "lkpi_platform_bus_detach d drv w =
     (if pd_magic (pw_dev w d) \<noteq> LKPI_PLATFORM_DEVICE_MAGIC then Some w
      else do {
        w1 \<leftarrow> (case dr_remove drv of None \<Rightarrow> Some w | Some remove \<Rightarrow> remove d w);
        let w2 = lkpi_platform_unpublish d w1;
        let w3 = fold (detach_intr d) [0..<pd_nirq (pw_dev w2 d)] w2;
        w4 \<leftarrow> put_device d (lkpi_platform_dma_fini d w3);
        release_resources d w4 })"

definition lkpi_platform_bus_suspend :: "nat \<Rightarrow> platform_driver \<Rightarrow> platform_world \<Rightarrow> (rc \<times> platform_world) option" where
  "lkpi_platform_bus_suspend d drv w =
     (case dr_suspend drv of
        Some suspend \<Rightarrow> if pd_magic (pw_dev w d) \<noteq> LKPI_PLATFORM_DEVICE_MAGIC then Some (OK, w) else suspend d w
      | None \<Rightarrow> Some (OK, w))"

definition lkpi_platform_bus_resume :: "nat \<Rightarrow> platform_driver \<Rightarrow> platform_world \<Rightarrow> (rc \<times> platform_world) option" where
  "lkpi_platform_bus_resume d drv w =
     (case dr_resume drv of
        Some resume \<Rightarrow> if pd_magic (pw_dev w d) \<noteq> LKPI_PLATFORM_DEVICE_MAGIC then Some (OK, w) else resume d w
      | None \<Rightarrow> Some (OK, w))"

section \<open>Registration of a driver\<close>

text \<open>\<open>rg_added\<close>: how often the driver was added to the device class of its bus.\<close>

record registration =
  rg_registered :: bool
  rg_bus :: "string option"
  rg_added :: int

definition lkpi_platform_driver_register ::
  "platform_driver \<Rightarrow> (string \<Rightarrow> bool) \<Rightarrow> rc \<Rightarrow> string \<Rightarrow> registration \<Rightarrow> rc \<times> registration" where
  "lkpi_platform_driver_register drv devclass add_driver busname g =
     (if dr_probe drv = None then (E EINVAL, g)
      else if dr_of_match_table drv = None then (E EINVAL, g)
      else if \<not> devclass busname then (E ENXIO, g)
      else
        let g1 = g\<lparr>rg_bus := Some busname\<rparr> in
        case add_driver of
          E e \<Rightarrow> (E e, g1)
        | OK \<Rightarrow> (OK, g1\<lparr>rg_added := rg_added g1 + 1, rg_registered := True\<rparr>))"

definition lkpi_platform_driver_unregister :: "(string \<Rightarrow> bool) \<Rightarrow> registration \<Rightarrow> registration" where
  "lkpi_platform_driver_unregister devclass g =
     (if \<not> rg_registered g then g
      else
        let g1 = (case rg_bus g of
              Some b \<Rightarrow> if devclass b then g\<lparr>rg_added := rg_added g - 1\<rparr> else g
            | None \<Rightarrow> g)
        in g1\<lparr>rg_registered := False\<rparr>)"

end
