(* ===== verification/Platform_Shims.thy ===== *)
theory Platform_Shims
  imports Platform_Device
begin

text \<open>
  The consumer shims a driver uses between attach and detach: clocks (\<open>linux/clk.h\<close>), reset lines
  (\<open>linux/reset.h\<close>), the supply (\<open>linux/regulator/consumer.h\<close>) and \<open>drm_timeout_abs_to_jiffies\<close>
  (\<open>drm/drm_utils_freebsd.c\<close>). Handles of clk(9) and hwreset(9) are numbers; \<open>add_action\<close> is what
  \<open>devm_add_action\<close> answers.
\<close>

section \<open>Clocks\<close>

definition lima_clk_release_action :: "nat option \<Rightarrow> platform_world \<Rightarrow> platform_world" where
  "lima_clk_release_action clk w = (case clk of None \<Rightarrow> w | Some c \<Rightarrow> clk_release c w)"

definition add_devres :: "nat \<Rightarrow> devres \<Rightarrow> platform_world \<Rightarrow> platform_world" where
  "add_devres d r w = upd_dev d (\<lambda>v. v\<lparr>pd_devres := r # pd_devres v\<rparr>) w"

text \<open>The result is an error or a clock, \<open>None\<close> being the null clock of an optional request.\<close>

definition lima_devm_clk_get_common ::
  "(string \<Rightarrow> errno + nat) \<Rightarrow> rc \<Rightarrow> nat option \<Rightarrow> string \<Rightarrow> bool \<Rightarrow> platform_world \<Rightarrow> (errno + nat option) \<times> platform_world" where
  "lima_devm_clk_get_common by_name add_action dev i optional w =
     (case dev of None \<Rightarrow> (Inl EINVAL, w) | Some x \<Rightarrow>
      (case to_platform_device w dev of None \<Rightarrow> (Inl ENODEV, w) | Some d \<Rightarrow>
      if \<not> pd_bsddev (pw_dev w x) then (Inl ENODEV, w)
      else case by_name i of
        Inl e \<Rightarrow> (if optional \<and> e = ENOENT then (Inr None, w) else (Inl e, w))
      | Inr c \<Rightarrow>
          let w1 = w\<lparr>pw_clk := (pw_clk w)(c := pw_clk w c + 1)\<rparr> in
          (case add_action of
             E e \<Rightarrow> (Inl e, clk_release c w1)
           | OK \<Rightarrow> (Inr (Some c), add_devres x (DR_clk c) w1))))"

definition devm_clk_get ::
  "(string \<Rightarrow> errno + nat) \<Rightarrow> rc \<Rightarrow> nat option \<Rightarrow> string \<Rightarrow> platform_world \<Rightarrow> (errno + nat option) \<times> platform_world" where
  "devm_clk_get by_name add_action dev i w = lima_devm_clk_get_common by_name add_action dev i False w"

definition devm_clk_get_optional ::
  "(string \<Rightarrow> errno + nat) \<Rightarrow> rc \<Rightarrow> nat option \<Rightarrow> string \<Rightarrow> platform_world \<Rightarrow> (errno + nat option) \<times> platform_world" where
  "devm_clk_get_optional by_name add_action dev i w = lima_devm_clk_get_common by_name add_action dev i True w"

definition clk_prepare_enable :: "rc \<Rightarrow> nat option \<Rightarrow> platform_world \<Rightarrow> rc \<times> platform_world" where
  "clk_prepare_enable enable clk w =
     (case clk of None \<Rightarrow> (OK, w) | Some c \<Rightarrow>
      (case enable of
         E e \<Rightarrow> (E e, w)
       | OK \<Rightarrow> (OK, w\<lparr>pw_clk_on := (pw_clk_on w)(c := pw_clk_on w c + 1)\<rparr>)))"

definition clk_disable_unprepare :: "nat option \<Rightarrow> platform_world \<Rightarrow> platform_world" where
  "clk_disable_unprepare clk w =
     (case clk of None \<Rightarrow> w | Some c \<Rightarrow> w\<lparr>pw_clk_on := (pw_clk_on w)(c := pw_clk_on w c - 1)\<rparr>)"

text \<open>\<open>freq\<close> is what \<open>clk_get_freq\<close> answers, \<open>set_freq\<close> what \<open>clk_set_freq\<close> does.\<close>

definition clk_get_rate :: "(nat \<Rightarrow> u64 option) \<Rightarrow> nat option \<Rightarrow> u64" where
  "clk_get_rate freq clk = (case clk of None \<Rightarrow> 0 | Some c \<Rightarrow> (case freq c of None \<Rightarrow> 0 | Some f \<Rightarrow> f))"

definition clk_set_rate :: "(nat \<Rightarrow> u64 \<Rightarrow> rc) \<Rightarrow> nat option \<Rightarrow> u64 \<Rightarrow> rc" where
  "clk_set_rate set_freq clk rate = (case clk of None \<Rightarrow> E EINVAL | Some c \<Rightarrow> set_freq c rate)"

definition clk_put :: "nat option \<Rightarrow> platform_world \<Rightarrow> platform_world" where
  "clk_put clk w = w"

section \<open>Reset lines\<close>

definition lima_reset_release_action :: "nat option \<Rightarrow> platform_world \<Rightarrow> platform_world option" where
  "lima_reset_release_action rc w =
     (case rc of None \<Rightarrow> Some w | Some a \<Rightarrow> do { r \<leftarrow> pw_reset w a; Some (hwreset_release (rst_handle r) w) })"

text \<open>
  Both \<open>get\<close> functions differ only in the call of hwreset(9) and in \<open>is_array\<close>: \<open>found\<close> is what that
  call answers, \<open>alloc\<close> whether \<open>devm_kzalloc\<close> succeeds. The wrapper of an absent line stays on the list.
\<close>

definition reset_get ::
  "bool \<Rightarrow> bool \<Rightarrow> errno + nat \<Rightarrow> rc \<Rightarrow> nat option \<Rightarrow> platform_world \<Rightarrow> (errno + nat option) \<times> platform_world" where
  "reset_get is_array alloc found add_action dev w =
     (case dev of None \<Rightarrow> (Inl EINVAL, w) | Some x \<Rightarrow>
      (case to_platform_device w dev of None \<Rightarrow> (Inl ENODEV, w) | Some d \<Rightarrow>
      if \<not> pd_bsddev (pw_dev w x) then (Inl ENODEV, w)
      else if \<not> alloc then (Inl ENOMEM, w)
      else
        let a = pw_next w;
            w1 = add_devres x (DR_kzalloc a) (w\<lparr>pw_reset := (pw_reset w)(a \<mapsto> \<lparr>rst_is_array = False, rst_handle = 0\<rparr>), pw_next := a + 1\<rparr>) in
        (case found of
           Inl e \<Rightarrow> (if e = ENOENT then (Inr None, w1) else (Inl e, w1))
         | Inr h \<Rightarrow>
             let w2 = w1\<lparr>pw_reset := (pw_reset w1)(a \<mapsto> \<lparr>rst_is_array = is_array, rst_handle = h\<rparr>),
                   pw_rst := (pw_rst w1)(h := pw_rst w1 h + 1)\<rparr> in
             (case add_action of
                E e \<Rightarrow> (Inl e, hwreset_release h w2)
              | OK \<Rightarrow> (Inr (Some a), add_devres x (DR_reset a) w2)))))"

definition devm_reset_control_array_get_optional_shared ::
  "bool \<Rightarrow> errno + nat \<Rightarrow> rc \<Rightarrow> nat option \<Rightarrow> platform_world \<Rightarrow> (errno + nat option) \<times> platform_world" where
  "devm_reset_control_array_get_optional_shared = reset_get True"

definition devm_reset_control_get_optional_shared ::
  "(string \<Rightarrow> errno + nat) \<Rightarrow> bool \<Rightarrow> rc \<Rightarrow> nat option \<Rightarrow> string \<Rightarrow> platform_world \<Rightarrow> (errno + nat option) \<times> platform_world" where
  "devm_reset_control_get_optional_shared by_name alloc add_action dev i = reset_get False alloc (by_name i) add_action dev"

text \<open>\<open>hw is_array handle\<close> is what the (array or single) call of hwreset(9) answers.\<close>

definition reset_control_deassert ::
  "(bool \<Rightarrow> nat \<Rightarrow> rc) \<Rightarrow> nat option \<Rightarrow> platform_world \<Rightarrow> (rc \<times> platform_world) option" where
  "reset_control_deassert hw rc w =
     (case rc of None \<Rightarrow> Some (OK, w) | Some a \<Rightarrow> do {
        r \<leftarrow> pw_reset w a;
        Some (case hw (rst_is_array r) (rst_handle r) of
            E e \<Rightarrow> (E e, w)
          | OK \<Rightarrow> (OK, w\<lparr>pw_deasserted := insert (rst_handle r) (pw_deasserted w)\<rparr>)) })"

definition reset_control_assert ::
  "(bool \<Rightarrow> nat \<Rightarrow> rc) \<Rightarrow> nat option \<Rightarrow> platform_world \<Rightarrow> (rc \<times> platform_world) option" where
  "reset_control_assert hw rc w =
     (case rc of None \<Rightarrow> Some (OK, w) | Some a \<Rightarrow> do {
        r \<leftarrow> pw_reset w a;
        Some (case hw (rst_is_array r) (rst_handle r) of
            E e \<Rightarrow> (E e, w)
          | OK \<Rightarrow> (OK, w\<lparr>pw_deasserted := pw_deasserted w - {rst_handle r}\<rparr>)) })"

definition reset_control_reset ::
  "(bool \<Rightarrow> nat \<Rightarrow> rc) \<Rightarrow> (bool \<Rightarrow> nat \<Rightarrow> rc) \<Rightarrow> nat option \<Rightarrow> platform_world \<Rightarrow> (rc \<times> platform_world) option" where
  "reset_control_reset hw_assert hw_deassert rc w =
     (if rc = None then Some (OK, w)
      else do {
        (r, w1) \<leftarrow> reset_control_assert hw_assert rc w;
        (case r of E e \<Rightarrow> Some (E e, w1) | OK \<Rightarrow> reset_control_deassert hw_deassert rc w1) })"

section \<open>The supply\<close>

definition devm_regulator_get_optional :: "errno + nat" where "devm_regulator_get_optional = Inl ENODEV"
definition devm_regulator_get :: "errno + nat" where "devm_regulator_get = Inl ENODEV"
definition regulator_enable :: rc where "regulator_enable = OK"
definition regulator_get_voltage :: int where "regulator_get_voltage = 0"

section \<open>Timeouts\<close>

text \<open>
  \<open>now\<close> is the monotonic clock, \<open>to_jiffies\<close> the function \<open>nsecs_to_jiffies64\<close> of linuxkpi and \<open>max_timeout\<close> its
  \<open>MAX_SCHEDULE_TIMEOUT\<close>; the comparison and the difference are those of \<open>ktime_t\<close>, signed 64 bits.
\<close>

definition drm_timeout_abs_to_jiffies :: "u64 \<Rightarrow> (u64 \<Rightarrow> u64) \<Rightarrow> u64 \<Rightarrow> u64 \<Rightarrow> u64" where
  "drm_timeout_abs_to_jiffies max_timeout to_jiffies now timeout_nsec =
     (if timeout_nsec = 0 then 0
      else if \<not> now <s timeout_nsec then 0
      else
        let timeout_ns = timeout_nsec - now; j = to_jiffies timeout_ns in
        if j \<ge> max_timeout - 1 then max_timeout - 1 else j + 1)"

text \<open>A deadline that has passed does not wait, any other waits at least one tick and less than for ever.\<close>

lemma drm_timeout_bounds:
  assumes "2 \<le> max_timeout"
  shows "if timeout_nsec = 0 \<or> sint timeout_nsec \<le> sint now then drm_timeout_abs_to_jiffies max_timeout f now timeout_nsec = 0
    else 1 \<le> drm_timeout_abs_to_jiffies max_timeout f now timeout_nsec \<and>
      drm_timeout_abs_to_jiffies max_timeout f now timeout_nsec < max_timeout"
proof (cases "timeout_nsec = 0 \<or> sint timeout_nsec \<le> sint now")
  case True
  then show ?thesis by (auto simp: drm_timeout_abs_to_jiffies_def word_sless_alt)
next
  case False
  have m: "1 \<le> max_timeout - 1" "max_timeout - 1 < max_timeout"
    using assms by (simp_all add: word_le_nat_alt word_less_nat_alt unat_sub)
  have "1 \<le> j + 1 \<and> j + 1 < max_timeout" if "j < max_timeout - 1" for j
    using that assms by unat_arith
  with m False show ?thesis
    by (auto simp: drm_timeout_abs_to_jiffies_def word_sless_alt Let_def not_le)
qed

end
