(* ===== verification/Platform_Spec.thy ===== *)
theory Platform_Spec
  imports Platform_Shims
begin

text \<open>
  Between attach and detach: the steps a driver makes on its device, the invariant they keep (\<open>life\<close>), and
  what attach and detach give back. \<open>life w0 d w\<close> compares a world with the one \<open>w0\<close> in which the device
  was attached; everything held since then is accounted for by the device itself.
\<close>

section \<open>Steps of a driver\<close>

text \<open>A driver names its own device, or none, and passes on the numbers \<open>platform_get_irq\<close> gave it.\<close>

inductive drv_step :: "nat \<Rightarrow> platform_world \<Rightarrow> platform_world \<Rightarrow> bool" for d where
  request: "lkpi_platform_get_irq (Some d) num w = Inr irq \<Longrightarrow> xdev = None \<or> xdev = Some d \<Longrightarrow>
    lkpi_platform_request_irq env xdev irq h th arg w = (r, w') \<Longrightarrow> drv_step d w w'"
| free: "lkpi_platform_get_irq (Some d) num w = Inr irq \<Longrightarrow> xdev = None \<or> xdev = Some d \<Longrightarrow>
    lkpi_platform_free_irq xdev irq w = Some w' \<Longrightarrow> drv_step d w w'"
| clk: "lima_devm_clk_get_common by_name act (Some d) i opt w = (c, w') \<Longrightarrow> drv_step d w w'"
| enable: "clk_prepare_enable en c w = (r, w') \<Longrightarrow> drv_step d w w'"
| disable: "drv_step d w (clk_disable_unprepare c w)"
| reset: "reset_get arr alloc found act (Some d) w = (c, w') \<Longrightarrow> drv_step d w w'"
| deassert: "reset_control_deassert hw c w = Some (r, w') \<Longrightarrow> drv_step d w w'"
| assert: "reset_control_assert hw c w = Some (r, w') \<Longrightarrow> drv_step d w w'"

inductive drv_run :: "nat \<Rightarrow> platform_world \<Rightarrow> platform_world \<Rightarrow> bool" for d where
  stay: "drv_run d w w"
| step: "drv_run d w w1 \<Longrightarrow> drv_step d w1 w2 \<Longrightarrow> drv_run d w w2"

inductive_cases drv_stepE: "drv_step d w w'"

section \<open>The invariant\<close>

text \<open>Addresses are handed out in order; nothing is installed that was not.\<close>

definition fresh_ok :: "platform_world \<Rightarrow> bool" where
  "fresh_ok w = ((\<forall>e \<ge> pw_next w. pw_irqe w e = None \<and> pw_reset w e = None) \<and> (\<forall>e \<in> pw_handlers w. e < pw_next w))"

definition frame_ok :: "platform_world \<Rightarrow> nat \<Rightarrow> platform_world \<Rightarrow> bool" where
  "frame_ok w0 d w = (pw_next w0 \<le> pw_next w \<and> fresh_ok w \<and> (\<forall>d'. d' \<noteq> d \<longrightarrow> pw_dev w d' = pw_dev w0 d') \<and>
     (\<forall>e < pw_next w0. pw_irqe w e = pw_irqe w0 e \<and> pw_reset w e = pw_reset w0 e))"

text \<open>Slots and descriptors: what is installed is allocated, and points back to its slot.\<close>

definition irq_ok :: "platform_world \<Rightarrow> nat \<Rightarrow> platform_world \<Rightarrow> bool" where
  "irq_ok w0 d w = (let v = pw_dev w d in
     pd_irq_ent v = pd_irq_tag v \<and>
     (\<forall>i e. pd_irq_tag v i = Some e \<longrightarrow> i < pd_nirq v \<and> pw_next w0 \<le> e \<and>
        (\<exists>ie. pw_irqe w e = Some ie \<and> ie_pdev ie = d \<and> ie_idx ie = i)) \<and>
     pw_handlers w = pw_handlers w0 \<union> ran (pd_irq_tag v) \<and>
     (\<forall>e ie. pw_next w0 \<le> e \<longrightarrow> pw_irqe w e = Some ie \<longrightarrow> ie_pdev ie = d \<and>
        (if ie_devres ie then DR_irqe e \<in> set (pd_devres v) else pd_irq_tag v (ie_idx ie) = Some e)))"

text \<open>A wrapper is freed only after the release of the line it names: its entry is further down the list.\<close>

fun reset_order :: "devres list \<Rightarrow> bool" where
  "reset_order [] = True"
| "reset_order (r # rs) = (reset_order rs \<and> (case r of
     DR_reset a \<Rightarrow> DR_kzalloc a \<in> set rs
   | DR_kzalloc a \<Rightarrow> DR_kzalloc a \<notin> set rs \<and> DR_reset a \<notin> set rs
   | DR_irqe e \<Rightarrow> DR_irqe e \<notin> set rs
   | DR_clk _ \<Rightarrow> True))"

definition rst_count :: "platform_world \<Rightarrow> devres list \<Rightarrow> nat \<Rightarrow> int" where
  "rst_count w rs h = int (List.length (filter (\<lambda>r. \<exists>a. r = DR_reset a \<and> map_option rst_handle (pw_reset w a) = Some h) rs))"

definition clk_count :: "devres list \<Rightarrow> nat \<Rightarrow> int" where
  "clk_count rs c = int (count_list rs (DR_clk c))"

definition devres_ok :: "platform_world \<Rightarrow> nat \<Rightarrow> platform_world \<Rightarrow> bool" where
  "devres_ok w0 d w = (let rs = pd_devres (pw_dev w d) in
     reset_order rs \<and>
     (\<forall>e. DR_irqe e \<in> set rs \<longrightarrow> pw_next w0 \<le> e \<and> (\<exists>ie. pw_irqe w e = Some ie \<and> ie_pdev ie = d \<and> ie_devres ie)) \<and>
     (\<forall>a. DR_kzalloc a \<in> set rs \<longleftrightarrow> pw_next w0 \<le> a \<and> pw_reset w a \<noteq> None) \<and>
     (\<forall>c. pw_clk w c = pw_clk w0 c + clk_count rs c) \<and> (\<forall>h. pw_rst w h = pw_rst w0 h + rst_count w rs h))"

definition held_res :: "nat \<Rightarrow> platform_device \<Rightarrow> (nat \<times> nat) multiset" where
  "held_res d v = mset (map (\<lambda>i. (d, the (pd_irq v i))) [0..<pd_nirq v]) + mset (map (\<lambda>i. (d, the (pd_mem v i))) [0..<pd_nmem v])"

definition res_ok :: "platform_world \<Rightarrow> nat \<Rightarrow> platform_world \<Rightarrow> bool" where
  "res_ok w0 d w = (let v = pw_dev w d in
     pw_res w = pw_res w0 + held_res d v \<and> (\<forall>i < pd_nirq v. pd_irq v i \<noteq> None) \<and> (\<forall>i < pd_nmem v. pd_mem v i \<noteq> None) \<and>
     pd_nirq v \<le> LKPI_PLATFORM_MAX_IRQ \<and> pd_nmem v \<le> LKPI_PLATFORM_MAX_MEM)"

definition bound_ok :: "platform_world \<Rightarrow> nat \<Rightarrow> platform_world \<Rightarrow> bool" where
  "bound_ok w0 d w = (let v = pw_dev w d in
     pd_magic v = LKPI_PLATFORM_DEVICE_MAGIC \<and> pd_bsddev v \<and> pd_kref v = 1 \<and> pd_link v \<and> pw_list w = d # pw_list w0 \<and>
     pd_dma_priv v = Some \<lparr>dp_dmat = True, dp_dmat_coherent = True, dp_lock = True\<rparr> \<and>
     pw_tags w = pw_tags w0 + 2 \<and> pw_privs w = pw_privs w0 + 1)"

definition life :: "platform_world \<Rightarrow> nat \<Rightarrow> platform_world \<Rightarrow> bool" where
  "life w0 d w = (frame_ok w0 d w \<and> irq_ok w0 d w \<and> devres_ok w0 d w \<and> res_ok w0 d w \<and> bound_ok w0 d w)"

lemma upd_dev_simps [simp]: "pw_dev (upd_dev d f w) = (pw_dev w)(d := f (pw_dev w d))" "pw_list (upd_dev d f w) = pw_list w"
  "pw_irqe (upd_dev d f w) = pw_irqe w" "pw_reset (upd_dev d f w) = pw_reset w" "pw_next (upd_dev d f w) = pw_next w"
  "pw_handlers (upd_dev d f w) = pw_handlers w" "pw_res (upd_dev d f w) = pw_res w" "pw_tags (upd_dev d f w) = pw_tags w"
  "pw_clk_on (upd_dev d f w) = pw_clk_on w" "pw_deasserted (upd_dev d f w) = pw_deasserted w"
  "pw_privs (upd_dev d f w) = pw_privs w" "pw_clk (upd_dev d f w) = pw_clk w" "pw_rst (upd_dev d f w) = pw_rst w"
  by (simp_all add: upd_dev_def)

lemmas life_defs = life_def frame_ok_def fresh_ok_def irq_ok_def devres_ok_def res_ok_def bound_ok_def Let_def

text \<open>The parts of the invariant, for use one at a time.\<close>

lemma lifeD:
  assumes "life w0 d w"
  shows "frame_ok w0 d w" "irq_ok w0 d w" "devres_ok w0 d w" "res_ok w0 d w" "bound_ok w0 d w"
  using assms by (simp_all add: life_def)

lemma frameD:
  assumes "frame_ok w0 d w"
  shows "pw_next w0 \<le> pw_next w" "pw_next w \<le> e \<Longrightarrow> pw_irqe w e = None" "pw_next w \<le> e \<Longrightarrow> pw_reset w e = None"
    "e \<in> pw_handlers w \<Longrightarrow> e < pw_next w" "d' \<noteq> d \<Longrightarrow> pw_dev w d' = pw_dev w0 d'"
    "e < pw_next w0 \<Longrightarrow> pw_irqe w e = pw_irqe w0 e" "e < pw_next w0 \<Longrightarrow> pw_reset w e = pw_reset w0 e"
  using assms by (auto simp: frame_ok_def fresh_ok_def)

lemma irqD:
  assumes "irq_ok w0 d w"
  shows "pd_irq_ent (pw_dev w d) = pd_irq_tag (pw_dev w d)"
    "pd_irq_tag (pw_dev w d) i = Some e \<Longrightarrow> i < pd_nirq (pw_dev w d) \<and> pw_next w0 \<le> e \<and>
       (\<exists>ie. pw_irqe w e = Some ie \<and> ie_pdev ie = d \<and> ie_idx ie = i)"
    "pw_handlers w = pw_handlers w0 \<union> ran (pd_irq_tag (pw_dev w d))"
    "pw_next w0 \<le> e \<Longrightarrow> pw_irqe w e = Some ie \<Longrightarrow> ie_pdev ie = d \<and>
       (if ie_devres ie then DR_irqe e \<in> set (pd_devres (pw_dev w d)) else pd_irq_tag (pw_dev w d) (ie_idx ie) = Some e)"
  using assms by (auto simp: irq_ok_def Let_def)

lemma devresD:
  assumes "devres_ok w0 d w"
  shows "reset_order (pd_devres (pw_dev w d))"
    "DR_irqe e \<in> set (pd_devres (pw_dev w d)) \<Longrightarrow> pw_next w0 \<le> e \<and> (\<exists>ie. pw_irqe w e = Some ie \<and> ie_pdev ie = d \<and> ie_devres ie)"
    "DR_kzalloc a \<in> set (pd_devres (pw_dev w d)) \<longleftrightarrow> pw_next w0 \<le> a \<and> pw_reset w a \<noteq> None"
    "pw_clk w c = pw_clk w0 c + clk_count (pd_devres (pw_dev w d)) c"
    "pw_rst w h = pw_rst w0 h + rst_count w (pd_devres (pw_dev w d)) h"
  using assms by (auto simp: devres_ok_def Let_def)

section \<open>Interrupts find their device\<close>

lemma get_irq_target:
  assumes l: "life w0 d w" and irq: "lkpi_platform_get_irq (Some d) num w = Inr irq" and x: "xdev = None \<or> xdev = Some d"
  shows "LKPI_PLATFORM_IRQ_IS_TOKEN irq" "unat (LKPI_PLATFORM_IRQ_INDEX irq) = num" "num < pd_nirq (pw_dev w d)"
    "pd_irq (pw_dev w d) num \<noteq> None" "lkpi_platform_irq_lookup irq w = Some (d, num)"
    "(case to_platform_device w xdev of Some d \<Rightarrow> Some d | None \<Rightarrow> map_option fst (lkpi_platform_irq_lookup irq w)) = Some d"
proof -
  have irq: "irq = LKPI_PLATFORM_IRQ_TOKEN (pd_id (pw_dev w d)) (of_nat num)" and n: "num < pd_nirq (pw_dev w d)"
    and r: "pd_irq (pw_dev w d) num \<noteq> None"
    using irq by (auto simp: lkpi_platform_get_irq_def Let_def split: if_splits)
  have small: "num < 256" using n l by (simp add: life_defs LKPI_PLATFORM_MAX_IRQ_def)
  have idx: "LKPI_PLATFORM_IRQ_INDEX irq = of_nat num" unfolding irq by (rule token_unat [OF small])
  have u: "unat (of_nat num :: u32) = num" using small by (intro unat_of_nat_u32) simp
  show "LKPI_PLATFORM_IRQ_IS_TOKEN irq" unfolding irq by (rule token_fields)
  then show look: "lkpi_platform_irq_lookup irq w = Some (d, num)"
    using l by (simp add: lkpi_platform_irq_lookup_def idx u life_defs) (simp add: irq)
  show "unat (LKPI_PLATFORM_IRQ_INDEX irq) = num" by (simp add: idx u)
  show "num < pd_nirq (pw_dev w d)" "pd_irq (pw_dev w d) num \<noteq> None" by fact+
  show "(case to_platform_device w xdev of Some d \<Rightarrow> Some d | None \<Rightarrow> map_option fst (lkpi_platform_irq_lookup irq w)) = Some d"
    using x l by (auto simp: to_platform_device_def look life_defs)
qed

text \<open>What a request that succeeds makes of the world.\<close>

definition installed :: "nat \<Rightarrow> nat option \<Rightarrow> u32 \<Rightarrow> nat \<Rightarrow> nat option \<Rightarrow> nat \<Rightarrow> nat \<Rightarrow> platform_world \<Rightarrow> platform_world" where
  "installed d xdev irq h th arg num w = (let e = pw_next w in
     (upd_dev d (\<lambda>v. v\<lparr>pd_irq_tag := (pd_irq_tag v)(num \<mapsto> e), pd_irq_ent := (pd_irq_ent v)(num \<mapsto> e),
         pd_devres := (if xdev = None then pd_devres v else DR_irqe e # pd_devres v), pd_dev_irq := Some irq\<rparr>) w)
      \<lparr>pw_irqe := (pw_irqe w)(e \<mapsto> \<lparr>ie_pdev = d, ie_handler = h, ie_thread_handler = th, ie_arg = arg, ie_irq = irq,
          ie_idx = num, ie_devres = (xdev \<noteq> None)\<rparr>), pw_next := e + 1, pw_handlers := insert e (pw_handlers w)\<rparr>)"

lemma request_eq:
  assumes "life w0 d w" and "lkpi_platform_get_irq (Some d) num w = Inr irq" and "xdev = None \<or> xdev = Some d"
  shows "lkpi_platform_request_irq env xdev irq h th arg w =
    (case h of None \<Rightarrow> (E EINVAL, w) | Some h \<Rightarrow>
     if pd_irq_tag (pw_dev w d) num \<noteq> None then (E EBUSY, w)
     else if \<not> re_alloc env then (E ENOMEM, w)
     else case re_setup env of
       E e \<Rightarrow> (E e, w\<lparr>pw_next := pw_next w + 1\<rparr>)
     | OK \<Rightarrow> (OK, installed d xdev irq h th arg num w))"
proof -
  note t = get_irq_target [OF assms]
  have undo: "(pw_irqe w)(pw_next w := None) = pw_irqe w"
    using frameD(2) [OF lifeD(1) [OF assms(1)]] by (simp add: fun_upd_idem)
  have idx: "\<not> pd_nirq (pw_dev w d) \<le> num" using t(3) by simp
  obtain r where r: "pd_irq (pw_dev w d) num = Some r" using t(4) by auto
  show ?thesis
  proof (cases h)
    case None
    then show ?thesis by (simp add: lkpi_platform_request_irq_def)
  next
    case h: (Some hd')
    show ?thesis
    proof (cases "re_setup env")
      case (E e)
      then show ?thesis unfolding lkpi_platform_request_irq_def t(6) by (simp add: Let_def h t(1,2) r idx undo)
    next
      case OK
      show ?thesis
        using assms(3) unfolding lkpi_platform_request_irq_def t(6)
        by (elim disjE) (simp_all add: Let_def h OK t(1,2) r idx installed_def upd_dev_def)
    qed
  qed
qed

lemma free_eq:
  assumes "life w0 d w" and "lkpi_platform_get_irq (Some d) num w = Inr irq" and "xdev = None \<or> xdev = Some d"
  shows "lkpi_platform_free_irq xdev irq w =
    (case pd_irq_tag (pw_dev w d) num of
       None \<Rightarrow> Some w
     | Some e \<Rightarrow> Some ((upd_dev d (\<lambda>v. v\<lparr>pd_irq_tag := (pd_irq_tag v)(num := None), pd_irq_ent := (pd_irq_ent v)(num := None)\<rparr>) w)
         \<lparr>pw_handlers := pw_handlers w - {e},
          pw_irqe := (if ie_devres (the (pw_irqe w e)) then pw_irqe w else (pw_irqe w)(e := None))\<rparr>))"
proof -
  note t = get_irq_target [OF assms]
  show ?thesis
  proof (cases "pd_irq_tag (pw_dev w d) num")
    case None
    then have "pd_irq_ent (pw_dev w d) num = None" by (simp add: irqD(1) [OF lifeD(2) [OF assms(1)]])
    then show ?thesis unfolding lkpi_platform_free_irq_def t(6) using t(1-4) None by (simp add: Let_def)
  next
    case (Some e)
    then obtain ie where ie: "pw_irqe w e = Some ie" "ie_pdev ie = d" "ie_idx ie = num" "pd_irq_ent (pw_dev w d) num = Some e"
      using irqD(1,2) [OF lifeD(2) [OF assms(1)]] by metis
    then show ?thesis
      unfolding lkpi_platform_free_irq_def t(6) using t(1-4) Some
      by (simp add: Let_def lkpi_platform_irq_teardown_def upd_dev_def)
  qed
qed

section \<open>Every step keeps the invariant\<close>

lemma rst_count_fresh: "(\<And>a. DR_reset a \<in> set rs \<Longrightarrow> pw_reset w' a = pw_reset w a) \<Longrightarrow> rst_count w' rs h = rst_count w rs h"
  unfolding rst_count_def by (intro arg_cong [where f = "\<lambda>x. int (List.length x)"] filter_cong) auto

lemma rst_count_Cons [simp]: "rst_count w (DR_irqe e # rs) h = rst_count w rs h" "rst_count w (DR_clk c # rs) h = rst_count w rs h"
  "rst_count w (DR_kzalloc a # rs) h = rst_count w rs h"
  "rst_count w (DR_reset a # rs) h = rst_count w rs h + of_bool (map_option rst_handle (pw_reset w a) = Some h)" "rst_count w [] h = 0"
  by (simp_all add: rst_count_def)

lemma clk_count_Cons [simp]: "clk_count [] c = 0" "clk_count (DR_clk b # rs) c = clk_count rs c + of_bool (b = c)"
  "clk_count (DR_irqe e # rs) c = clk_count rs c" "clk_count (DR_reset a # rs) c = clk_count rs c"
  "clk_count (DR_kzalloc a # rs) c = clk_count rs c"
  by (simp_all add: clk_count_def)

text \<open>Frequencies, enables and lines are not accounted for.\<close>

lemma life_levels [simp]: "life w0 d (w\<lparr>pw_clk_on := x\<rparr>) = life w0 d w" "life w0 d (w\<lparr>pw_deasserted := y\<rparr>) = life w0 d w"
  by (simp_all add: life_defs rst_count_def)

lemma life_bump: "life w0 d w \<Longrightarrow> life w0 d (w\<lparr>pw_next := pw_next w + 1\<rparr>)"
proof -
  assume l: "life w0 d w"
  note fr = frameD [OF lifeD(1) [OF l]]
  have "frame_ok w0 d (w\<lparr>pw_next := pw_next w + 1\<rparr>)"
    unfolding frame_ok_def fresh_ok_def using fr by (simp add: less_Suc_eq)
  moreover have "irq_ok w0 d (w\<lparr>pw_next := pw_next w + 1\<rparr>)" "res_ok w0 d (w\<lparr>pw_next := pw_next w + 1\<rparr>)"
    "bound_ok w0 d (w\<lparr>pw_next := pw_next w + 1\<rparr>)"
    using lifeD(2,4,5) [OF l] by (simp_all add: irq_ok_def res_ok_def bound_ok_def Let_def)
  moreover have "devres_ok w0 d (w\<lparr>pw_next := pw_next w + 1\<rparr>)"
    using lifeD(3) [OF l] by (simp add: devres_ok_def rst_count_def)
  ultimately show ?thesis by (simp add: life_def)
qed

lemma life_installed:
  assumes l: "life w0 d w" and n: "num < pd_nirq (pw_dev w d)" and free: "pd_irq_tag (pw_dev w d) num = None"
  shows "life w0 d (installed d xdev irq h th arg num w)"
proof -
  let ?w = "installed d xdev irq h th arg num w"
  note fr = frameD [OF lifeD(1) [OF l]] and ir = irqD [OF lifeD(2) [OF l]] and dr = devresD [OF lifeD(3) [OF l]]
  have fresh: "pw_irqe w (pw_next w) = None" and nx: "pw_next w0 \<le> pw_next w" using fr(1,2) by simp_all
  have new: "pd_irq_tag (pw_dev w d) i = Some e \<Longrightarrow> e \<noteq> pw_next w" for i e using ir(2) fresh by fastforce
  have "frame_ok w0 d ?w"
    unfolding frame_ok_def fresh_ok_def installed_def Let_def using fr by (simp add: less_Suc_eq)
  moreover have "irq_ok w0 d ?w"
    unfolding irq_ok_def Let_def
  proof (intro conjI allI impI)
    show "pd_irq_ent (pw_dev ?w d) = pd_irq_tag (pw_dev ?w d)" using ir(1) by (simp add: installed_def Let_def)
    show "pw_handlers ?w = pw_handlers w0 \<union> ran (pd_irq_tag (pw_dev ?w d))"
      using ir(3) free by (simp add: installed_def Let_def ran_map_upd)
  next
    fix i e assume "pd_irq_tag (pw_dev ?w d) i = Some e"
    then show "i < pd_nirq (pw_dev ?w d)" "pw_next w0 \<le> e" "\<exists>ie. pw_irqe ?w e = Some ie \<and> ie_pdev ie = d \<and> ie_idx ie = i"
      using ir(2) [of i e] new [of i e] n nx by (auto simp: installed_def Let_def split: if_splits)
  next
    fix e ie assume "pw_next w0 \<le> e" "pw_irqe ?w e = Some ie"
    then show "ie_pdev ie = d" "if ie_devres ie then DR_irqe e \<in> set (pd_devres (pw_dev ?w d)) else pd_irq_tag (pw_dev ?w d) (ie_idx ie) = Some e"
      using ir(4) [of e ie] free by (auto simp: installed_def Let_def split: if_splits)
  qed
  moreover have "devres_ok w0 d ?w"
  proof -
    have "DR_irqe (pw_next w) \<notin> set (pd_devres (pw_dev w d))" using dr(2) fresh by fastforce
    then show ?thesis
      using dr nx by (auto simp: devres_ok_def installed_def Let_def rst_count_def)
  qed
  moreover have "res_ok w0 d ?w" "bound_ok w0 d ?w"
    using lifeD(4,5) [OF l] by (simp_all add: res_ok_def bound_ok_def installed_def Let_def held_res_def)
  ultimately show ?thesis by (simp add: life_def)
qed

lemma ran_del:
  assumes "m k = Some e" and inj: "\<And>i. m i = Some e \<Longrightarrow> i = k"
  shows "ran (m(k := None)) = ran m - {e}"
proof (intro set_eqI iffI)
  fix x assume "x \<in> ran (m(k := None))"
  then obtain i where "m i = Some x" "i \<noteq> k" by (auto simp: ran_def split: if_splits)
  then show "x \<in> ran m - {e}" using inj [of i] by (auto simp: ran_def)
next
  fix x assume "x \<in> ran m - {e}"
  then obtain i where i: "m i = Some x" "x \<noteq> e" by (auto simp: ran_def)
  then have "i \<noteq> k" using assms(1) by auto
  then show "x \<in> ran (m(k := None))" using i by (auto simp: ran_def)
qed

lemma life_freed:
  assumes l: "life w0 d w" and t: "pd_irq_tag (pw_dev w d) num = Some e" and base: "fresh_ok w0"
  shows "life w0 d ((upd_dev d (\<lambda>v. v\<lparr>pd_irq_tag := (pd_irq_tag v)(num := None), pd_irq_ent := (pd_irq_ent v)(num := None)\<rparr>) w)
         \<lparr>pw_handlers := pw_handlers w - {e},
          pw_irqe := (if ie_devres (the (pw_irqe w e)) then pw_irqe w else (pw_irqe w)(e := None))\<rparr>)" (is "life w0 d ?w")
proof -
  note fr = frameD [OF lifeD(1) [OF l]] and ir = irqD [OF lifeD(2) [OF l]] and dr = devresD [OF lifeD(3) [OF l]]
  obtain ie where ie: "pw_irqe w e = Some ie" "ie_idx ie = num" "pw_next w0 \<le> e" using ir(2) [OF t] by auto
  have e: "e \<notin> pw_handlers w0" using base ie(3) by (auto simp: fresh_ok_def)
  have other: "pd_irq_tag (pw_dev w d) i = Some e \<Longrightarrow> i = num" for i using ir(2) [of i e] ie by auto
  have "frame_ok w0 d ?w" using fr ie(3) by (auto simp: frame_ok_def fresh_ok_def)
  moreover have "irq_ok w0 d ?w"
    unfolding irq_ok_def Let_def
  proof (intro conjI allI impI)
    show "pd_irq_ent (pw_dev ?w d) = pd_irq_tag (pw_dev ?w d)" using ir(1) by simp
    have "ran ((pd_irq_tag (pw_dev w d))(num := None)) = ran (pd_irq_tag (pw_dev w d)) - {e}"
      using ran_del t other by metis
    then show "pw_handlers ?w = pw_handlers w0 \<union> ran (pd_irq_tag (pw_dev ?w d))" using ir(3) e by auto
  next
    fix i e' assume "pd_irq_tag (pw_dev ?w d) i = Some e'"
    then have t': "pd_irq_tag (pw_dev w d) i = Some e'" and "i \<noteq> num" by (simp_all split: if_splits)
    then have "e' \<noteq> e" using other by auto
    then show "i < pd_nirq (pw_dev ?w d)" "pw_next w0 \<le> e'" "\<exists>ie. pw_irqe ?w e' = Some ie \<and> ie_pdev ie = d \<and> ie_idx ie = i"
      using ir(2) [OF t'] by simp_all
  next
    fix e' ie' assume a: "pw_next w0 \<le> e'" "pw_irqe ?w e' = Some ie'"
    then have "pw_irqe w e' = Some ie'" "e' = e \<longrightarrow> ie_devres ie'" using ie by (auto split: if_splits)
    then show "ie_pdev ie' = d" "if ie_devres ie' then DR_irqe e' \<in> set (pd_devres (pw_dev ?w d)) else pd_irq_tag (pw_dev ?w d) (ie_idx ie') = Some e'"
      using ir(4) [OF a(1), of ie'] ie t by (auto split: if_splits)
  qed
  moreover have "devres_ok w0 d ?w"
    using dr ie by (auto simp: devres_ok_def Let_def rst_count_def) fastforce+
  moreover have "res_ok w0 d ?w" "bound_ok w0 d ?w"
    using lifeD(4,5) [OF l] by (simp_all add: res_ok_def bound_ok_def Let_def held_res_def)
  ultimately show ?thesis by (simp add: life_def)
qed

text \<open>An entry for a clock: its handle and its place on the list.\<close>

lemma life_clk:
  assumes l: "life w0 d w"
  shows "life w0 d (add_devres d (DR_clk c) (w\<lparr>pw_clk := (pw_clk w)(c := pw_clk w c + 1)\<rparr>))" (is "life w0 d ?w")
proof -
  note fr = frameD [OF lifeD(1) [OF l]] and ir = irqD [OF lifeD(2) [OF l]] and dr = devresD [OF lifeD(3) [OF l]]
  have "frame_ok w0 d ?w" using fr by (auto simp: frame_ok_def fresh_ok_def add_devres_def)
  moreover have "irq_ok w0 d ?w" using lifeD(2) [OF l] by (simp add: irq_ok_def Let_def add_devres_def)
  moreover have "devres_ok w0 d ?w" using dr by (auto simp: devres_ok_def Let_def add_devres_def rst_count_def)
  moreover have "res_ok w0 d ?w" "bound_ok w0 d ?w"
    using lifeD(4,5) [OF l] by (simp_all add: res_ok_def bound_ok_def Let_def held_res_def add_devres_def)
  ultimately show ?thesis by (simp add: life_def)
qed

lemma clk_get_life:
  assumes l: "life w0 d w" and get: "lima_devm_clk_get_common by_name act (Some d) i opt w = (r, w')"
  shows "life w0 d w'"
proof -
  have "(clk_release c (w\<lparr>pw_clk := (pw_clk w)(c := pw_clk w c + 1)\<rparr>)) = w" for c by (simp add: clk_release_def)
  then show ?thesis using get life_clk [OF l] l
    by (auto simp: lima_devm_clk_get_common_def Let_def split: option.splits sum.splits if_splits rc.splits)
qed

text \<open>The wrapper of a reset line, and the wrapper with its line.\<close>

definition wrapped :: "nat \<Rightarrow> reset_control \<Rightarrow> platform_world \<Rightarrow> platform_world" where
  "wrapped d rc w = add_devres d (DR_kzalloc (pw_next w)) (w\<lparr>pw_reset := (pw_reset w)(pw_next w \<mapsto> rc), pw_next := pw_next w + 1\<rparr>)"

lemma reset_entry_known: "reset_order rs \<Longrightarrow> DR_reset a \<in> set rs \<Longrightarrow> DR_kzalloc a \<in> set rs"
  by (induction rs) (auto split: devres.splits)

lemma life_wrapped:
  assumes l: "life w0 d w"
  shows "life w0 d (wrapped d rc w)"
proof -
  let ?w = "wrapped d rc w"
  note fr = frameD [OF lifeD(1) [OF l]] and ir = irqD [OF lifeD(2) [OF l]] and dr = devresD [OF lifeD(3) [OF l]]
  have new: "DR_kzalloc (pw_next w) \<notin> set (pd_devres (pw_dev w d))" using dr(3) fr(3) by simp
  then have new': "DR_reset (pw_next w) \<notin> set (pd_devres (pw_dev w d))" using reset_entry_known [OF dr(1)] by blast
  then have cnt: "rst_count ?w (pd_devres (pw_dev w d)) h = rst_count w (pd_devres (pw_dev w d)) h" for h
    by (intro rst_count_fresh) (auto simp: wrapped_def add_devres_def)
  have "frame_ok w0 d ?w" unfolding frame_ok_def fresh_ok_def wrapped_def add_devres_def using fr by (simp add: less_Suc_eq)
  moreover have "irq_ok w0 d ?w" using lifeD(2) [OF l] by (simp add: irq_ok_def Let_def wrapped_def add_devres_def)
  moreover have "devres_ok w0 d ?w"
    unfolding devres_ok_def Let_def
  proof (intro conjI allI)
    show "reset_order (pd_devres (pw_dev ?w d))" using dr(1) new new' by (simp add: wrapped_def add_devres_def)
    show "DR_irqe e \<in> set (pd_devres (pw_dev ?w d)) \<longrightarrow> pw_next w0 \<le> e \<and> (\<exists>ie. pw_irqe ?w e = Some ie \<and> ie_pdev ie = d \<and> ie_devres ie)" for e
      using dr(2) by (simp add: wrapped_def add_devres_def)
    show "(DR_kzalloc a \<in> set (pd_devres (pw_dev ?w d))) = (pw_next w0 \<le> a \<and> pw_reset ?w a \<noteq> None)" for a
      using dr(3) fr(1) by (simp add: wrapped_def add_devres_def)
    show "pw_clk ?w c = pw_clk w0 c + clk_count (pd_devres (pw_dev ?w d)) c" for c
      using dr(4) by (simp add: wrapped_def add_devres_def)
    have "rst_count ?w (pd_devres (pw_dev ?w d)) h = rst_count ?w (pd_devres (pw_dev w d)) h" for h
      by (simp add: wrapped_def add_devres_def)
    then show "pw_rst ?w h = pw_rst w0 h + rst_count ?w (pd_devres (pw_dev ?w d)) h" for h
      using dr(5) by (simp add: cnt) (simp add: wrapped_def add_devres_def)
  qed
  moreover have "res_ok w0 d ?w" "bound_ok w0 d ?w"
    using lifeD(4,5) [OF l] by (simp_all add: res_ok_def bound_ok_def Let_def held_res_def wrapped_def add_devres_def)
  ultimately show ?thesis by (simp add: life_def)
qed

lemma life_reset:
  assumes l: "life w0 d w" and a: "DR_kzalloc a \<in> set (pd_devres (pw_dev w d))" "pw_reset w a = Some rc"
  shows "life w0 d (add_devres d (DR_reset a) (w\<lparr>pw_rst := (pw_rst w)(rst_handle rc := pw_rst w (rst_handle rc) + 1)\<rparr>))" (is "life w0 d ?w")
proof -
  note fr = frameD [OF lifeD(1) [OF l]] and ir = irqD [OF lifeD(2) [OF l]] and dr = devresD [OF lifeD(3) [OF l]]
  have "frame_ok w0 d ?w" using fr by (auto simp: frame_ok_def fresh_ok_def add_devres_def)
  moreover have "irq_ok w0 d ?w" using lifeD(2) [OF l] by (simp add: irq_ok_def Let_def add_devres_def)
  moreover have "devres_ok w0 d ?w"
  proof -
    have "rst_count ?w rs h = rst_count w rs h" for rs h by (rule rst_count_fresh) (simp add: add_devres_def)
    then show ?thesis using dr a by (simp add: devres_ok_def Let_def) (simp add: add_devres_def)
  qed
  moreover have "res_ok w0 d ?w" "bound_ok w0 d ?w"
    using lifeD(4,5) [OF l] by (simp_all add: res_ok_def bound_ok_def Let_def held_res_def add_devres_def)
  ultimately show ?thesis by (simp add: life_def)
qed

lemma reset_get_life:
  assumes l: "life w0 d w" and get: "reset_get arr alloc found act (Some d) w = (r, w')"
  shows "life w0 d w'"
proof -
  let ?blank = "\<lparr>rst_is_array = False, rst_handle = 0\<rparr>"
  let ?rc = "\<lambda>h. \<lparr>rst_is_array = arr, rst_handle = h\<rparr>"
  let ?got = "\<lambda>h. (wrapped d ?blank w)\<lparr>pw_reset := (pw_reset (wrapped d ?blank w))(pw_next w \<mapsto> ?rc h),
      pw_rst := (pw_rst w)(h := pw_rst w h + 1)\<rparr>"
  have got: "?got h = (wrapped d (?rc h) w)\<lparr>pw_rst := (pw_rst w)(h := pw_rst w h + 1)\<rparr>" for h
    by (simp add: wrapped_def add_devres_def upd_dev_def)
  have rst: "pw_rst (wrapped d rc w) = pw_rst w" for rc by (simp add: wrapped_def add_devres_def)
  have undo: "hwreset_release h (?got h) = wrapped d (?rc h) w" for h
    by (simp add: got hwreset_release_def) (simp add: wrapped_def add_devres_def upd_dev_def)
  have done': "life w0 d (add_devres d (DR_reset (pw_next w)) (?got h))" for h
    unfolding got using life_reset [OF life_wrapped [OF l], where a = "pw_next w" and rc = "?rc h"]
    by (simp add: rst) (simp add: wrapped_def add_devres_def)
  have keep: "pw_rst (add_devres d x u) = pw_rst u" for x u by (simp add: add_devres_def)
  have "reset_get arr alloc found act (Some d) w =
    (if \<not> dev_is_platform w (Some d) \<or> \<not> pd_bsddev (pw_dev w d) then (Inl ENODEV, w) else if \<not> alloc then (Inl ENOMEM, w)
     else case found of
       Inl e \<Rightarrow> (if e = ENOENT then Inr None else Inl e, wrapped d ?blank w)
     | Inr h \<Rightarrow> (case act of E e \<Rightarrow> (Inl e, hwreset_release h (?got h))
                 | OK \<Rightarrow> (Inr (Some (pw_next w)), add_devres d (DR_reset (pw_next w)) (?got h))))"
    by (simp add: reset_get_def dev_is_platform_def Let_def rst wrapped_def keep split: option.split sum.split rc.split)
  then show ?thesis using get l life_wrapped [OF l] done' undo by (auto split: sum.splits rc.splits if_splits)
qed

lemma line_life:
  assumes "reset_control_deassert hw c w = Some (r, w') \<or> reset_control_assert hw c w = Some (r, w')" and l: "life w0 d w"
  shows "life w0 d w'"
proof (cases c)
  case None
  then show ?thesis using assms by (auto simp: reset_control_deassert_def reset_control_assert_def)
next
  case (Some a)
  then obtain rc where "pw_reset w a = Some rc"
    using assms(1) by (auto simp: reset_control_deassert_def reset_control_assert_def bind_eq_Some_conv)
  then show ?thesis using assms Some
    by (cases "hw (rst_is_array rc) (rst_handle rc)") (auto simp: reset_control_deassert_def reset_control_assert_def)
qed

lemma request_life:
  assumes l: "life w0 d w" and irq: "lkpi_platform_get_irq (Some d) num w = Inr irq" and x: "xdev = None \<or> xdev = Some d"
    and r: "lkpi_platform_request_irq env xdev irq h th arg w = (r, w')"
  shows "life w0 d w'"
  using r life_installed [OF l get_irq_target(3) [OF l irq x]] life_bump [OF l] l
  by (auto simp: request_eq [OF l irq x] split: option.splits if_splits rc.splits)

lemma step_life: "drv_step d w w' \<Longrightarrow> life w0 d w \<Longrightarrow> fresh_ok w0 \<Longrightarrow> life w0 d w'"
proof (induction rule: drv_step.induct)
  case (request num w irq xdev env h th arg r w')
  then show ?case by (blast intro: request_life)
next
  case (free num w irq xdev w')
  from free.hyps(3) free.prems show ?case
    unfolding free_eq [OF free.prems(1) free.hyps(1,2)]
    by (auto split: option.splits intro: life_freed)
next
  case (clk by_name act i opt w c w')
  then show ?case by (blast intro: clk_get_life)
next
  case (enable en c w r w')
  then show ?case by (auto simp: clk_prepare_enable_def split: option.splits rc.splits)
next
  case (disable w c)
  then show ?case by (auto simp: clk_disable_unprepare_def split: option.splits)
next
  case (reset arr alloc found act w c w')
  then show ?case by (blast intro: reset_get_life)
next
  case (deassert hw c w r w')
  then show ?case by (blast intro: line_life)
next
  case (assert hw c w r w')
  then show ?case by (blast intro: line_life)
qed

lemma run_life: "drv_run d w w' \<Longrightarrow> life w0 d w \<Longrightarrow> fresh_ok w0 \<Longrightarrow> life w0 d w'"
  by (induction rule: drv_run.induct) (auto intro: step_life)

section \<open>Release\<close>

text \<open>What running the entries \<open>rs\<close> of device \<open>d\<close> makes of the world.\<close>

definition torn :: "platform_world \<Rightarrow> devres list \<Rightarrow> nat \<Rightarrow> bool" where
  "torn w rs i = (\<exists>e ie. DR_irqe e \<in> set rs \<and> pw_irqe w e = Some ie \<and> ie_idx ie = i)"

definition clear :: "(nat \<Rightarrow> bool) \<Rightarrow> (nat \<Rightarrow> nat option) \<Rightarrow> nat \<Rightarrow> nat option" where
  "clear P m i = (if P i then None else m i)"

definition released :: "nat \<Rightarrow> devres list \<Rightarrow> platform_world \<Rightarrow> platform_world" where
  "released d rs w = (upd_dev d (\<lambda>v. v\<lparr>pd_irq_tag := clear (torn w rs) (pd_irq_tag v), pd_irq_ent := clear (torn w rs) (pd_irq_ent v)\<rparr>) w)
     \<lparr>pw_handlers := pw_handlers w - {t. \<exists>i. torn w rs i \<and> pd_irq_tag (pw_dev w d) i = Some t},
      pw_irqe := (\<lambda>e. if DR_irqe e \<in> set rs then None else pw_irqe w e),
      pw_reset := (\<lambda>a. if DR_kzalloc a \<in> set rs then None else pw_reset w a),
      pw_clk := (\<lambda>c. pw_clk w c - clk_count rs c), pw_rst := (\<lambda>h. pw_rst w h - rst_count w rs h)\<rparr>"

lemma clear_none [simp]: "clear (\<lambda>_. False) m = m"
  by (simp add: fun_eq_iff clear_def)

lemma torn_Nil [simp]: "torn w [] = (\<lambda>_. False)"
  by (simp add: torn_def fun_eq_iff)

lemma torn_simps [simp]: "torn (w\<lparr>pw_clk := x\<rparr>) rs = torn w rs" "torn (w\<lparr>pw_rst := y\<rparr>) rs = torn w rs"
  "torn (w\<lparr>pw_reset := z\<rparr>) rs = torn w rs" "torn w (DR_clk c # rs) = torn w rs" "torn w (DR_reset a # rs) = torn w rs"
  "torn w (DR_kzalloc a # rs) = torn w rs"
  by (simp_all add: torn_def fun_eq_iff)

lemma released_Nil: "released d [] w = w"
  by (simp add: released_def upd_dev_def)

text \<open>Every entry can be released when descriptors are allocated and wrappers come after their lines.\<close>

definition releasable :: "nat \<Rightarrow> devres list \<Rightarrow> platform_world \<Rightarrow> bool" where
  "releasable d rs w = (reset_order rs \<and>
     (\<forall>e. DR_irqe e \<in> set rs \<longrightarrow> (\<exists>ie. pw_irqe w e = Some ie \<and> ie_pdev ie = d)) \<and>
     (\<forall>a. DR_kzalloc a \<in> set rs \<longrightarrow> pw_reset w a \<noteq> None))"

lemma minus_slot:
  "H - {t. m k = Some t} - {t. \<exists>i. T i \<and> (if i = k then None else m i) = Some t} = H - {t. \<exists>i. (i = k \<or> T i) \<and> m i = Some t}"
proof (intro set_eqI)
  fix x show "(x \<in> H - {t. m k = Some t} - {t. \<exists>i. T i \<and> (if i = k then None else m i) = Some t}) =
      (x \<in> H - {t. \<exists>i. (i = k \<or> T i) \<and> m i = Some t})"
    by (cases "m k = Some x") (simp, blast, simp, metis)
qed

lemma release_step:
  assumes "releasable d (r # rs) w"
  shows "\<exists>w1. release_devres r w = Some w1 \<and> releasable d rs w1 \<and> released d rs w1 = released d (r # rs) w"
proof (cases r)
  case (DR_irqe e)
  then obtain ie where ie: "pw_irqe w e = Some ie" "ie_pdev ie = d" and new: "DR_irqe e \<notin> set rs"
    using assms by (auto simp: releasable_def)
  let ?w1 = "(upd_dev d (\<lambda>v. v\<lparr>pd_irq_tag := (pd_irq_tag v)(ie_idx ie := None), pd_irq_ent := (pd_irq_ent v)(ie_idx ie := None)\<rparr>) w)
    \<lparr>pw_handlers := pw_handlers w - {t. pd_irq_tag (pw_dev w d) (ie_idx ie) = Some t}, pw_irqe := (pw_irqe w)(e := None)\<rparr>"
  have w1: "release_devres r w = Some ?w1"
  proof (cases "pd_irq_tag (pw_dev w d) (ie_idx ie)")
    case None
    then have "(pd_irq_tag (pw_dev w d))(ie_idx ie := None) = pd_irq_tag (pw_dev w d)" by (simp add: fun_upd_idem)
    then show ?thesis using None ie by (simp add: DR_irqe release_devres_def lkpi_platform_irq_teardown_def upd_dev_def)
  next
    case (Some t)
    then have "{t'. t = t'} = {t}" by auto
    then show ?thesis using Some ie by (simp add: DR_irqe release_devres_def lkpi_platform_irq_teardown_def upd_dev_def Let_def)
  qed
  have torn: "torn w (r # rs) i = (i = ie_idx ie \<or> torn ?w1 rs i)" for i
    using ie new by (auto simp: torn_def DR_irqe)
  have "releasable d rs ?w1" using assms new by (auto simp: releasable_def)
  moreover have "released d rs ?w1 = released d (r # rs) w"
  proof (rule platform_world.equality)
    show "pw_dev (released d rs ?w1) = pw_dev (released d (r # rs) w)"
      by (auto simp: released_def torn clear_def fun_eq_iff intro!: platform_device.equality)
    show "pw_handlers (released d rs ?w1) = pw_handlers (released d (r # rs) w)"
      by (simp add: released_def torn minus_slot)
    show "pw_irqe (released d rs ?w1) = pw_irqe (released d (r # rs) w)" by (auto simp: released_def DR_irqe)
  qed (auto simp: released_def DR_irqe rst_count_def)
  ultimately show ?thesis using w1 by blast
next
  case (DR_clk c)
  have "released d rs (clk_release c w) = released d (r # rs) w"
    by (rule platform_world.equality)
      (auto simp: released_def DR_clk clk_release_def rst_count_def fun_eq_iff intro!: platform_device.equality)
  then show ?thesis using assms by (simp add: DR_clk release_devres_def releasable_def clk_release_def)
next
  case (DR_reset a)
  then obtain rc where rc: "pw_reset w a = Some rc" using assms by (auto simp: releasable_def dest: reset_entry_known)
  have "released d rs (hwreset_release (rst_handle rc) w) = released d (r # rs) w"
    by (rule platform_world.equality)
      (auto simp: released_def DR_reset hwreset_release_def rc rst_count_def fun_eq_iff intro!: platform_device.equality)
  then show ?thesis using assms rc by (simp add: DR_reset release_devres_def releasable_def hwreset_release_def)
next
  case (DR_kzalloc a)
  let ?w1 = "w\<lparr>pw_reset := (pw_reset w)(a := None)\<rparr>"
  have new: "DR_kzalloc a \<notin> set rs" "DR_reset a \<notin> set rs" using assms by (simp_all add: releasable_def DR_kzalloc)
  have cnt: "rst_count ?w1 rs h = rst_count w rs h" for h by (rule rst_count_fresh) (use new in auto)
  have "released d rs ?w1 = released d (r # rs) w"
    by (rule platform_world.equality)
      (auto simp: released_def DR_kzalloc cnt fun_eq_iff intro!: platform_device.equality)
  moreover have "releasable d rs ?w1" using assms new by (auto simp: releasable_def DR_kzalloc)
  ultimately show ?thesis by (simp add: DR_kzalloc release_devres_def)
qed

lemma release_all: "releasable d rs w \<Longrightarrow> each release_devres rs w = Some (released d rs w)"
proof (induction rs arbitrary: w)
  case (Cons r rs)
  then obtain w1 where "release_devres r w = Some w1" "releasable d rs w1" "released d rs w1 = released d (r # rs) w"
    using release_step by metis
  then show ?case using Cons.IH by simp
qed (simp add: released_Nil)

section \<open>The end of a device\<close>

lemma each_bus_release:
  assumes "\<forall>i \<in> set is. f i \<noteq> None"
  shows "each (\<lambda>i. bus_release d (f i)) is w = Some (w\<lparr>pw_res := pw_res w - mset (map (\<lambda>i. (d, the (f i))) is)\<rparr>)"
  using assms
proof (induction "is" arbitrary: w)
  case (Cons i "is")
  then obtain r where "f i = Some r" by auto
  then show ?case using Cons by (simp add: bus_release_def diff_diff_add)
qed simp

lemma release_resources_held:
  assumes "\<forall>i < pd_nirq (pw_dev w d). pd_irq (pw_dev w d) i \<noteq> None" "\<forall>i < pd_nmem (pw_dev w d). pd_mem (pw_dev w d) i \<noteq> None"
  shows "release_resources d w = Some ((upd_dev d (\<lambda>v. v\<lparr>pd_magic := 0\<rparr>) w)\<lparr>pw_res := pw_res w - held_res d (pw_dev w d)\<rparr>)"
  using assms by (simp add: release_resources_def each_bus_release Let_def held_res_def diff_diff_add upd_dev_def)

text \<open>Everything but the handlers and their descriptors is as in \<open>w0\<close>.\<close>

definition given_back :: "platform_world \<Rightarrow> platform_world \<Rightarrow> bool" where
  "given_back w0 w = (pw_list w = pw_list w0 \<and> pw_res w = pw_res w0 \<and> pw_privs w = pw_privs w0 \<and> pw_clk w = pw_clk w0 \<and>
     pw_rst w = pw_rst w0 \<and> pw_reset w = pw_reset w0)"

text \<open>Descriptors of \<open>request_irq\<close> (not \<open>devm_request_irq\<close>) since \<open>w0\<close> that were not freed.\<close>

definition left :: "platform_world \<Rightarrow> platform_world \<Rightarrow> nat set" where
  "left w0 w = {e. pw_next w0 \<le> e \<and> (\<exists>ie. pw_irqe w e = Some ie \<and> \<not> ie_devres ie)}"

definition wind_up :: "nat \<Rightarrow> platform_world \<Rightarrow> platform_world option" where
  "wind_up d w = do { w1 \<leftarrow> put_device d (lkpi_platform_dma_fini d (lkpi_platform_unpublish d w)); release_resources d w1 }"

lemma wind_up_spec:
  assumes frame: "frame_ok w0 d w" and dr: "devres_ok w0 d w" and res: "res_ok w0 d w" and bound: "bound_ok w0 d w"
    and base: "fresh_ok w0" "d \<notin> set (pw_list w0)"
    and ie: "\<And>e ie. pw_next w0 \<le> e \<Longrightarrow> pw_irqe w e = Some ie \<Longrightarrow> ie_devres ie \<Longrightarrow> DR_irqe e \<in> set (pd_devres (pw_dev w d))"
  shows "\<exists>w'. wind_up d w = Some w' \<and> given_back w0 w' \<and> pw_tags w' = pw_tags w0 \<and> pd_magic (pw_dev w' d) = 0 \<and>
    left w0 w' = {e. pw_next w0 \<le> e \<and> pw_irqe w' e \<noteq> None} \<and>
    pw_irqe w' = (\<lambda>e. if DR_irqe e \<in> set (pd_devres (pw_dev w d)) then None else pw_irqe w e) \<and>
    pw_handlers w' = pw_handlers w - {t. \<exists>i. torn w (pd_devres (pw_dev w d)) i \<and> pd_irq_tag (pw_dev w d) i = Some t}"
proof -
  let ?v = "pw_dev w d" and ?rs = "pd_devres (pw_dev w d)"
  note fr = frameD [OF frame] and d = devresD [OF dr]
  let ?u = "upd_dev d (\<lambda>v. v\<lparr>pd_dma_priv := None, pd_kref := 0\<rparr>)
    (w\<lparr>pw_list := pw_list w0, pw_tags := pw_tags w0, pw_privs := pw_privs w0\<rparr>)"
  have "removeAll d (pw_list w) = pw_list w0" using bound base(2) by (simp add: bound_ok_def Let_def)
  then have put: "put_device d (lkpi_platform_dma_fini d (lkpi_platform_unpublish d w)) = lkpi_platform_dev_release d ?u"
    using bound by (simp add: bound_ok_def Let_def put_device_def lkpi_platform_dma_fini_def lkpi_platform_unpublish_def upd_dev_def)
  have "releasable d ?rs ?u" using d(1,3) by (auto simp: releasable_def dest!: d(2))
  from release_all [OF this] have "lkpi_platform_dev_release d ?u = Some (upd_dev d (\<lambda>v. v\<lparr>pd_devres := []\<rparr>) (released d ?rs ?u))"
    by (simp add: lkpi_platform_dev_release_def)
  moreover have rel: "release_resources d (upd_dev d (\<lambda>v. v\<lparr>pd_devres := []\<rparr>) (released d ?rs ?u)) =
      Some ((upd_dev d (\<lambda>v. v\<lparr>pd_devres := [], pd_magic := 0\<rparr>) (released d ?rs ?u))\<lparr>pw_res := pw_res w0\<rparr>)"
    using res by (subst release_resources_held) (simp_all add: res_ok_def Let_def released_def held_res_def upd_dev_def)
  ultimately have w': "wind_up d w = Some ((upd_dev d (\<lambda>v. v\<lparr>pd_devres := [], pd_magic := 0\<rparr>) (released d ?rs ?u))\<lparr>pw_res := pw_res w0\<rparr>)"
    (is "_ = Some ?w'") by (simp add: wind_up_def put)
  have cnt: "rst_count ?u ?rs h = rst_count w ?rs h" for h by (rule rst_count_fresh) simp
  have torn: "torn ?u ?rs = torn w ?rs" by (simp add: torn_def fun_eq_iff)
  have "pw_reset ?w' a = pw_reset w0 a" for a
    using d(3) [of a] fr(7) [of a] base(1) by (cases "a < pw_next w0") (auto simp: released_def fresh_ok_def)
  then have "given_back w0 ?w'"
    using d(4,5) by (simp add: given_back_def released_def cnt fun_eq_iff)
  moreover have "left w0 ?w' = {e. pw_next w0 \<le> e \<and> pw_irqe ?w' e \<noteq> None}"
    using ie by (auto simp: left_def released_def)
  moreover have "pw_handlers ?w' = pw_handlers w - {t. \<exists>i. torn w ?rs i \<and> pd_irq_tag ?v i = Some t}"
    by (simp add: released_def torn)
  moreover have "pw_irqe ?w' = (\<lambda>e. if DR_irqe e \<in> set ?rs then None else pw_irqe w e)" by (auto simp: released_def)
  moreover have "pw_tags ?w' = pw_tags w0" "pd_magic (pw_dev ?w' d) = 0" by (simp_all add: released_def)
  ultimately show ?thesis using w' by blast
qed

end
