(* ===== verification/Platform_Attach.thy ===== *)
theory Platform_Attach
  imports Platform_Spec
begin

text \<open>
  The properties of the platform bridge: tokens, an attach whether it succeeds or fails, and any
  run of the driver after it. The witnesses are in \<open>Platform_Detach\<close>.
\<close>

section \<open>Attach\<close>

text \<open>What a loop finds, and the arrays filled with it.\<close>

fun found :: "(nat \<Rightarrow> nat option) \<Rightarrow> nat \<Rightarrow> nat \<Rightarrow> nat list" where
  "found alloc 0 i = []"
| "found alloc (Suc n) i = (case alloc i of None \<Rightarrow> [] | Some r \<Rightarrow> r # found alloc n (Suc i))"

fun store_all :: "(nat \<Rightarrow> nat \<Rightarrow> 'v \<Rightarrow> 'v) \<Rightarrow> nat \<Rightarrow> nat list \<Rightarrow> 'v \<Rightarrow> 'v" where
  "store_all store i [] v = v"
| "store_all store i (r # rs) v = store_all store (Suc i) rs (store i r v)"

definition slot :: "nat \<Rightarrow> nat \<Rightarrow> (nat \<Rightarrow> nat option) \<Rightarrow> nat \<Rightarrow> nat option" where
  "slot i r m = m(i \<mapsto> r)"

lemma found_length: "List.length (found alloc n i) \<le> n"
  by (induction n arbitrary: i) (auto split: option.split)

lemma alloc_loop_eq: "alloc_loop alloc store d n i w =
    (upd_dev d (store_all store i (found alloc n i)) w)\<lparr>pw_res := pw_res w + mset (map (Pair d) (found alloc n i))\<rparr>"
  by (induction n arbitrary: i w) (auto simp: upd_dev_def split: option.split)

lemma store_all_fields:
  "store_all store_mem i rs v = v\<lparr>pd_mem := store_all slot i rs (pd_mem v), pd_nmem := if rs = [] then pd_nmem v else i + List.length rs\<rparr>"
  "store_all store_irq i rs v = v\<lparr>pd_irq := store_all slot i rs (pd_irq v), pd_nirq := if rs = [] then pd_nirq v else i + List.length rs\<rparr>"
  by (induction rs arbitrary: i v) (simp_all add: store_mem_def store_irq_def slot_def)

lemma slot_lookup: "store_all slot i rs m j = (if i \<le> j \<and> j < i + List.length rs then Some (rs ! (j - i)) else m j)"
  by (induction rs arbitrary: i m) (auto simp: slot_def nth_Cons' Suc_le_eq)

lemma slots_held: "map (\<lambda>i. (d, the (store_all slot 0 rs m i))) [0..<List.length rs] = map (Pair d) rs"
  by (rule nth_equalityI) (simp_all add: slot_lookup)

text \<open>The world when the resources are held and nothing else has happened.\<close>

definition allocated :: "bus_env \<Rightarrow> nat \<Rightarrow> platform_driver \<Rightarrow> platform_world \<Rightarrow> platform_world" where
  "allocated env d drv w =
     (let w0 = upd_dev d (\<lambda>_. blank_pdev\<lparr>pd_magic := LKPI_PLATFORM_DEVICE_MAGIC, pd_id := be_unit env, pd_node := be_node env,
            pd_of_id := lkpi_platform_of_match env (dr_of_match_table drv), pd_link := True\<rparr>) w;
          w1 = alloc_loop (be_alloc env SYS_RES_MEMORY) store_mem d LKPI_PLATFORM_MAX_MEM 0 w0
      in alloc_loop (be_alloc env SYS_RES_IRQ) store_irq d LKPI_PLATFORM_MAX_IRQ 0 w1)"

lemma allocated_spec:
  obtains v where "allocated env d drv w = (upd_dev d (\<lambda>_. v) w)\<lparr>pw_res := pw_res w + held_res d v\<rparr>"
    "\<forall>i < pd_nirq v. pd_irq v i \<noteq> None" "\<forall>i < pd_nmem v. pd_mem v i \<noteq> None" "pd_nirq v \<le> LKPI_PLATFORM_MAX_IRQ"
    "pd_nmem v \<le> LKPI_PLATFORM_MAX_MEM" "pd_magic v = LKPI_PLATFORM_DEVICE_MAGIC" "pd_link v" "pd_irq_tag v = Map.empty"
    "pd_irq_ent v = Map.empty" "pd_devres v = []" "pd_dma_priv v = None" "pd_kref v = 0"
    "pd_of_id v = lkpi_platform_of_match env (dr_of_match_table drv)"
proof -
  let ?ms = "found (be_alloc env SYS_RES_MEMORY) LKPI_PLATFORM_MAX_MEM 0"
  let ?is = "found (be_alloc env SYS_RES_IRQ) LKPI_PLATFORM_MAX_IRQ 0"
  let ?v = "blank_pdev\<lparr>pd_magic := LKPI_PLATFORM_DEVICE_MAGIC, pd_id := be_unit env, pd_node := be_node env,
      pd_of_id := lkpi_platform_of_match env (dr_of_match_table drv), pd_link := True,
      pd_mem := store_all slot 0 ?ms Map.empty, pd_nmem := List.length ?ms,
      pd_irq := store_all slot 0 ?is Map.empty, pd_nirq := List.length ?is\<rparr>"
  have "held_res d ?v = mset (map (Pair d) ?is) + mset (map (Pair d) ?ms)"
    by (simp add: held_res_def slots_held del: mset_map)
  then have "allocated env d drv w = (upd_dev d (\<lambda>_. ?v) w)\<lparr>pw_res := pw_res w + held_res d ?v\<rparr>"
    by (simp add: allocated_def Let_def alloc_loop_eq store_all_fields upd_dev_def blank_pdev_def ac_simps)
  then show thesis by (rule that) (simp_all add: slot_lookup found_length blank_pdev_def)
qed

text \<open>The device with its kobject, with its DMA tags as well, and in the registry.\<close>

definition born :: "platform_device \<Rightarrow> platform_device" where
  "born v = v\<lparr>pd_kref := 1, pd_bsddev := True, pd_dev_irq := None, pd_devres := []\<rparr>"

definition with_dma :: "platform_device \<Rightarrow> platform_device" where
  "with_dma v = (born v)\<lparr>pd_dma_priv := Some \<lparr>dp_dmat = True, dp_dmat_coherent = True, dp_lock = True\<rparr>\<rparr>"

definition ready :: "nat \<Rightarrow> platform_device \<Rightarrow> platform_world \<Rightarrow> platform_world" where
  "ready d v w = (upd_dev d (\<lambda>_. with_dma v) w)\<lparr>pw_list := d # pw_list w, pw_res := pw_res w + held_res d v, pw_tags := pw_tags w + 2,
     pw_privs := pw_privs w + 1\<rparr>"

text \<open>Tags that a failing \<open>lkpi_platform_dma_init\<close> leaves behind.\<close>

definition dma_leak :: "bus_env \<Rightarrow> int" where
  "dma_leak env = (if be_dma_tag env \<noteq> OK then 0 else if be_dma_tag_coherent env \<noteq> OK then 1 else if be_layout env then 0 else 2)"

definition dma_result :: "bus_env \<Rightarrow> rc" where
  "dma_result env = (case be_dma_tag env of E e \<Rightarrow> E e | OK \<Rightarrow>
     (case be_dma_tag_coherent env of E e \<Rightarrow> E e | OK \<Rightarrow> if be_layout env then OK else E ENXIO))"

lemma dma_init_rc: "fst (lkpi_platform_dma_init env d w) = dma_result env"
proof (cases "be_dma_tag env")
  case OK
  then show ?thesis by (cases "be_dma_tag_coherent env") (simp_all add: lkpi_platform_dma_init_def dma_result_def Let_def)
qed (simp add: lkpi_platform_dma_init_def dma_result_def Let_def)

lemma dma_init_spec:
  assumes "pd_dma_priv (pw_dev w d) = None" and "lkpi_platform_dma_init env d w = (r, w')"
  shows "(r = OK) = (be_dma_tag env = OK \<and> be_dma_tag_coherent env = OK \<and> be_layout env)"
    "w' = (if r = OK then (upd_dev d (\<lambda>v. v\<lparr>pd_dma_priv := Some \<lparr>dp_dmat = True, dp_dmat_coherent = True, dp_lock = True\<rparr>\<rparr>) w)
        \<lparr>pw_tags := pw_tags w + 2, pw_privs := pw_privs w + 1\<rparr>
      else w\<lparr>pw_tags := pw_tags w + dma_leak env\<rparr>)"
proof -
  have none: "(pw_dev w d)\<lparr>pd_dma_priv := None\<rparr> = pw_dev w d" using assms(1) by (cases "pw_dev w d") simp
  show "(r = OK) = (be_dma_tag env = OK \<and> be_dma_tag_coherent env = OK \<and> be_layout env)"
    using assms(2) by (cases "be_dma_tag env"; cases "be_dma_tag_coherent env")
      (auto simp: lkpi_platform_dma_init_def Let_def split: if_splits)
  show "w' = (if r = OK then (upd_dev d (\<lambda>v. v\<lparr>pd_dma_priv := Some \<lparr>dp_dmat = True, dp_dmat_coherent = True, dp_lock = True\<rparr>\<rparr>) w)
        \<lparr>pw_tags := pw_tags w + 2, pw_privs := pw_privs w + 1\<rparr>
      else w\<lparr>pw_tags := pw_tags w + dma_leak env\<rparr>)"
    using assms(2) by (cases "be_dma_tag env"; cases "be_dma_tag_coherent env")
      (auto simp: lkpi_platform_dma_init_def Let_def dma_leak_def upd_dev_def none split: if_splits)
qed

lemma ready_life:
  assumes base: "fresh_ok w" and v: "\<forall>i < pd_nirq v. pd_irq v i \<noteq> None" "\<forall>i < pd_nmem v. pd_mem v i \<noteq> None"
    "pd_nirq v \<le> LKPI_PLATFORM_MAX_IRQ" "pd_nmem v \<le> LKPI_PLATFORM_MAX_MEM" "pd_magic v = LKPI_PLATFORM_DEVICE_MAGIC" "pd_link v"
    "pd_irq_tag v = Map.empty" "pd_irq_ent v = Map.empty"
  shows "life w d (ready d v w)"
proof -
  have "frame_ok w d (ready d v w)" using base by (simp add: frame_ok_def fresh_ok_def ready_def)
  moreover have "irq_ok w d (ready d v w)"
    using base v by (auto simp: irq_ok_def ready_def Let_def with_dma_def born_def fresh_ok_def)
  moreover have "devres_ok w d (ready d v w)"
    using base by (auto simp: devres_ok_def ready_def Let_def with_dma_def born_def fresh_ok_def)
  moreover have "res_ok w d (ready d v w)" using v by (simp add: res_ok_def ready_def Let_def with_dma_def born_def held_res_def)
  moreover have "bound_ok w d (ready d v w)" using v by (simp add: bound_ok_def ready_def Let_def with_dma_def born_def)
  ultimately show ?thesis by (simp add: life_def)
qed

text \<open>The resources a device holds are given back, whatever else was done to it; the exit of an attach whose DMA set-up failed.\<close>

lemma release_held_eq:
  assumes "\<forall>i < pd_nirq v. pd_irq v i \<noteq> None" "\<forall>i < pd_nmem v. pd_mem v i \<noteq> None"
    and "pd_nirq (pw_dev u d) = pd_nirq v" "pd_irq (pw_dev u d) = pd_irq v" "pd_nmem (pw_dev u d) = pd_nmem v" "pd_mem (pw_dev u d) = pd_mem v"
  shows "release_resources d (u\<lparr>pw_res := res + held_res d v\<rparr>) = Some ((upd_dev d (\<lambda>v. v\<lparr>pd_magic := 0\<rparr>) u)\<lparr>pw_res := res\<rparr>)"
proof -
  have "held_res d (pw_dev u d) = held_res d v" using assms by (simp add: held_res_def)
  then show ?thesis using assms by (subst release_resources_held) (simp_all add: upd_dev_def)
qed

lemma attach_dma_fails:
  assumes v: "\<forall>i < pd_nirq v. pd_irq v i \<noteq> None" "\<forall>i < pd_nmem v. pd_mem v i \<noteq> None" "pd_dma_priv v = None"
    and w4: "w4 = (upd_dev d (\<lambda>_. born v) w)\<lparr>pw_res := pw_res w + held_res d v, pw_tags := pw_tags w + tags\<rparr>"
  shows "do { w5 \<leftarrow> put_device d (lkpi_platform_dma_fini d w4); w' \<leftarrow> release_resources d w5; Some (E e, w') } =
    Some (E e, (upd_dev d (\<lambda>_. (born v)\<lparr>pd_kref := 0, pd_magic := 0\<rparr>) w)\<lparr>pw_tags := pw_tags w + tags\<rparr>)"
proof -
  let ?u = "upd_dev d (\<lambda>_. (born v)\<lparr>pd_kref := 0\<rparr>) (w\<lparr>pw_tags := pw_tags w + tags\<rparr>)"
  have comm: "v\<lparr>pd_bsddev := True, pd_dev_irq := None, pd_kref := 0, pd_devres := []\<rparr> = (born v)\<lparr>pd_kref := 0\<rparr>"
    by (rule platform_device.equality) (simp_all add: born_def)
  have "put_device d (lkpi_platform_dma_fini d w4) = Some (?u\<lparr>pw_res := pw_res w + held_res d v\<rparr>)"
    using v(3) unfolding w4 comm [symmetric]
    by (simp add: lkpi_platform_dma_fini_def put_device_def lkpi_platform_dev_release_def born_def upd_dev_def)
  moreover have "release_resources d (?u\<lparr>pw_res := pw_res w + held_res d v\<rparr>) = Some ((upd_dev d (\<lambda>v. v\<lparr>pd_magic := 0\<rparr>) ?u)\<lparr>pw_res := pw_res w\<rparr>)"
    by (rule release_held_eq [OF v(1,2)]) (simp_all add: born_def upd_dev_def)
  ultimately show ?thesis by (simp add: born_def upd_dev_def)
qed

text \<open>The three ends of an attach that reaches the driver or fails before it.\<close>

lemma attach_eq:
  assumes probe: "dr_probe drv = Some probe"
  obtains v where "allocated env d drv w = (upd_dev d (\<lambda>_. v) w)\<lparr>pw_res := pw_res w + held_res d v\<rparr>"
    "fresh_ok w \<Longrightarrow> life w d (ready d v w)" "pd_of_id v = lkpi_platform_of_match env (dr_of_match_table drv)"
    "pd_magic v = LKPI_PLATFORM_DEVICE_MAGIC"
    "lkpi_platform_bus_attach env d drv w =
      (if be_kobject env \<noteq> OK then
         Some (E ENOMEM, (upd_dev d (\<lambda>_. v\<lparr>pd_magic := 0\<rparr>) w))
       else if be_dma_tag env \<noteq> OK \<or> be_dma_tag_coherent env \<noteq> OK \<or> \<not> be_layout env then
         Some (dma_result env, (upd_dev d (\<lambda>_. (born v)\<lparr>pd_kref := 0, pd_magic := 0\<rparr>) w)\<lparr>pw_tags := pw_tags w + dma_leak env\<rparr>)
       else do {
         (r, w5) \<leftarrow> probe d (ready d v w);
         (case r of OK \<Rightarrow> Some (OK, w5) | E e \<Rightarrow> do { w6 \<leftarrow> wind_up d w5; Some (E e, w6) }) })"
proof -
  obtain v where a: "allocated env d drv w = (upd_dev d (\<lambda>_. v) w)\<lparr>pw_res := pw_res w + held_res d v\<rparr>"
    and v: "\<forall>i < pd_nirq v. pd_irq v i \<noteq> None" "\<forall>i < pd_nmem v. pd_mem v i \<noteq> None" "pd_nirq v \<le> LKPI_PLATFORM_MAX_IRQ"
    "pd_nmem v \<le> LKPI_PLATFORM_MAX_MEM" "pd_magic v = LKPI_PLATFORM_DEVICE_MAGIC" "pd_link v" "pd_irq_tag v = Map.empty"
    "pd_irq_ent v = Map.empty" "pd_devres v = []" "pd_dma_priv v = None" "pd_kref v = 0"
    "pd_of_id v = lkpi_platform_of_match env (dr_of_match_table drv)"
    by (rule allocated_spec [of env d drv w])
  let ?a = "allocated env d drv w"
  let ?w3 = "upd_dev d (\<lambda>v. v\<lparr>pd_kref := 1, pd_bsddev := True, pd_dev_irq := None, pd_devres := []\<rparr>) ?a"
  have w3: "?w3 = (upd_dev d (\<lambda>_. born v) w)\<lparr>pw_res := pw_res w + held_res d v\<rparr>" by (simp add: a upd_dev_def born_def)
  have attach: "lkpi_platform_bus_attach env d drv w =
     (case be_kobject env of E _ \<Rightarrow> do { w' \<leftarrow> release_resources d ?a; Some (E ENOMEM, w') } | OK \<Rightarrow>
      (case lkpi_platform_dma_init env d ?w3 of
        (E e, w4) \<Rightarrow> do { w5 \<leftarrow> put_device d (lkpi_platform_dma_fini d w4); w' \<leftarrow> release_resources d w5; Some (E e, w') }
      | (OK, w4) \<Rightarrow> do {
          (r, w5) \<leftarrow> probe d (lkpi_platform_publish d w4);
          (case r of
             OK \<Rightarrow> Some (OK, w5)
           | E e \<Rightarrow> do {
               w6 \<leftarrow> put_device d (lkpi_platform_dma_fini d (lkpi_platform_unpublish d w5));
               w' \<leftarrow> release_resources d w6; Some (E e, w') }) }))"
    unfolding lkpi_platform_bus_attach_def probe allocated_def Let_def option.case ..
  have life: "fresh_ok w \<Longrightarrow> life w d (ready d v w)" using ready_life v by blast
  obtain r w4 where dma: "lkpi_platform_dma_init env d ?w3 = (r, w4)" by fastforce
  have r: "dma_result env = r" using dma dma_init_rc [of env d ?w3] by simp
  have none: "pd_dma_priv (pw_dev ?w3 d) = None" using v(10) unfolding w3 by (simp add: born_def)
  note init = dma_init_spec [OF none dma]
  have eq: "lkpi_platform_bus_attach env d drv w =
      (if be_kobject env \<noteq> OK then
         Some (E ENOMEM, (upd_dev d (\<lambda>_. v\<lparr>pd_magic := 0\<rparr>) w))
       else if be_dma_tag env \<noteq> OK \<or> be_dma_tag_coherent env \<noteq> OK \<or> \<not> be_layout env then
         Some (dma_result env, (upd_dev d (\<lambda>_. (born v)\<lparr>pd_kref := 0, pd_magic := 0\<rparr>) w)\<lparr>pw_tags := pw_tags w + dma_leak env\<rparr>)
       else do {
         (r, w5) \<leftarrow> probe d (ready d v w);
         (case r of OK \<Rightarrow> Some (OK, w5) | E e \<Rightarrow> do { w6 \<leftarrow> wind_up d w5; Some (E e, w6) }) })"
  proof (cases "be_kobject env")
    case (E e)
    then show ?thesis using release_held_eq [OF v(1,2), of "upd_dev d (\<lambda>_. v) w" d "pw_res w"] by (simp add: attach a upd_dev_def)
  next
    case kobj: OK
    show ?thesis
    proof (cases r)
      case (E e)
      have w4: "w4 = (upd_dev d (\<lambda>_. born v) w)\<lparr>pw_res := pw_res w + held_res d v, pw_tags := pw_tags w + dma_leak env\<rparr>"
        using init(2) E unfolding w3 by simp
      have "lkpi_platform_bus_attach env d drv w =
          Some (E e, (upd_dev d (\<lambda>_. (born v)\<lparr>pd_kref := 0, pd_magic := 0\<rparr>) w)\<lparr>pw_tags := pw_tags w + dma_leak env\<rparr>)"
        unfolding attach kobj rc.case dma E prod.case attach_dma_fails [OF v(1,2,10) w4] ..
      then show ?thesis using init(1) E by (auto simp: r kobj)
    next
      case OK
      have "lkpi_platform_publish d w4 = ready d v w"
        using init(2) OK unfolding w3 by (simp add: lkpi_platform_publish_def ready_def upd_dev_def with_dma_def)
      then show ?thesis using init(1) OK unfolding attach kobj rc.case dma OK prod.case wind_up_def bind_assoc by simp
    qed
  qed
  show thesis by (rule that [OF a life v(12,5) eq])
qed

section \<open>Properties\<close>

text \<open>
  The scan of a match table is the search of a list: the first entry before the terminator whose
  \<open>compatible\<close> string the device has, and nothing for a null table or a null predicate.
\<close>

theorem lkpi_platform_of_match_scan_is_find:
  "lkpi_platform_of_match_scan tbl compat_fn =
     (case (tbl, compat_fn) of
        (Some t, Some f) \<Rightarrow> find (\<lambda>e. f (oid_compatible e)) (takeWhile (\<lambda>e. oid_compatible e \<noteq> '''') t)
      | _ \<Rightarrow> None)"
  by (simp add: lkpi_platform_of_match_scan_def of_match_loop_find split: option.split)

text \<open>
  C27: The number \<open>platform_get_irq\<close> hands out is either an error or, exactly for an interrupt the device
  holds, a token: a positive \<open>int\<close> (drivers test for a negative one), recognised as a token, that carries the index
  and the low twelve bits of the unit.
\<close>

theorem lkpi_platform_get_irq_type:
  assumes "pd_nirq (pw_dev w d) \<le> LKPI_PLATFORM_MAX_IRQ"
  shows "case lkpi_platform_get_irq (Some d) num w of
      Inl e \<Rightarrow> e = ENXIO \<and> (pd_nirq (pw_dev w d) \<le> num \<or> pd_irq (pw_dev w d) num = None)
    | Inr irq \<Rightarrow> num < pd_nirq (pw_dev w d) \<and> pd_irq (pw_dev w d) num \<noteq> None \<and> 0 < sint irq \<and> LKPI_PLATFORM_IRQ_IS_TOKEN irq \<and>
        unat (LKPI_PLATFORM_IRQ_INDEX irq) = num \<and> LKPI_PLATFORM_IRQ_UNIT irq = pd_id (pw_dev w d) AND 0xfff"
proof (cases "num < pd_nirq (pw_dev w d) \<and> pd_irq (pw_dev w d) num \<noteq> None")
  case True
  then have n: "num < 256" using assms by (simp add: LKPI_PLATFORM_MAX_IRQ_def)
  then have "unat (of_nat num :: u32) = num" by (intro unat_of_nat_u32) simp
  then show ?thesis using True token_unat [OF n] by (simp add: lkpi_platform_get_irq_def Let_def token_positive token_fields(1,3))
next
  case False
  then show ?thesis by (auto simp: lkpi_platform_get_irq_def Let_def)
qed

text \<open>A driver's callback returns, and makes only steps of a driver.\<close>

definition behaves :: "nat \<Rightarrow> (platform_world \<Rightarrow> (rc \<times> platform_world) option) \<Rightarrow> bool" where
  "behaves d f = (\<forall>w. \<exists>r w'. f w = Some (r, w') \<and> drv_run d w w')"

lemma attach_reaches_probe:
  assumes probe: "dr_probe drv = Some probe" and b: "behaves d (probe d)" and base: "fresh_ok w0"
  obtains v where "be_kobject env \<noteq> OK \<or> dma_result env \<noteq> OK" "dma_result env = OK \<longrightarrow> be_kobject env \<noteq> OK"
    "lkpi_platform_bus_attach env d drv w0 =
       Some (if be_kobject env = OK then dma_result env else E ENOMEM, (upd_dev d (\<lambda>_. v\<lparr>pd_magic := 0\<rparr>) w0)
         \<lparr>pw_tags := pw_tags w0 + (if be_kobject env = OK then dma_leak env else 0)\<rparr>)"
  | r w5 where "be_kobject env = OK" "dma_leak env = 0" "life w0 d w5"
    "lkpi_platform_bus_attach env d drv w0 =
       (case r of OK \<Rightarrow> Some (OK, w5) | E e \<Rightarrow> do { w6 \<leftarrow> wind_up d w5; Some (E e, w6) })"
proof (rule attach_eq [OF probe, of env d w0])
  fix v
  assume "fresh_ok w0 \<Longrightarrow> life w0 d (ready d v w0)" and eq: "lkpi_platform_bus_attach env d drv w0 =
      (if be_kobject env \<noteq> OK then
         Some (E ENOMEM, (upd_dev d (\<lambda>_. v\<lparr>pd_magic := 0\<rparr>) w0))
       else if be_dma_tag env \<noteq> OK \<or> be_dma_tag_coherent env \<noteq> OK \<or> \<not> be_layout env then
         Some (dma_result env, (upd_dev d (\<lambda>_. (born v)\<lparr>pd_kref := 0, pd_magic := 0\<rparr>) w0)\<lparr>pw_tags := pw_tags w0 + dma_leak env\<rparr>)
       else do {
         (r, w5) \<leftarrow> probe d (ready d v w0);
         (case r of OK \<Rightarrow> Some (OK, w5) | E e \<Rightarrow> do { w6 \<leftarrow> wind_up d w5; Some (E e, w6) }) })"
  then have l: "life w0 d (ready d v w0)" using base by blast
  have bad: "(be_dma_tag env \<noteq> OK \<or> be_dma_tag_coherent env \<noteq> OK \<or> \<not> be_layout env) = (dma_result env \<noteq> OK)"
    by (auto simp: dma_result_def split: rc.split)
  show thesis
  proof (cases "be_kobject env \<noteq> OK \<or> dma_result env \<noteq> OK")
    case True
    let ?v = "if be_kobject env = OK then (born v)\<lparr>pd_kref := 0\<rparr> else v"
    have "lkpi_platform_bus_attach env d drv w0 =
       Some (if be_kobject env = OK then dma_result env else E ENOMEM, (upd_dev d (\<lambda>_. ?v\<lparr>pd_magic := 0\<rparr>) w0)
         \<lparr>pw_tags := pw_tags w0 + (if be_kobject env = OK then dma_leak env else 0)\<rparr>)"
      using True unfolding eq bad by (cases "be_kobject env") (simp_all add: upd_dev_def)
    then show thesis using True that(1) by metis
  next
    case False
    obtain r w5 where p: "probe d (ready d v w0) = Some (r, w5)" "drv_run d (ready d v w0) w5"
      using b [unfolded behaves_def, rule_format, of "ready d v w0"] by blast
    have "dma_leak env = 0" using False bad by (auto simp: dma_leak_def)
    then show thesis using False run_life [OF p(2) l base] that(2) [of w5 r] unfolding eq bad by (simp add: p)
  qed
qed

lemma attach_ok_life:
  assumes "lkpi_platform_bus_attach env d drv w = Some (OK, w1)" and "dr_probe drv = Some probe" and "behaves d (probe d)"
    and "fresh_ok w"
  shows "life w d w1"
proof (rule attach_reaches_probe [OF assms(2-4), of env])
  fix r w5
  assume "life w d w5" "lkpi_platform_bus_attach env d drv w =
       (case r of OK \<Rightarrow> Some (OK, w5) | E e \<Rightarrow> do { w6 \<leftarrow> wind_up d w5; Some (E e, w6) })"
  then show ?thesis using assms(1) by (cases r; cases "wind_up d w5") simp_all
qed (use assms(1) in \<open>auto split: if_splits\<close>)

text \<open>
  C28: Between attach and detach, whatever a driver requests, frees and enables and in whatever order: every
  installed handler has its descriptor allocated and sits in the one slot it was requested for, the device holds
  each resource once, and each clock or reset handle taken is on the list that gives it back.
\<close>

theorem platform_driver_run_invariant:
  assumes "lkpi_platform_bus_attach env d drv w0 = Some (OK, w1)" and "dr_probe drv = Some probe" and "behaves d (probe d)"
    and "fresh_ok w0" and "drv_run d w1 w"
  shows "life w0 d w \<and> (\<forall>e \<in> pw_handlers w - pw_handlers w0. \<exists>ie. pw_irqe w e = Some ie \<and> ie_pdev ie = d \<and>
    pd_irq_tag (pw_dev w d) (ie_idx ie) = Some e \<and> ie_idx ie < pd_nirq (pw_dev w d))"
proof -
  have l: "life w0 d w" by (rule run_life [OF assms(5) attach_ok_life [OF assms(1-4)] assms(4)])
  note ir = irqD [OF lifeD(2) [OF l]]
  have "\<exists>ie. pw_irqe w e = Some ie \<and> ie_pdev ie = d \<and> pd_irq_tag (pw_dev w d) (ie_idx ie) = Some e \<and> ie_idx ie < pd_nirq (pw_dev w d)"
    if "e \<in> pw_handlers w - pw_handlers w0" for e
  proof -
    obtain i where i: "pd_irq_tag (pw_dev w d) i = Some e" using \<open>e \<in> _\<close> ir(3) by (auto simp: ran_def)
    from ir(2) [OF i] show ?thesis using i by auto
  qed
  with l show ?thesis by blast
qed

text \<open>
  C29: The number an attached device hands out leads back to it: a request for it, with or without the device,
  installs the handler on that interrupt of that device, an interrupt runs that handler with
  its argument, a second request is refused as busy, and freeing it takes the handler off again.
\<close>

theorem platform_irq_reaches_handler:
  assumes "lkpi_platform_bus_attach env d drv w0 = Some (OK, w1)" and "dr_probe drv = Some probe" and "behaves d (probe d)"
    and "fresh_ok w0" and "drv_run d w1 w"
    and irq: "lkpi_platform_get_irq (Some d) num w = Inr irq" and x: "xdev = None \<or> xdev = Some d"
    and slot: "pd_irq_tag (pw_dev w d) num = None" and ok: "re_alloc re" "re_setup re = OK"
  shows "\<exists>w' e ie. lkpi_platform_request_irq re xdev irq (Some h) th arg w = (OK, w') \<and>
    pw_handlers w' = insert e (pw_handlers w) \<and> e \<notin> pw_handlers w \<and> pd_irq_tag (pw_dev w' d) num = Some e \<and> pw_irqe w' e = Some ie \<and>
    lkpi_platform_irq_trampoline True (\<lambda>_. IRQ_HANDLED_T) ie = [(h, irq, arg)] \<and>
    (\<forall>re' h'. lkpi_platform_request_irq re' xdev irq (Some h') th arg w' = (E EBUSY, w')) \<and>
    (\<exists>w''. lkpi_platform_free_irq xdev irq w' = Some w'' \<and> pw_handlers w'' = pw_handlers w \<and> pd_irq_tag (pw_dev w'' d) num = None)"
proof -
  have l: "life w0 d w" by (rule run_life [OF assms(5) attach_ok_life [OF assms(1-4)] assms(4)])
  let ?w' = "installed d xdev irq h th arg num w"
  have new: "pw_next w \<notin> pw_handlers w" using frameD(4) [OF lifeD(1) [OF l]] by blast
  have l': "life w0 d ?w'" by (rule life_installed [OF l get_irq_target(3) [OF l irq x] slot])
  have irq': "lkpi_platform_get_irq (Some d) num ?w' = Inr irq" using irq by (auto simp: lkpi_platform_get_irq_def installed_def Let_def split: if_splits)
  have slot': "pd_irq_tag (pw_dev ?w' d) num = Some (pw_next w)" by (simp add: installed_def Let_def)
  have free: "\<exists>w''. lkpi_platform_free_irq xdev irq ?w' = Some w'' \<and> pw_handlers w'' = pw_handlers w \<and> pd_irq_tag (pw_dev w'' d) num = None"
    unfolding free_eq [OF l' irq' x] slot' using new by (simp add: installed_def Let_def)
  have busy: "lkpi_platform_request_irq re' xdev irq (Some h') th arg ?w' = (E EBUSY, ?w')" for re' h'
    unfolding request_eq [OF l' irq' x] by (simp add: slot')
  have req: "lkpi_platform_request_irq re xdev irq (Some h) th arg w = (OK, ?w')"
    unfolding request_eq [OF l irq x] by (simp add: slot ok)
  have run: "lkpi_platform_irq_trampoline True (\<lambda>_. IRQ_HANDLED_T) ie = [(ie_handler ie, ie_irq ie, ie_arg ie)]" for ie
    by (simp add: lkpi_platform_irq_trampoline_def split: option.split)
  obtain ie where "pw_irqe ?w' (pw_next w) = Some ie" "ie_handler ie = h" "ie_irq ie = irq" "ie_arg ie = arg"
    by (simp add: installed_def Let_def)
  moreover have "pw_handlers ?w' = insert (pw_next w) (pw_handlers w)" by (simp add: installed_def Let_def)
  ultimately show ?thesis using req new slot' free busy run by metis
qed

lemma wind_up_handlers:
  assumes l: "life w0 d w" and base: "fresh_ok w0" "d \<notin> set (pw_list w0)"
  obtains w' where "wind_up d w = Some w'" "given_back w0 w'" "pw_tags w' = pw_tags w0" "pd_magic (pw_dev w' d) = 0"
    "left w0 w' = {e. pw_next w0 \<le> e \<and> pw_irqe w' e \<noteq> None}" "pw_handlers w0 \<subseteq> pw_handlers w'"
    "pw_handlers w' - pw_handlers w0 \<subseteq> left w0 w'"
proof -
  let ?rs = "pd_devres (pw_dev w d)"
  note ir = irqD [OF lifeD(2) [OF l]] and dr = devresD [OF lifeD(3) [OF l]]
  have ie: "DR_irqe e \<in> set ?rs" if "pw_next w0 \<le> e" "pw_irqe w e = Some ie" "ie_devres ie" for e ie
    using ir(4) [OF that(1,2)] that(3) by simp
  obtain w' where w': "wind_up d w = Some w'" "given_back w0 w'" "pw_tags w' = pw_tags w0" "pd_magic (pw_dev w' d) = 0"
    "left w0 w' = {e. pw_next w0 \<le> e \<and> pw_irqe w' e \<noteq> None}"
    "pw_irqe w' = (\<lambda>e. if DR_irqe e \<in> set ?rs then None else pw_irqe w e)"
    "pw_handlers w' = pw_handlers w - {t. \<exists>i. torn w ?rs i \<and> pd_irq_tag (pw_dev w d) i = Some t}"
    using wind_up_spec [OF lifeD(1,3-5) [OF l] base] ie by blast
  have old: "e < pw_next w0" if "e \<in> pw_handlers w0" for e using base(1) that by (simp add: fresh_ok_def)
  have "pw_handlers w0 \<subseteq> pw_handlers w'"
  proof
    fix e assume e: "e \<in> pw_handlers w0"
    then have "pd_irq_tag (pw_dev w d) i \<noteq> Some e" for i using ir(2) [of i e] old [OF e] by auto
    then show "e \<in> pw_handlers w'" using e by (simp add: w'(7) ir(3))
  qed
  moreover have "pw_handlers w' - pw_handlers w0 \<subseteq> left w0 w'"
  proof
    fix e assume e: "e \<in> pw_handlers w' - pw_handlers w0"
    then obtain i where i: "pd_irq_tag (pw_dev w d) i = Some e" "\<not> torn w ?rs i" by (auto simp: w'(7) ir(3) ran_def)
    from ir(2) [OF i(1)] obtain ie where ie: "pw_next w0 \<le> e" "pw_irqe w e = Some ie" "ie_idx ie = i" by auto
    then have "DR_irqe e \<notin> set ?rs" using i(2) by (auto simp: torn_def)
    then show "e \<in> left w0 w'" using ie by (simp add: w'(5,6))
  qed
  ultimately show thesis using that [OF w'(1-5)] by blast
qed

text \<open>
  C30: An attach that fails, at whichever step, gives back what it took: registry, bus resources, private
  DMA block, clock and reset handles are as before, and the only handlers that stay are those of \<open>request_irq\<close>
  the driver did not free. What is not given back are DMA tags: one when the coherent tag cannot be
  made, two when the private layout of linuxkpi is not the mirrored one.
\<close>

theorem platform_attach_failure_unwinds:
  assumes probe: "dr_probe drv = Some probe" and b: "behaves d (probe d)" and base: "fresh_ok w0" "d \<notin> set (pw_list w0)"
  shows "\<exists>r w'. lkpi_platform_bus_attach env d drv w0 = Some (r, w') \<and>
    (if r = OK then life w0 d w'
     else given_back w0 w' \<and> pd_magic (pw_dev w' d) = 0 \<and>
       pw_tags w' = pw_tags w0 + (if be_kobject env = OK then dma_leak env else 0) \<and>
       pw_handlers w0 \<subseteq> pw_handlers w' \<and> pw_handlers w' - pw_handlers w0 \<subseteq> left w0 w' \<and>
       left w0 w' = {e. pw_next w0 \<le> e \<and> pw_irqe w' e \<noteq> None})"
proof (rule attach_reaches_probe [OF probe b base(1), of env])
  fix v
  assume "be_kobject env \<noteq> OK \<or> dma_result env \<noteq> OK" "lkpi_platform_bus_attach env d drv w0 =
       Some (if be_kobject env = OK then dma_result env else E ENOMEM, (upd_dev d (\<lambda>_. v\<lparr>pd_magic := 0\<rparr>) w0)
         \<lparr>pw_tags := pw_tags w0 + (if be_kobject env = OK then dma_leak env else 0)\<rparr>)"
  then show ?thesis using base(1) by (auto simp: given_back_def left_def fresh_ok_def)
next
  fix r w5
  assume a: "be_kobject env = OK" "dma_leak env = 0" "life w0 d w5" "lkpi_platform_bus_attach env d drv w0 =
       (case r of OK \<Rightarrow> Some (OK, w5) | E e \<Rightarrow> do { w6 \<leftarrow> wind_up d w5; Some (E e, w6) })"
  show ?thesis
  proof (cases r)
    case OK
    then show ?thesis using a by simp
  next
    case (E e)
    obtain w' where "wind_up d w5 = Some w'" "given_back w0 w'" "pw_tags w' = pw_tags w0" "pd_magic (pw_dev w' d) = 0"
      "left w0 w' = {e. pw_next w0 \<le> e \<and> pw_irqe w' e \<noteq> None}" "pw_handlers w0 \<subseteq> pw_handlers w'"
      "pw_handlers w' - pw_handlers w0 \<subseteq> left w0 w'" by (rule wind_up_handlers [OF a(3) base])
    then show ?thesis using a E by simp
  qed
qed

end
