(* ===== verification/Lima_Drv.thy ===== *)
theory Lima_Drv
  imports Lima_Device_Spec Lima_Dump Platform_Attach
begin

text \<open>
  The driver as a whole (\<open>lima_drv.c\<close>): the match table, the reader of a blob in blocks, the error state
  behind \<open>hw.lima_error\<close>, probe and remove. The driver is registered with the bridge of \<open>Platform_Device\<close>.
\<close>

section \<open>The match table\<close>

definition dt_entry :: "string \<Rightarrow> nat \<Rightarrow> of_device_id" where
  "dt_entry s data = \<lparr>oid_name = '''', oid_type = '''', oid_compatible = s, oid_data = data\<rparr>"

definition lima_gpu_data :: "lima_gpu_id \<Rightarrow> nat" where
  "lima_gpu_data gpu = (case gpu of lima_gpu_mali400 \<Rightarrow> 0 | lima_gpu_mali450 \<Rightarrow> 1)"

definition dt_match :: "of_device_id list" where
  "dt_match =
     [dt_entry ''arm,mali-400-mp2'' (lima_gpu_data lima_gpu_mali400),
      dt_entry ''arm,mali-400'' (lima_gpu_data lima_gpu_mali400),
      dt_entry ''arm,mali-450'' (lima_gpu_data lima_gpu_mali450),
      dt_entry '''' 0]"

text \<open>The cast of the match data to \<open>enum lima_gpu_id\<close>, for the values in the table.\<close>

definition gpu_id_of_data :: "nat \<Rightarrow> lima_gpu_id" where
  "gpu_id_of_data n = (if n = lima_gpu_data lima_gpu_mali450 then lima_gpu_mali450 else lima_gpu_mali400)"

text \<open>\<open>.driver.pm\<close> has no counterpart in the bridge; \<open>suspend\<close> and \<open>resume\<close> are null.\<close>

definition lima_platform_driver ::
  "(nat \<Rightarrow> platform_world \<Rightarrow> (rc \<times> platform_world) option) \<Rightarrow> (nat \<Rightarrow> platform_world \<Rightarrow> platform_world option) \<Rightarrow>
   platform_driver" where
  "lima_platform_driver probe remove = \<lparr>dr_probe = Some probe, dr_remove = Some remove, dr_suspend = None, dr_resume = None,
     dr_of_match_table = Some dt_match\<rparr>"

section \<open>The block reader\<close>

record lima_block_reader =
  rd_dst :: "u8 list"   \<comment> \<open>what was written through \<open>dst\<close>\<close>
  rd_base :: u64
  rd_count :: u64
  rd_off :: u64
  rd_read :: u64

definition lima_read_block :: "u8 list \<Rightarrow> lima_block_reader \<Rightarrow> bool \<times> lima_block_reader" where
  "lima_read_block src reader =
     (let max_off = rd_base reader + of_nat (List.length src);
          r1 = (if rd_off reader < max_off then
              let size = min (max_off - rd_off reader) (rd_count reader) in
              reader\<lparr>rd_dst := rd_dst reader @ take (unat size) (drop (unat (rd_off reader - rd_base reader)) src),
                rd_off := rd_off reader + size, rd_read := rd_read reader + size, rd_count := rd_count reader - size\<rparr>
            else reader);
          r2 = r1\<lparr>rd_base := max_off\<rparr>
      in (rd_count r2 \<noteq> 0, r2))"

section \<open>The error state\<close>

text \<open>
  \<open>ldev->dump\<close> and \<open>ldev->error_task_list\<close>, of which each entry is its \<open>et->size\<close> bytes of data. \<open>head_bytes\<close> is the
  memory of the head; \<open>sysctl_out\<close> is \<open>SYSCTL_OUT\<close> on a request \<open>'r\<close>.
\<close>

record error_state =
  es_head :: lima_dump_head
  es_tasks :: "u8 list list"

definition lima_error_state_sysctl ::
  "('r \<Rightarrow> u8 list \<Rightarrow> rc \<times> 'r) \<Rightarrow> (lima_dump_head \<Rightarrow> u8 list) \<Rightarrow> bool \<Rightarrow> 'r \<Rightarrow> error_state \<Rightarrow> rc \<times> 'r \<times> error_state" where
  "lima_error_state_sysctl sysctl_out head_bytes newptr req s =
     (if newptr then (OK, req, s\<lparr>es_tasks := [], es_head := (es_head s)\<lparr>dh_size := 0, dh_num_tasks := 0\<rparr>\<rparr>)
      else
        let (e, r1) = sysctl_out req (head_bytes (es_head s));
            (e', r2) = (case e of OK \<Rightarrow> foreach sysctl_out r1 (es_tasks s) | E x \<Rightarrow> (E x, r1))
        in (e', r2, s))"

text \<open>\<open>lima_error_oid\<close>, none for null; \<open>add\<close> is what \<open>SYSCTL_ADD_PROC\<close> returns.\<close>

definition lima_error_sysctl_register :: "bool \<Rightarrow> bool" where
  "lima_error_sysctl_register add = add"

definition lima_error_sysctl_unregister :: "bool \<Rightarrow> bool" where
  "lima_error_sysctl_unregister oid = (if oid then False else oid)"

section \<open>Probe and remove\<close>

text \<open>
  \<open>pb_dev\<close> is the block of \<open>lima_device\<close>, zeroed when \<open>devm_kzalloc\<close> hands it out; \<open>pb_drm\<close>: references to the
  DRM device; \<open>pb_pm\<close>: runtime power management is enabled; \<open>pb_oid\<close>: \<open>lima_error_oid\<close> is not null.
\<close>

record probe_world =
  pb_fence_slab :: "bool \<times> int"
  pb_dev :: lima_device
  pb_drm :: nat
  pb_pm :: bool
  pb_registered :: bool
  pb_oid :: bool

record probe_env =
  pe_slab :: bool
  pe_kzalloc :: bool
  pe_match :: nat               \<comment> \<open>\<open>of_device_get_match_data\<close>\<close>
  pe_drm_alloc :: rc            \<comment> \<open>\<open>drm_dev_alloc\<close>\<close>
  pe_device :: device_env
  pe_register :: rc             \<comment> \<open>\<open>drm_dev_register\<close>\<close>
  pe_oid :: bool

definition lima_devfreq_init :: rc where "lima_devfreq_init = OK"

text \<open>The exits \<open>err_out0\<close> to \<open>err_out3\<close>.\<close>

definition probe_err_out0 :: "errno \<Rightarrow> probe_world \<Rightarrow> (rc \<times> probe_world) option" where
  "probe_err_out0 e w = Some (E e, w\<lparr>pb_fence_slab := lima_sched_slab_fini (pb_fence_slab w)\<rparr>)"

definition probe_err_out1 :: "errno \<Rightarrow> probe_world \<Rightarrow> (rc \<times> probe_world) option" where
  "probe_err_out1 e w = probe_err_out0 e (w\<lparr>pb_drm := pb_drm w - 1\<rparr>)"

definition probe_err_out2 :: "device_env \<Rightarrow> errno \<Rightarrow> probe_world \<Rightarrow> (rc \<times> probe_world) option" where
  "probe_err_out2 env e w = do { d \<leftarrow> lima_device_fini env (pb_dev w); probe_err_out1 e (w\<lparr>pb_dev := d\<rparr>) }"

definition probe_err_out3 :: "device_env \<Rightarrow> errno \<Rightarrow> probe_world \<Rightarrow> (rc \<times> probe_world) option" where
  "probe_err_out3 env e w = probe_err_out2 env e (w\<lparr>pb_pm := False\<rparr>)"

definition lima_pdev_probe :: "probe_env \<Rightarrow> probe_world \<Rightarrow> (rc \<times> probe_world) option" where
  "lima_pdev_probe env w =
     (case lima_sched_slab_init (pe_slab env) (pb_fence_slab w) of
        (E e, slab) \<Rightarrow> Some (E e, w\<lparr>pb_fence_slab := slab\<rparr>)
      | (OK, slab) \<Rightarrow>
      let w1 = w\<lparr>pb_fence_slab := slab\<rparr> in
      if \<not> pe_kzalloc env then probe_err_out0 ENOMEM w1
      else
      let w2 = w1\<lparr>pb_dev := (pb_dev w1)\<lparr>ld_dev := (ld_dev (pb_dev w1))\<lparr>d_id := gpu_id_of_data (pe_match env)\<rparr>\<rparr>\<rparr> in
      case pe_drm_alloc env of E e \<Rightarrow> probe_err_out0 e w2 | OK \<Rightarrow>
      let w3 = w2\<lparr>pb_drm := pb_drm w2 + 1\<rparr> in do {
        (r, d) \<leftarrow> lima_device_init (pe_device env) (pb_dev w3);
        let w4 = w3\<lparr>pb_dev := d\<rparr>;
        (case r of E e \<Rightarrow> probe_err_out1 e w4 | OK \<Rightarrow>
        case lima_devfreq_init of E e \<Rightarrow> probe_err_out2 (pe_device env) e w4 | OK \<Rightarrow>
        let w5 = w4\<lparr>pb_pm := True\<rparr> in
        case pe_register env of E e \<Rightarrow> probe_err_out3 (pe_device env) e w5 | OK \<Rightarrow>
          Some (OK, w5\<lparr>pb_registered := True, pb_oid := lima_error_sysctl_register (pe_oid env)\<rparr>)) })"

definition lima_pdev_remove :: "device_env \<Rightarrow> probe_world \<Rightarrow> probe_world option" where
  "lima_pdev_remove env w = do {
     let w1 = w\<lparr>pb_oid := lima_error_sysctl_unregister (pb_oid w), pb_registered := False, pb_pm := False\<rparr>;
     d \<leftarrow> lima_device_fini env (pb_dev w1);
     let w2 = w1\<lparr>pb_dev := d, pb_drm := pb_drm w1 - 1\<rparr>;
     Some (w2\<lparr>pb_fence_slab := lima_sched_slab_fini (pb_fence_slab w2)\<rparr>) }"

end
