(* ===== verification/Platform_Detach.thy ===== *)
theory Platform_Detach
  imports Platform_Attach
begin

text \<open>
  Detach undoes attach, and a concrete device: a driver that requests its interrupt, as the witness of the
  properties of the bridge.
\<close>

section \<open>Detach\<close>

lemma detach_intr_fold:
  "fold (detach_intr d) is w =
     (upd_dev d (\<lambda>v. v\<lparr>pd_irq_tag := clear (\<lambda>i. i \<in> set is) (pd_irq_tag v)\<rparr>) w)
       \<lparr>pw_handlers := pw_handlers w - {t. \<exists>i \<in> set is. pd_irq_tag (pw_dev w d) i = Some t}\<rparr>"
proof (induction "is" arbitrary: w)
  case Nil
  then show ?case by (simp add: upd_dev_def)
next
  case (Cons i "is")
  let ?m = "pd_irq_tag (pw_dev w d)"
  have step: "detach_intr d i w = (upd_dev d (\<lambda>v. v\<lparr>pd_irq_tag := ?m(i := None)\<rparr>) w)\<lparr>pw_handlers := pw_handlers w - {t. ?m i = Some t}\<rparr>"
  proof (cases "?m i")
    case None
    then have "(pw_dev w d)\<lparr>pd_irq_tag := ?m(i := None)\<rparr> = pw_dev w d" by (simp add: fun_upd_idem)
    then show ?thesis using None by (simp add: detach_intr_def upd_dev_def)
  next
    case (Some t)
    then have "{t'. t = t'} = {t}" by auto
    then show ?thesis using Some by (simp add: detach_intr_def upd_dev_def)
  qed
  have m: "clear (\<lambda>j. j \<in> set is) (?m(i := None)) = clear (\<lambda>j. j \<in> set (i # is)) ?m" by (auto simp: clear_def)
  have "pw_handlers w - {t. ?m i = Some t} - {t. \<exists>j \<in> set is. (?m(i := None)) j = Some t} =
      pw_handlers w - {t. \<exists>j \<in> set (i # is). ?m j = Some t}"
    using minus_slot [of "pw_handlers w" ?m i "\<lambda>j. j \<in> set is"] by (simp add: Bex_def)
  then show ?case unfolding fold_Cons comp_apply step Cons.IH by (simp add: m upd_dev_def)
qed

text \<open>Detach is the driver's remove, the interrupts taken off, and the wind-up of a failed attach.\<close>

lemma detach_eq:
  assumes "pd_magic (pw_dev w d) = LKPI_PLATFORM_DEVICE_MAGIC"
  shows "lkpi_platform_bus_detach d drv w = do {
     w1 \<leftarrow> (case dr_remove drv of None \<Rightarrow> Some w | Some remove \<Rightarrow> remove d w);
     wind_up d (fold (detach_intr d) [0..<pd_nirq (pw_dev w1 d)] w1) }"
proof -
  have swap: "fold (detach_intr d) is (lkpi_platform_unpublish d w1) = lkpi_platform_unpublish d (fold (detach_intr d) is w1)" for "is" w1
    by (simp add: detach_intr_fold lkpi_platform_unpublish_def upd_dev_def)
  have nirq: "pd_nirq (pw_dev (lkpi_platform_unpublish d w1) d) = pd_nirq (pw_dev w1 d)" for w1
    by (simp add: lkpi_platform_unpublish_def)
  show ?thesis using assms by (simp add: lkpi_platform_bus_detach_def Let_def wind_up_def swap nirq)
qed

lemma detach_life:
  assumes l: "life w0 d w" and base: "fresh_ok w0" "d \<notin> set (pw_list w0)"
  obtains w' where "wind_up d (fold (detach_intr d) [0..<pd_nirq (pw_dev w d)] w) = Some w'" "given_back w0 w'"
    "pw_tags w' = pw_tags w0" "pd_magic (pw_dev w' d) = 0" "pw_handlers w' = pw_handlers w0"
    "left w0 w' = {e. pw_next w0 \<le> e \<and> pw_irqe w' e \<noteq> None}"
    "left w0 w' = {e. pw_next w0 \<le> e \<and> (\<exists>ie. pw_irqe w e = Some ie \<and> \<not> ie_devres ie)}"
proof -
  let ?is = "[0..<pd_nirq (pw_dev w d)]" and ?rs = "pd_devres (pw_dev w d)"
  let ?w = "fold (detach_intr d) ?is w"
  note fr = lifeD(1) [OF l] and ir = irqD [OF lifeD(2) [OF l]]
  have "pd_irq_tag (pw_dev w d) i = None" if "\<not> i < pd_nirq (pw_dev w d)" for i
    using ir(2) [of i] that by (cases "pd_irq_tag (pw_dev w d) i") auto
  then have "clear (\<lambda>i. i \<in> set ?is) (pd_irq_tag (pw_dev w d)) = Map.empty" by (simp add: clear_def fun_eq_iff)
  moreover have tags: "{t. \<exists>i \<in> set ?is. pd_irq_tag (pw_dev w d) i = Some t} = ran (pd_irq_tag (pw_dev w d))"
    using ir(2) by (auto simp: ran_def)
  ultimately have w: "?w = (upd_dev d (\<lambda>v. v\<lparr>pd_irq_tag := Map.empty\<rparr>) w)\<lparr>pw_handlers := pw_handlers w - ran (pd_irq_tag (pw_dev w d))\<rparr>"
    by (simp add: detach_intr_fold upd_dev_def)
  have "e < pw_next w0" if "e \<in> pw_handlers w0" for e using base(1) that by (simp add: fresh_ok_def)
  moreover have "pw_next w0 \<le> e" if "e \<in> ran (pd_irq_tag (pw_dev w d))" for e using that ir(2) by (auto simp: ran_def)
  ultimately have h: "pw_handlers w - ran (pd_irq_tag (pw_dev w d)) = pw_handlers w0" unfolding ir(3) by fastforce
  have "frame_ok w0 d ?w" using fr by (auto simp: frame_ok_def fresh_ok_def w)
  moreover have "devres_ok w0 d ?w"
  proof -
    have "rst_count ?w rs = rst_count w rs" for rs by (simp add: rst_count_def w fun_eq_iff)
    then show ?thesis using lifeD(3) [OF l] by (simp add: devres_ok_def w)
  qed
  moreover have "res_ok w0 d ?w" using lifeD(4) [OF l] by (simp add: res_ok_def w held_res_def Let_def)
  moreover have "bound_ok w0 d ?w" using lifeD(5) [OF l] by (simp add: bound_ok_def w Let_def)
  moreover have ie: "DR_irqe e \<in> set (pd_devres (pw_dev ?w d))" if "pw_next w0 \<le> e" "pw_irqe ?w e = Some ie" "ie_devres ie" for e ie
    using ir(4) [OF that(1)] that(2,3) by (simp add: w)
  ultimately obtain w' where w': "wind_up d ?w = Some w'" "given_back w0 w'" "pw_tags w' = pw_tags w0" "pd_magic (pw_dev w' d) = 0"
    "left w0 w' = {e. pw_next w0 \<le> e \<and> pw_irqe w' e \<noteq> None}"
    "pw_irqe w' = (\<lambda>e. if DR_irqe e \<in> set (pd_devres (pw_dev ?w d)) then None else pw_irqe ?w e)"
    "pw_handlers w' = pw_handlers ?w - {t. \<exists>i. torn ?w (pd_devres (pw_dev ?w d)) i \<and> pd_irq_tag (pw_dev ?w d) i = Some t}"
    using wind_up_spec [OF _ _ _ _ base, of ?w] by blast
  have same: "pd_devres (pw_dev ?w d) = ?rs" "pw_irqe ?w = pw_irqe w" by (simp_all add: w)
  have "pw_handlers w' = pw_handlers w0" unfolding w'(7) by (simp add: w h)
  moreover have "left w0 w' = {e. pw_next w0 \<le> e \<and> (\<exists>ie. pw_irqe w e = Some ie \<and> \<not> ie_devres ie)}"
  proof -
    have "ie_devres ie" if "DR_irqe e \<in> set ?rs" "pw_irqe w e = Some ie" for e ie
      using devresD(2) [OF lifeD(3) [OF l] that(1)] that(2) by simp
    then show ?thesis by (auto simp: left_def w'(6) same)
  qed
  ultimately show thesis using that w'(1-5) by blast
qed

text \<open>
  C31: Detach after attach is a round trip: with a driver that only uses the interface of the bridge, it always finishes,
  registry, bus resources, DMA tags, installed handlers, clock and reset handles are as
  before the attach, and what remains is exactly the descriptors of \<open>request_irq\<close> that
  the driver did not free: detach takes their handlers off but not the memory.
\<close>

theorem platform_detach_undoes_attach:
  assumes "lkpi_platform_bus_attach env d drv w0 = Some (OK, w1)" and "dr_probe drv = Some probe" and "behaves d (probe d)"
    and base: "fresh_ok w0" "d \<notin> set (pw_list w0)" and run: "drv_run d w1 w"
    and remove: "\<And>remove. dr_remove drv = Some remove \<Longrightarrow> behaves d (\<lambda>w. map_option (Pair OK) (remove d w))"
  shows "\<exists>w'. lkpi_platform_bus_detach d drv w = Some w' \<and> given_back w0 w' \<and> pw_tags w' = pw_tags w0 \<and>
    pw_handlers w' = pw_handlers w0 \<and> pd_magic (pw_dev w' d) = 0 \<and> left w0 w' = {e. pw_next w0 \<le> e \<and> pw_irqe w' e \<noteq> None} \<and>
    (dr_remove drv = None \<longrightarrow> left w0 w' = left w0 w)"
proof -
  have l: "life w0 d w" by (rule run_life [OF run attach_ok_life [OF assms(1-3) base(1)] base(1)])
  obtain w2 where w2: "(case dr_remove drv of None \<Rightarrow> Some w | Some remove \<Rightarrow> remove d w) = Some w2" and r: "drv_run d w w2"
    and same: "dr_remove drv = None \<Longrightarrow> w2 = w"
  proof (cases "dr_remove drv")
    case None
    then show thesis using that drv_run.stay by simp
  next
    case (Some remove)
    from assms(7) [OF this] obtain w2 where "remove d w = Some w2" "drv_run d w w2" by (fastforce simp: behaves_def)
    then show thesis using that Some by simp
  qed
  obtain w' where w': "wind_up d (fold (detach_intr d) [0..<pd_nirq (pw_dev w2 d)] w2) = Some w'" "given_back w0 w'"
    "pw_tags w' = pw_tags w0" "pd_magic (pw_dev w' d) = 0" "pw_handlers w' = pw_handlers w0"
    "left w0 w' = {e. pw_next w0 \<le> e \<and> pw_irqe w' e \<noteq> None}"
    "left w0 w' = {e. pw_next w0 \<le> e \<and> (\<exists>ie. pw_irqe w2 e = Some ie \<and> \<not> ie_devres ie)}"
    by (rule detach_life [OF run_life [OF r l base(1)] base])
  have magic: "pd_magic (pw_dev w d) = LKPI_PLATFORM_DEVICE_MAGIC" using lifeD(5) [OF l] by (simp add: bound_ok_def Let_def)
  have "lkpi_platform_bus_detach d drv w = Some w'" unfolding detach_eq [OF magic] w2 by (simp add: w'(1))
  moreover have "dr_remove drv = None \<Longrightarrow> left w0 w' = left w0 w" using w'(7) same by (simp add: left_def)
  ultimately show ?thesis using w'(2-6) by (intro exI [of _ w']) blast
qed

section \<open>A concrete device\<close>

text \<open>
  A device with a window and an interrupt; its driver requests the interrupt with \<open>request_irq\<close> and frees it
  in \<open>remove\<close>, or does not: \<open>careless\<close>.
\<close>

definition demo_bus_env :: bus_env where
  "demo_bus_env = \<lparr>be_status_okay = True, be_compatible = (\<lambda>s. s = ''arm,mali-450''), be_unit = 0, be_node = 1,
     be_alloc = (\<lambda>t i. if i = 0 then Some (if t = SYS_RES_IRQ then 7 else 8) else None), be_irq_names = Map.empty, be_kobject = OK,
     be_dma_tag = OK, be_dma_tag_coherent = OK, be_layout = True\<rparr>"

definition demo_re :: request_env where "demo_re = \<lparr>re_alloc = True, re_setup = OK\<rparr>"

definition demo_probe :: "nat option \<Rightarrow> rc \<Rightarrow> nat \<Rightarrow> platform_world \<Rightarrow> (rc \<times> platform_world) option" where
  "demo_probe h r d w = (if h = None then Some (r, w) else case lkpi_platform_get_irq (Some d) 0 w of
     Inl e \<Rightarrow> Some (E e, w)
   | Inr irq \<Rightarrow> (case lkpi_platform_request_irq demo_re None irq h None 0 w of (r', w') \<Rightarrow> Some (case r' of OK \<Rightarrow> r | E e \<Rightarrow> E e, w')))"

definition demo_drv :: "nat option \<Rightarrow> rc \<Rightarrow> platform_driver" where
  "demo_drv h r = \<lparr>dr_probe = Some (demo_probe h r), dr_remove = None, dr_suspend = None, dr_resume = None, dr_of_match_table = None\<rparr>"

definition demo_world :: platform_world where
  "demo_world = \<lparr>pw_dev = (\<lambda>_. blank_pdev), pw_list = [], pw_irqe = Map.empty, pw_reset = Map.empty, pw_next = 0, pw_handlers = {},
     pw_res = {#}, pw_tags = 0, pw_privs = 0, pw_clk = (\<lambda>_. 0), pw_rst = (\<lambda>_. 0), pw_clk_on = (\<lambda>_. 0), pw_deasserted = {}\<rparr>"

lemma demo_behaves: "behaves d (demo_probe h r d)"
  unfolding behaves_def
proof
  fix w
  show "\<exists>r' w'. demo_probe h r d w = Some (r', w') \<and> drv_run d w w'"
  proof (cases "lkpi_platform_get_irq (Some d) 0 w")
    case (Inl e)
    then show ?thesis by (simp add: demo_probe_def drv_run.stay)
  next
    case (Inr irq)
    obtain r' w' where q: "lkpi_platform_request_irq demo_re None irq h None 0 w = (r', w')" by fastforce
    then have "drv_run d w w'" using drv_run.step [OF drv_run.stay drv_step.request [OF Inr _ q]] by blast
    then show ?thesis using Inr q by (simp add: demo_probe_def drv_run.stay)
  qed
qed

lemma demo_world_fresh: "fresh_ok demo_world" "d \<notin> set (pw_list demo_world)"
  by (simp_all add: fresh_ok_def demo_world_def)

lemma demo_probe_field: "dr_probe (demo_drv h r) = Some (demo_probe h r)" "dr_remove (demo_drv h r) = None"
  by (simp_all add: demo_drv_def)

definition demo_on :: "nat option \<Rightarrow> platform_world" where
  "demo_on h = snd (the (lkpi_platform_bus_attach demo_bus_env 0 (demo_drv h OK) demo_world))"

lemma demo_attach: "lkpi_platform_bus_attach demo_bus_env 0 (demo_drv h OK) demo_world = Some (OK, demo_on h)"
  if "map_option fst (lkpi_platform_bus_attach demo_bus_env 0 (demo_drv h OK) demo_world) = Some OK"
  using that by (auto simp: demo_on_def)

lemma demo_attached: "lkpi_platform_bus_attach demo_bus_env 0 (demo_drv None OK) demo_world = Some (OK, demo_on None)"
  "lkpi_platform_bus_attach demo_bus_env 0 (demo_drv (Some 5) OK) demo_world = Some (OK, demo_on (Some 5))"
  by (rule demo_attach; code_simp)+

lemma demo_irq: "lkpi_platform_get_irq (Some 0) 0 (demo_on None) = Inr 0x71D00000" "pd_irq_tag (pw_dev (demo_on None) 0) 0 = None"
  "pd_irq_tag (pw_dev (demo_on (Some 5)) 0) 0 = Some 0" "pw_irqe (demo_on (Some 5)) 0 \<noteq> None"
  by code_simp+

section \<open>Witnesses\<close>

theorem lkpi_platform_get_irq_type_witness:
  "0 < sint (0x71D00000 :: u32) \<and> unat (LKPI_PLATFORM_IRQ_INDEX 0x71D00000) = 0"
proof -
  have "pd_nirq (pw_dev (demo_on None) 0) \<le> LKPI_PLATFORM_MAX_IRQ" by code_simp
  from lkpi_platform_get_irq_type [OF this, of 0] show ?thesis by (simp add: demo_irq)
qed

theorem platform_driver_run_invariant_witness:
  "life demo_world 0 (demo_on (Some 5)) \<and> pd_irq_tag (pw_dev (demo_on (Some 5)) 0) 0 = Some 0"
  using platform_driver_run_invariant [OF demo_attached(2) demo_probe_field(1) demo_behaves demo_world_fresh(1) drv_run.stay] demo_irq(3) by simp

theorem platform_irq_reaches_handler_witness:
  "\<exists>w' e ie. lkpi_platform_request_irq demo_re None 0x71D00000 (Some 3) None 9 (demo_on None) = (OK, w') \<and> pw_irqe w' e = Some ie \<and>
     lkpi_platform_irq_trampoline True (\<lambda>_. IRQ_HANDLED_T) ie = [(3, 0x71D00000, 9)]"
proof -
  have re: "re_alloc demo_re" "re_setup demo_re = OK" by (simp_all add: demo_re_def)
  from platform_irq_reaches_handler [OF demo_attached(1) demo_probe_field(1) demo_behaves demo_world_fresh(1) drv_run.stay
      demo_irq(1) disjI1 [OF refl] demo_irq(2) re, of 3 None 9]
  show ?thesis by blast
qed

theorem platform_attach_failure_unwinds_witness:
  "\<exists>w'. lkpi_platform_bus_attach (demo_bus_env\<lparr>be_dma_tag_coherent := E ENOMEM\<rparr>) 0 (demo_drv (Some 5) OK) demo_world = Some (E ENOMEM, w') \<and>
     given_back demo_world w' \<and> pw_tags w' = 1"
proof -
  let ?env = "demo_bus_env\<lparr>be_dma_tag_coherent := E ENOMEM\<rparr>"
  have r: "map_option fst (lkpi_platform_bus_attach ?env 0 (demo_drv (Some 5) OK) demo_world) = Some (E ENOMEM)" by code_simp
  obtain r w' where a: "lkpi_platform_bus_attach ?env 0 (demo_drv (Some 5) OK) demo_world = Some (r, w')"
    "if r = OK then life demo_world 0 w' else given_back demo_world w' \<and> pd_magic (pw_dev w' 0) = 0 \<and>
       pw_tags w' = pw_tags demo_world + (if be_kobject ?env = OK then dma_leak ?env else 0) \<and>
       pw_handlers demo_world \<subseteq> pw_handlers w' \<and> pw_handlers w' - pw_handlers demo_world \<subseteq> left demo_world w' \<and>
       left demo_world w' = {e. pw_next demo_world \<le> e \<and> pw_irqe w' e \<noteq> None}"
    using platform_attach_failure_unwinds [OF demo_probe_field(1) demo_behaves demo_world_fresh, of ?env] by blast
  moreover have "r = E ENOMEM" using r a(1) by simp
  ultimately show ?thesis by (simp add: dma_leak_def demo_bus_env_def demo_world_def)
qed

theorem platform_detach_undoes_attach_witness:
  "\<exists>w'. lkpi_platform_bus_detach 0 (demo_drv (Some 5) OK) (demo_on (Some 5)) = Some w' \<and> given_back demo_world w' \<and>
     pw_handlers w' = {} \<and> left demo_world w' = left demo_world (demo_on (Some 5))"
proof -
  have "\<exists>w'. lkpi_platform_bus_detach 0 (demo_drv (Some 5) OK) (demo_on (Some 5)) = Some w' \<and> given_back demo_world w' \<and>
      pw_tags w' = pw_tags demo_world \<and> pw_handlers w' = pw_handlers demo_world \<and> pd_magic (pw_dev w' 0) = 0 \<and>
      left demo_world w' = {e. pw_next demo_world \<le> e \<and> pw_irqe w' e \<noteq> None} \<and>
      (dr_remove (demo_drv (Some 5) OK) = None \<longrightarrow> left demo_world w' = left demo_world (demo_on (Some 5)))"
    by (rule platform_detach_undoes_attach [OF demo_attached(2) demo_probe_field(1) demo_behaves demo_world_fresh drv_run.stay])
      (simp add: demo_probe_field)
  moreover have "pw_handlers demo_world = {}" by (simp add: demo_world_def)
  ultimately show ?thesis by (auto simp: demo_probe_field(2))
qed

end
