(* ===== verification/Lima_Drv_Spec.thy ===== *)
theory Lima_Drv_Spec
  imports Lima_Drv Platform_Detach
begin

text \<open>
  What the driver as a whole guarantees: the GPU it takes a node for, and that probe and remove give back what they
  take.
\<close>

section \<open>Matching\<close>

lemma dt_match_scan:
  "lkpi_platform_of_match env (Some dt_match) =
     (if be_compatible env ''arm,mali-400-mp2'' then Some (dt_entry ''arm,mali-400-mp2'' 0)
      else if be_compatible env ''arm,mali-400'' then Some (dt_entry ''arm,mali-400'' 0)
      else if be_compatible env ''arm,mali-450'' then Some (dt_entry ''arm,mali-450'' 1)
      else None)"
  by (simp add: lkpi_platform_of_match_def lkpi_platform_of_match_scan_def dt_match_def dt_entry_def lima_gpu_data_def)

text \<open>
  C33: A node is taken exactly when it is enabled and has one of the three \<open>compatible\<close> strings, and the probe of the
  driver then finds the GPU of that string: the Mali-450 only when neither Mali-400 string is there. A node that is
  attached was probed in such a world, with the result the probe left.
\<close>

theorem lima_attach_selects_gpu:
  assumes attach: "lkpi_platform_bus_attach env d (lima_platform_driver probe remove) w0 = Some (OK, w1)"
    and taken: "lkpi_platform_bus_probe env (lima_platform_driver probe remove) = OK"
  shows "be_status_okay env \<and>
    (be_compatible env ''arm,mali-400-mp2'' \<or> be_compatible env ''arm,mali-400'' \<or> be_compatible env ''arm,mali-450'') \<and>
    (\<exists>w. probe d w = Some (OK, w1) \<and>
      gpu_id_of_data (of_device_get_match_data w (Some d)) =
        (if be_compatible env ''arm,mali-400-mp2'' \<or> be_compatible env ''arm,mali-400'' then lima_gpu_mali400 else lima_gpu_mali450))"
proof -
  let ?drv = "lima_platform_driver probe remove"
  have drv: "dr_probe ?drv = Some probe" "dr_of_match_table ?drv = Some dt_match" by (simp_all add: lima_platform_driver_def)
  have ok: "be_status_okay env" "lkpi_platform_of_match env (Some dt_match) \<noteq> None"
    using taken by (auto simp: lkpi_platform_bus_probe_def drv(2) split: if_splits)
  show ?thesis
  proof (rule attach_eq [OF drv(1), of env d w0])
    fix v
    assume "pd_of_id v = lkpi_platform_of_match env (dr_of_match_table ?drv)" and magic: "pd_magic v = LKPI_PLATFORM_DEVICE_MAGIC"
      and eq: "lkpi_platform_bus_attach env d ?drv w0 =
      (if be_kobject env \<noteq> OK then
         Some (E ENOMEM, (upd_dev d (\<lambda>_. v\<lparr>pd_magic := 0\<rparr>) w0))
       else if be_dma_tag env \<noteq> OK \<or> be_dma_tag_coherent env \<noteq> OK \<or> \<not> be_layout env then
         Some (dma_result env, (upd_dev d (\<lambda>_. (born v)\<lparr>pd_kref := 0, pd_magic := 0\<rparr>) w0)\<lparr>pw_tags := pw_tags w0 + dma_leak env\<rparr>)
       else do {
         (r, w5) \<leftarrow> probe d (ready d v w0);
         (case r of OK \<Rightarrow> Some (OK, w5) | E e \<Rightarrow> do { w6 \<leftarrow> wind_up d w5; Some (E e, w6) }) })"
    then have of_id: "pd_of_id v = lkpi_platform_of_match env (Some dt_match)" by (simp add: drv(2))
    have p: "probe d (ready d v w0) = Some (OK, w1)"
      using attach unfolding eq by (auto simp: bind_eq_Some_conv dma_result_def split: if_splits rc.splits)
    have "of_device_get_match_data (ready d v w0) (Some d) = (case pd_of_id v of None \<Rightarrow> 0 | Some e \<Rightarrow> oid_data e)"
      using magic by (simp add: of_device_get_match_data_def to_platform_device_def ready_def with_dma_def born_def)
    then have "gpu_id_of_data (of_device_get_match_data (ready d v w0) (Some d)) =
        (if be_compatible env ''arm,mali-400-mp2'' \<or> be_compatible env ''arm,mali-400'' then lima_gpu_mali400 else lima_gpu_mali450)"
      using ok(2) unfolding of_id dt_match_scan
      by (auto simp: dt_entry_def gpu_id_of_data_def lima_gpu_data_def split: if_splits)
    moreover have "be_compatible env ''arm,mali-400-mp2'' \<or> be_compatible env ''arm,mali-400'' \<or> be_compatible env ''arm,mali-450''"
      using ok(2) unfolding dt_match_scan by (auto split: if_splits)
    ultimately show ?thesis using ok(1) p by blast
  qed
qed

text \<open>Newbus asks the driver to suspend, and nothing is called: \<open>lima_device_suspend\<close> is only in \<open>.driver.pm\<close>.\<close>

lemma lima_newbus_suspend_is_a_no_op:
  "lkpi_platform_bus_suspend d (lima_platform_driver probe remove) w = Some (OK, w)"
  "lkpi_platform_bus_resume d (lima_platform_driver probe remove) w = Some (OK, w)"
  by (simp_all add: lkpi_platform_bus_suspend_def lkpi_platform_bus_resume_def lima_platform_driver_def)

section \<open>Probe and remove\<close>

lemma fence_slab_roundtrip:
  assumes "slab_ok slab" and "lima_sched_slab_init c slab = (r, slab')"
  shows "if r = OK then slab' = (True, snd slab + 1) \<and> lima_sched_slab_fini slab' = slab else slab' = slab"
  using assms by (cases slab) (auto simp: lima_sched_slab_init_def lima_sched_slab_fini_def slab_ok_def split: if_splits)

text \<open>The world before a probe: the block is zeroed as far as the driver looks at it, the slabs are consistent.\<close>

definition unbound :: "probe_world \<Rightarrow> bool" where
  "unbound w = (slab_ok (pb_fence_slab w) \<and> pipes_idle (pb_dev w) \<and> ld_empty_vm (pb_dev w) = None \<and> ld_dlbu (pb_dev w) = None \<and>
     (\<forall>p. \<not> ld_started (pb_dev w) p) \<and> slab_ok (ld_gp_slab (pb_dev w)) \<and> slab_ok (ld_pp_slab (pb_dev w)) \<and>
     \<not> pb_pm w \<and> \<not> pb_registered w \<and> \<not> pb_oid w)"

text \<open>Everything a probe takes is as in \<open>w0\<close>.\<close>

definition unbound_again :: "probe_world \<Rightarrow> probe_world \<Rightarrow> bool" where
  "unbound_again w0 w = (pb_fence_slab w = pb_fence_slab w0 \<and> pb_drm w = pb_drm w0 \<and> \<not> pb_pm w \<and> \<not> pb_registered w \<and> \<not> pb_oid w \<and>
     power (pb_dev w) = power (pb_dev w0) \<and> ld_empty_vm (pb_dev w) = None \<and> ld_dlbu (pb_dev w) = None \<and>
     (\<forall>p. \<not> ld_started (pb_dev w) p) \<and> ld_gp_slab (pb_dev w) = ld_gp_slab (pb_dev w0) \<and> ld_pp_slab (pb_dev w) = ld_pp_slab (pb_dev w0))"

text \<open>What a bound driver holds.\<close>

definition bound :: "probe_world \<Rightarrow> probe_world \<Rightarrow> bool" where
  "bound w0 w = (pb_fence_slab w = (True, snd (pb_fence_slab w0) + 1) \<and> pb_drm w = pb_drm w0 + 1 \<and> pb_pm w \<and> pb_registered w \<and>
     up_or_down (ld_clk_bus (pb_dev w0)) (ld_clk_gpu (pb_dev w0)) (ld_reset (pb_dev w0)) (ld_supply (pb_dev w0))
       (ld_gp_slab (pb_dev w0)) (ld_pp_slab (pb_dev w0)) OK (pb_dev w))"

lemma down_again:
  assumes "owned d' = ((ld_clk_bus d, ld_clk_gpu d, ld_reset d, ld_supply d), hr, hg, None, None, (\<lambda>_. False), ld_gp_slab d, ld_pp_slab d)"
  shows "power d' = power d" "ld_empty_vm d' = None" "ld_dlbu d' = None" "\<not> ld_started d' p" "ld_gp_slab d' = ld_gp_slab d"
    "ld_pp_slab d' = ld_pp_slab d"
  using assms by (simp_all add: owned_defs)

text \<open>A device that is up is taken down whatever happened to what it does not own.\<close>

lemma up_fini:
  assumes up: "up_or_down b g rs s gs ps OK d" and later: "owned d1 = owned d" "pipes_idle d1" and slabs: "slab_ok gs" "slab_ok ps"
  obtains d2 hr hg where "lima_device_fini env d1 = Some d2" "owned d2 = ((b, g, rs, s), hr, hg, None, None, (\<lambda>_. False), gs, ps)"
proof -
  obtain hr hg vm dl where vm: "vm_refcount vm = 1" and own: "owned d1 = ((b + 1, g + 1, rs + of_bool hr, s + of_bool hg), hr, hg, Some vm, dl,
      (\<lambda>_. True), (True, snd gs + 1), (True, snd ps + 1))"
    using up unfolding up_or_down_def later(1) by auto
  from fini_owned [OF later(2) vm slabs own, of env] show thesis using that by blast
qed

text \<open>The common exit, after the slab was taken: all is as before.\<close>

lemma err_out0_again:
  assumes un: "unbound w" and si: "lima_sched_slab_init c (pb_fence_slab w) = (OK, slab)"
    and d': "power d' = power (pb_dev w)" "ld_empty_vm d' = None" "ld_dlbu d' = None" "\<forall>p. \<not> ld_started d' p"
      "ld_gp_slab d' = ld_gp_slab (pb_dev w)" "ld_pp_slab d' = ld_pp_slab (pb_dev w)"
  shows "\<exists>w'. probe_err_out0 e (w\<lparr>pb_fence_slab := slab, pb_dev := d'\<rparr>) = Some (E e, w') \<and> unbound_again w w'"
proof -
  have "lima_sched_slab_fini slab = pb_fence_slab w" using fence_slab_roundtrip [OF _ si] un by (auto simp: unbound_def)
  then show ?thesis using un d' by (simp add: probe_err_out0_def unbound_again_def unbound_def)
qed

text \<open>The part behind the initialisation of the device.\<close>

lemma probe_up:
  assumes un: "unbound w" and si: "lima_sched_slab_init (pe_slab env) (pb_fence_slab w) = (OK, slab)" and up: "pe_kzalloc env" "pe_drm_alloc env = OK"
    and di: "lima_device_init (pe_device env) ((pb_dev w)\<lparr>ld_dev := (ld_dev (pb_dev w))\<lparr>d_id := gpu_id_of_data (pe_match env)\<rparr>\<rparr>) = Some (r2, d2)"
    and ud: "up_or_down (ld_clk_bus (pb_dev w)) (ld_clk_gpu (pb_dev w)) (ld_reset (pb_dev w)) (ld_supply (pb_dev w))
      (ld_gp_slab (pb_dev w)) (ld_pp_slab (pb_dev w)) r2 d2"
  shows "\<exists>r w'. lima_pdev_probe env w = Some (r, w') \<and> (if r = OK then bound w w' \<and> pb_oid w' = pe_oid env else unbound_again w w')"
proof -
  let ?d = "pb_dev w" and ?w = "w\<lparr>pb_fence_slab := slab, pb_drm := pb_drm w + 1, pb_dev := d2\<rparr>"
  note prb = lima_pdev_probe_def si up Let_def di lima_devfreq_init_def lima_error_sysctl_register_def
  note out = err_out0_again [OF un si]
  have pm: "w\<lparr>pb_pm := False\<rparr> = w" using un by (simp add: unbound_def)
  show ?thesis
  proof (cases r2)
    case (E e)
    then obtain hr hg where "owned d2 = ((ld_clk_bus ?d, ld_clk_gpu ?d, ld_reset ?d, ld_supply ?d), hr, hg, None, None, (\<lambda>_. False),
        ld_gp_slab ?d, ld_pp_slab ?d)" using ud by (auto simp: up_or_down_def)
    note down = down_again [OF this]
    have "lima_pdev_probe env w = probe_err_out0 e (w\<lparr>pb_fence_slab := slab, pb_dev := d2\<rparr>)" by (simp add: prb E probe_err_out1_def)
    with out [of d2 e] show ?thesis using down by auto
  next
    case ok2: OK
    show ?thesis
    proof (cases "pe_register env")
      case (E e)
      have idle2: "pipes_idle d2" using ud ok2 by (auto simp: up_or_down_def)
      have slabs: "slab_ok (ld_gp_slab ?d)" "slab_ok (ld_pp_slab ?d)" using un by (simp_all add: unbound_def)
      obtain d3 hr hg where d3: "lima_device_fini (pe_device env) d2 = Some d3" and "owned d3 = ((ld_clk_bus ?d, ld_clk_gpu ?d, ld_reset ?d,
          ld_supply ?d), hr, hg, None, None, (\<lambda>_. False), ld_gp_slab ?d, ld_pp_slab ?d)"
        by (rule up_fini [OF ud [unfolded ok2] refl idle2 slabs])
      note down = down_again [OF this(2)]
      have "?w\<lparr>pb_pm := False, pb_dev := d3, pb_drm := pb_drm w\<rparr> = w\<lparr>pb_pm := False, pb_fence_slab := slab, pb_dev := d3\<rparr>" by simp
      then have "lima_pdev_probe env w = probe_err_out0 e (w\<lparr>pb_fence_slab := slab, pb_dev := d3\<rparr>)"
        using pm by (simp add: prb E ok2 probe_err_out3_def probe_err_out2_def probe_err_out1_def d3)
      with out [of d3 e] show ?thesis using down by auto
    next
      case OK
      have "slab = (True, snd (pb_fence_slab w) + 1)" using fence_slab_roundtrip [OF _ si] un by (simp add: unbound_def)
      then show ?thesis using ud OK by (simp add: prb ok2 bound_def)
    qed
  qed
qed

lemma probe_ends:
  assumes "clock_advances (de_hw (pe_device env))" and "lima_clk_stage (de_stage (pe_device env)) = LIMA_CLK_STAGE_FULL" and un: "unbound w"
  shows "\<exists>r w'. lima_pdev_probe env w = Some (r, w') \<and> (if r = OK then bound w w' \<and> pb_oid w' = pe_oid env else unbound_again w w')"
proof -
  let ?d = "pb_dev w" and ?d1 = "(pb_dev w)\<lparr>ld_dev := (ld_dev (pb_dev w))\<lparr>d_id := gpu_id_of_data (pe_match env)\<rparr>\<rparr>"
  obtain r slab where si: "lima_sched_slab_init (pe_slab env) (pb_fence_slab w) = (r, slab)" by (cases "lima_sched_slab_init (pe_slab env) (pb_fence_slab w)")
  have slabs: "slab_ok (pb_fence_slab w)" "slab_ok (ld_gp_slab ?d)" "slab_ok (ld_pp_slab ?d)" using un by (simp_all add: unbound_def)
  have fresh: "ld_empty_vm ?d = None" "ld_dlbu ?d = None" "\<forall>p. \<not> ld_started ?d p" using un by (simp_all add: unbound_def)
  have own: "owned ?d1 = owned ?d" "pipes_idle ?d1" using un by (simp_all add: unbound_def)
  show ?thesis
  proof (cases r)
    case (E e)
    then show ?thesis using fence_slab_roundtrip [OF slabs(1) si] si un by (simp add: lima_pdev_probe_def unbound_again_def unbound_def)
  next
    case OK
    note out = err_out0_again [OF un si [unfolded OK]]
    consider (mem) "\<not> pe_kzalloc env" | (drm) e where "pe_kzalloc env" "pe_drm_alloc env = E e" | (up) "pe_kzalloc env" "pe_drm_alloc env = OK"
      by (cases "pe_drm_alloc env") auto
    then show ?thesis
    proof cases
      case mem
      have "w\<lparr>pb_fence_slab := slab, pb_dev := ?d\<rparr> = w\<lparr>pb_fence_slab := slab\<rparr>" by simp
      then have "lima_pdev_probe env w = probe_err_out0 ENOMEM (w\<lparr>pb_fence_slab := slab, pb_dev := ?d\<rparr>)"
        using mem by (simp only: lima_pdev_probe_def si OK) simp
      with out [of ?d ENOMEM] show ?thesis using fresh by auto
    next
      case (drm e)
      then have "lima_pdev_probe env w = probe_err_out0 e (w\<lparr>pb_fence_slab := slab, pb_dev := ?d1\<rparr>)"
        by (simp add: lima_pdev_probe_def si OK Let_def)
      with out [of ?d1 e] show ?thesis using fresh by (auto simp: power_def)
    next
      case up
      show ?thesis
        using device_init_owned [OF assms(1,2) own(2) own(1) [unfolded fresh_owned [OF fresh]] slabs(2,3)]
          probe_up [OF un si [unfolded OK] up] by blast
    qed
  qed
qed

lemma probe_bound:
  assumes "clock_advances (de_hw (pe_device env))" and "lima_clk_stage (de_stage (pe_device env)) = LIMA_CLK_STAGE_FULL" and "unbound w"
    and "lima_pdev_probe env w = Some (OK, w1)"
  shows "bound w w1"
  using probe_ends [OF assms(1-3)] assms(4) by auto



end
