(* ===== verification/Lima_Bridge.thy ===== *)
theory Lima_Bridge
  imports Lima_Drv_Spec
begin

text \<open>
  The driver on the bridge: the clocks and the reset line of \<open>lima_device.c\<close> translated once more, this time over the
  shims of \<open>Platform_Shims\<close>, where a handle is a pointer into the world of the bridge, and the interrupts of the blocks.
  \<open>Lima_Device\<close>, which only counts enables, is shown to be an abstraction of this.
\<close>

section \<open>Clocks and reset over the shims\<close>

text \<open>The pointers \<open>clk_bus\<close>, \<open>clk_gpu\<close> and \<open>reset\<close> of the device.\<close>

record lima_clks =
  lc_bus :: "nat option"
  lc_gpu :: "nat option"
  lc_reset :: "nat option"

text \<open>
  What clk(9), hwreset(9) and \<open>devm_add_action\<close> answer; \<open>sh_pll\<close> is the answer of \<open>lima_ccu_force_pll_gpu\<close>,
  \<open>sh_stage\<close> the tunable \<open>hw.lima.clk_stage\<close>.
\<close>

record shim_env =
  sh_stage :: "int option"
  sh_pll :: rc
  sh_clk :: "string \<Rightarrow> errno + nat"
  sh_action :: "string \<Rightarrow> rc"
  sh_enable :: "nat \<Rightarrow> rc"
  sh_reset_alloc :: bool
  sh_reset :: "errno + nat"
  sh_reset_action :: rc
  sh_deassert :: "bool \<Rightarrow> nat \<Rightarrow> rc"
  sh_assert :: "bool \<Rightarrow> nat \<Rightarrow> rc"

definition bridge_enable :: "shim_env \<Rightarrow> nat option \<Rightarrow> platform_world \<Rightarrow> rc \<times> platform_world" where
  "bridge_enable s clk = clk_prepare_enable (case clk of None \<Rightarrow> OK | Some c \<Rightarrow> sh_enable s c) clk"

definition bridge_clk_enable :: "shim_env \<Rightarrow> lima_clks \<Rightarrow> platform_world \<Rightarrow> (rc \<times> platform_world) option" where
  "bridge_clk_enable s c w =
     (let stage = lima_clk_stage (sh_stage s) in
      if stage < LIMA_CLK_STAGE_BUS then Some (OK, w)
      else case bridge_enable s (lc_bus c) w of (E e, w1) \<Rightarrow> Some (E e, w1) | (OK, w1) \<Rightarrow>
      if stage < LIMA_CLK_STAGE_CORE then Some (OK, w1)
      else case sh_pll s of E e \<Rightarrow> Some (E e, clk_disable_unprepare (lc_bus c) w1) | OK \<Rightarrow>
      case bridge_enable s (lc_gpu c) w1 of (E e, w2) \<Rightarrow> Some (E e, clk_disable_unprepare (lc_bus c) w2) | (OK, w2) \<Rightarrow>
      if stage < LIMA_CLK_STAGE_FULL then Some (OK, w2)
      else if lc_reset c = None then Some (OK, w2)
      else do {
        (r, w3) \<leftarrow> reset_control_deassert (sh_deassert s) (lc_reset c) w2;
        (case r of
           E e \<Rightarrow> Some (E e, clk_disable_unprepare (lc_bus c) (clk_disable_unprepare (lc_gpu c) w3))
         | OK \<Rightarrow> Some (OK, w3)) })"

definition bridge_clk_disable :: "shim_env \<Rightarrow> lima_clks \<Rightarrow> platform_world \<Rightarrow> platform_world option" where
  "bridge_clk_disable s c w = do {
     w1 \<leftarrow> (if lc_reset c = None then Some w else map_option snd (reset_control_assert (sh_assert s) (lc_reset c) w));
     Some (clk_disable_unprepare (lc_bus c) (clk_disable_unprepare (lc_gpu c) w1)) }"

definition bridge_clk_init ::
  "shim_env \<Rightarrow> nat \<Rightarrow> lima_clks \<Rightarrow> platform_world \<Rightarrow> (rc \<times> lima_clks \<times> platform_world) option" where
  "bridge_clk_init s d c w =
     (case devm_clk_get (sh_clk s) (sh_action s ''bus'') (Some d) ''bus'' w of
        (Inl e, w1) \<Rightarrow> Some (E e, c\<lparr>lc_bus := None\<rparr>, w1)
      | (Inr bus, w1) \<Rightarrow>
      let c1 = c\<lparr>lc_bus := bus\<rparr> in
      case devm_clk_get (sh_clk s) (sh_action s ''core'') (Some d) ''core'' w1 of
        (Inl e, w2) \<Rightarrow> Some (E e, c1\<lparr>lc_gpu := None\<rparr>, w2)
      | (Inr gpu, w2) \<Rightarrow>
      let c2 = c1\<lparr>lc_gpu := gpu\<rparr> in
      case devm_reset_control_array_get_optional_shared (sh_reset_alloc s) (sh_reset s) (sh_reset_action s) (Some d) w2 of
        (Inl e, w3) \<Rightarrow> Some (E e, c2\<lparr>lc_reset := None\<rparr>, w3)
      | (Inr rst, w3) \<Rightarrow>
      let c3 = c2\<lparr>lc_reset := rst\<rparr> in do { (r, w4) \<leftarrow> bridge_clk_enable s c3 w3; Some (r, c3, w4) })"

definition bridge_clk_fini :: "shim_env \<Rightarrow> lima_clks \<Rightarrow> platform_world \<Rightarrow> platform_world option" where
  "bridge_clk_fini s c w = bridge_clk_disable s c w"

section \<open>The answers seen by the device\<close>

text \<open>The environment of \<open>Lima_Device\<close> that stands for these answers.\<close>

definition got_clk :: "shim_env \<Rightarrow> string \<Rightarrow> rc" where
  "got_clk s i = (case sh_clk s i of Inl e \<Rightarrow> E e | Inr _ \<Rightarrow> sh_action s i)"

definition clk_on :: "shim_env \<Rightarrow> string \<Rightarrow> rc" where
  "clk_on s i = (case sh_clk s i of Inl _ \<Rightarrow> OK | Inr c \<Rightarrow> sh_enable s c)"

definition got_reset :: "shim_env \<Rightarrow> errno + bool" where
  "got_reset s =
     (if \<not> sh_reset_alloc s then Inl ENOMEM
      else case sh_reset s of
        Inl e \<Rightarrow> (if e = ENOENT then Inr False else Inl e)
      | Inr _ \<Rightarrow> (case sh_reset_action s of E e \<Rightarrow> Inl e | OK \<Rightarrow> Inr True))"

definition line_on :: "shim_env \<Rightarrow> rc" where
  "line_on s = (case sh_reset s of Inl _ \<Rightarrow> OK | Inr h \<Rightarrow> sh_deassert s True h)"

definition seen :: "shim_env \<Rightarrow> device_env \<Rightarrow> device_env" where
  "seen s env = env\<lparr>de_stage := sh_stage s, de_get_bus := got_clk s ''bus'', de_get_gpu := got_clk s ''core'',
     de_get_reset := got_reset s, de_bus_on := clk_on s ''bus'', de_gpu_on := clk_on s ''core'', de_deassert := line_on s\<rparr>"

text \<open>The PLL answers \<open>sh_pll\<close> whatever was accessed before.\<close>

definition pll_answers :: "shim_env \<Rightarrow> device_env \<Rightarrow> bool" where
  "pll_answers s env \<longleftrightarrow> (\<forall>io. fst (lima_ccu_force_pll_gpu (de_hw env) (de_force_pll env) (de_mapdev env) io) = sh_pll s)"

text \<open>
  The relation between the world and the counters of the device, both taken relative to where they started: the enables of
  each clock are those counted for the names that lead to it, and the line is out of reset while its counter is raised.
\<close>

definition clk_level :: "shim_env \<Rightarrow> lima_device \<Rightarrow> lima_device \<Rightarrow> nat \<Rightarrow> int" where
  "clk_level s dev0 dev k =
     (if sh_clk s ''bus'' = Inr k then ld_clk_bus dev - ld_clk_bus dev0 else 0) +
     (if sh_clk s ''core'' = Inr k then ld_clk_gpu dev - ld_clk_gpu dev0 else 0)"

definition clk_sim :: "shim_env \<Rightarrow> platform_world \<Rightarrow> lima_device \<Rightarrow> platform_world \<Rightarrow> lima_device \<Rightarrow> bool" where
  "clk_sim s w0 dev0 w dev \<longleftrightarrow>
     (\<forall>k. pw_clk_on w k = pw_clk_on w0 k + clk_level s dev0 dev k) \<and>
     (\<forall>k. k \<in> pw_deasserted w \<longleftrightarrow> k \<in> pw_deasserted w0 \<or> sh_reset s = Inr k \<and> ld_reset dev0 < ld_reset dev)"

text \<open>The pointers are those the shims handed out.\<close>

definition handles_ok :: "shim_env \<Rightarrow> lima_clks \<Rightarrow> platform_world \<Rightarrow> lima_device \<Rightarrow> bool" where
  "handles_ok s c w dev \<longleftrightarrow>
     (\<exists>bus gpu. sh_clk s ''bus'' = Inr bus \<and> lc_bus c = Some bus \<and> sh_clk s ''core'' = Inr gpu \<and> lc_gpu c = Some gpu) \<and>
     (if ld_has_reset dev then \<exists>a h. sh_reset s = Inr h \<and> lc_reset c = Some a \<and> pw_reset w a = Some \<lparr>rst_is_array = True, rst_handle = h\<rparr>
      else lc_reset c = None)"

section \<open>The simulation\<close>

text \<open>The world in which clock \<open>k\<close> was asked to start.\<close>

definition raised :: "shim_env \<Rightarrow> nat \<Rightarrow> platform_world \<Rightarrow> platform_world" where
  "raised s k w = (if sh_enable s k = OK then w\<lparr>pw_clk_on := (pw_clk_on w)(k := pw_clk_on w k + 1)\<rparr> else w)"

lemma bridge_enable_raised [simp]: "bridge_enable s (Some k) w = (sh_enable s k, raised s k w)"
  by (cases "sh_enable s k") (simp_all add: bridge_enable_def clk_prepare_enable_def raised_def)

lemma level_simps [simp]: "pw_clk_on (raised s k w) = (pw_clk_on w)(k := pw_clk_on w k + of_bool (sh_enable s k = OK))"
  "pw_deasserted (raised s k w) = pw_deasserted w" "pw_reset (raised s k w) = pw_reset w"
  "pw_clk_on (clk_disable_unprepare (Some k) w) = (pw_clk_on w)(k := pw_clk_on w k - 1)"
  "pw_deasserted (clk_disable_unprepare (Some k) w) = pw_deasserted w" "pw_reset (clk_disable_unprepare (Some k) w) = pw_reset w"
  by (simp_all add: raised_def clk_disable_unprepare_def)

lemma dump_simps [simp]: "ld_clk_bus (dump env d) = ld_clk_bus d" "ld_clk_gpu (dump env d) = ld_clk_gpu d" "ld_reset (dump env d) = ld_reset d"
  "ld_has_reset (dump env d) = ld_has_reset d"
  by (simp_all add: dump_def)

lemma drv_run_trans: "drv_run d w1 w2 \<Longrightarrow> drv_run d w0 w1 \<Longrightarrow> drv_run d w0 w2"
  by (induction rule: drv_run.induct) (auto intro: drv_run.intros)

lemma drv_runs:
  "drv_run d v w \<Longrightarrow> drv_run d v (raised s k w)" "drv_run d v w \<Longrightarrow> drv_run d v (clk_disable_unprepare (Some k) w)"
  "reset_control_deassert hw a w = Some (r, w') \<Longrightarrow> drv_run d v w \<Longrightarrow> drv_run d v w'"
  "reset_control_assert hw a w = Some (r, w') \<Longrightarrow> drv_run d v w \<Longrightarrow> drv_run d v w'"
proof -
  have "clk_prepare_enable (sh_enable s k) (Some k) w = (sh_enable s k, raised s k w)"
    using bridge_enable_raised [of s k w] by (simp add: bridge_enable_def)
  then show "drv_run d v (raised s k w)" if "drv_run d v w" by (rule drv_run.step [OF that drv_step.enable])
  show "drv_run d v (clk_disable_unprepare (Some k) w)" if "drv_run d v w" by (rule drv_run.step [OF that drv_step.disable])
  show "drv_run d v w'" if "reset_control_deassert hw a w = Some (r, w')" "drv_run d v w"
    by (rule drv_run.step [OF that(2) drv_step.deassert [OF that(1)]])
  show "drv_run d v w'" if "reset_control_assert hw a w = Some (r, w')" "drv_run d v w"
    by (rule drv_run.step [OF that(2) drv_step.assert [OF that(1)]])
qed

text \<open>The fields of the environment, and the PLL.\<close>

lemma seen_simps:
  assumes "handles_ok s c w dev"
  obtains bus gpu where "sh_clk s ''bus'' = Inr bus" "lc_bus c = Some bus" "sh_clk s ''core'' = Inr gpu" "lc_gpu c = Some gpu"
    "de_stage (seen s env) = sh_stage s" "de_bus_on (seen s env) = sh_enable s bus" "de_gpu_on (seen s env) = sh_enable s gpu"
    "de_hw (seen s env) = de_hw env" "de_force_pll (seen s env) = de_force_pll env" "de_mapdev (seen s env) = de_mapdev env"
    "de_deassert (seen s env) = line_on s"
  using assms by (auto simp: handles_ok_def seen_def clk_on_def)

lemma pll_answer:
  assumes "pll_answers s env"
  obtains pll_io where "\<And>io. lima_ccu_force_pll_gpu (de_hw env) (de_force_pll env) (de_mapdev env) io = (sh_pll s, pll_io io)"
proof (rule that)
  show "lima_ccu_force_pll_gpu (de_hw env) (de_force_pll env) (de_mapdev env) io =
      (sh_pll s, snd (lima_ccu_force_pll_gpu (de_hw env) (de_force_pll env) (de_mapdev env) io))" for io
    using assms by (simp add: pll_answers_def prod_eq_iff)
qed

text \<open>One run of \<open>lima_clk_enable\<close> on both sides.\<close>

definition enables :: "shim_env \<Rightarrow> device_env \<Rightarrow> nat \<Rightarrow> lima_clks \<Rightarrow> platform_world \<Rightarrow> lima_device \<Rightarrow> platform_world \<Rightarrow> lima_device \<Rightarrow> bool" where
  "enables s env d c w0 dev0 w dev \<longleftrightarrow> (\<exists>w'. bridge_clk_enable s c w = Some (fst (lima_clk_enable (seen s env) dev), w') \<and>
     clk_sim s w0 dev0 w' (snd (lima_clk_enable (seen s env) dev)) \<and> drv_run d w w' \<and> handles_ok s c w' (snd (lima_clk_enable (seen s env) dev)))"

lemma enablesI:
  assumes "bridge_clk_enable s c w = Some (fst (lima_clk_enable (seen s env) dev), w')"
    "clk_sim s w0 dev0 w' (snd (lima_clk_enable (seen s env) dev))" "drv_run d w w'" "handles_ok s c w' (snd (lima_clk_enable (seen s env) dev))"
  shows "enables s env d c w0 dev0 w dev"
  unfolding enables_def using assms by blast

lemmas enable_defs = bridge_clk_enable_def lima_clk_enable_def Let_def clk_sim_def clk_level_def bus_on_def bus_off_def gpu_on_def gpu_off_def

lemma handles_keep: "handles_ok s c w dev \<Longrightarrow> pw_reset w' = pw_reset w \<Longrightarrow> ld_has_reset dev' = ld_has_reset dev \<Longrightarrow> handles_ok s c w' dev'"
  by (simp add: handles_ok_def)

lemma clk_enable_stops:
  assumes h: "handles_ok s c w dev" and sim: "clk_sim s w0 dev0 w dev" and pll: "pll_answers s env"
    and stops: "lima_clk_stage (sh_stage s) < LIMA_CLK_STAGE_CORE \<or> sh_pll s \<noteq> OK \<or> clk_on s ''bus'' \<noteq> OK \<or> clk_on s ''core'' \<noteq> OK"
  shows "enables s env d c w0 dev0 w dev"
proof (rule seen_simps [OF h, of env], rule pll_answer [OF pll])
  fix bus gpu pll_io
  assume c: "sh_clk s ''bus'' = Inr bus" "lc_bus c = Some bus" "sh_clk s ''core'' = Inr gpu" "lc_gpu c = Some gpu"
    and seen: "de_stage (seen s env) = sh_stage s" "de_bus_on (seen s env) = sh_enable s bus" "de_gpu_on (seen s env) = sh_enable s gpu"
      "de_hw (seen s env) = de_hw env" "de_force_pll (seen s env) = de_force_pll env" "de_mapdev (seen s env) = de_mapdev env"
      "de_deassert (seen s env) = line_on s"
    and pc: "\<And>io. lima_ccu_force_pll_gpu (de_hw env) (de_force_pll env) (de_mapdev env) io = (sh_pll s, pll_io io)"
  note sm = sim [unfolded clk_sim_def clk_level_def c(1,3) sum.inject]
  let ?st = "lima_clk_stage (sh_stage s)" and ?w1 = "raised s bus w" and ?w2 = "raised s gpu (raised s bus w)"
  let ?off = "\<lambda>v. clk_disable_unprepare (Some bus) v"
  have run: "drv_run d w w" "drv_run d w ?w1" "drv_run d w (?off ?w1)" "drv_run d w (?off ?w2)" by (intro drv_runs(1,2) drv_run.stay)+
  consider (none) "?st < LIMA_CLK_STAGE_BUS" | (bus) e where "\<not> ?st < LIMA_CLK_STAGE_BUS" "sh_enable s bus = E e"
    | (stage1) "\<not> ?st < LIMA_CLK_STAGE_BUS" "sh_enable s bus = OK" "?st < LIMA_CLK_STAGE_CORE"
    | (pll) e where "\<not> ?st < LIMA_CLK_STAGE_BUS" "sh_enable s bus = OK" "\<not> ?st < LIMA_CLK_STAGE_CORE" "sh_pll s = E e"
    | (gpu) e where "\<not> ?st < LIMA_CLK_STAGE_BUS" "sh_enable s bus = OK" "\<not> ?st < LIMA_CLK_STAGE_CORE" "sh_pll s = OK" "sh_enable s gpu = E e"
    using stops by (cases "sh_enable s bus"; cases "sh_pll s"; cases "sh_enable s gpu") (auto simp: clk_on_def c)
  then show ?thesis
  proof cases
    case none
    show ?thesis by (rule enablesI [where w' = w]) (use none sm run in \<open>simp_all add: enable_defs seen c pc handles_keep [OF h]\<close>)
  next
    case bus
    show ?thesis by (rule enablesI [where w' = ?w1]) (use bus sm run in \<open>simp_all add: enable_defs seen c pc handles_keep [OF h]\<close>)
  next
    case stage1
    show ?thesis by (rule enablesI [where w' = ?w1]) (use stage1 sm run in \<open>simp_all add: enable_defs seen c pc handles_keep [OF h]\<close>)
  next
    case pll
    show ?thesis by (rule enablesI [where w' = "?off ?w1"]) (use pll sm run in \<open>simp_all add: enable_defs seen c pc handles_keep [OF h]\<close>)
  next
    case gpu
    show ?thesis by (rule enablesI [where w' = "?off ?w2"]) (use gpu sm run in \<open>simp_all add: enable_defs seen c pc handles_keep [OF h]\<close>)
  qed
qed

lemma clk_enable_runs:
  assumes h: "handles_ok s c w dev" and sim: "clk_sim s w0 dev0 w dev" and r0: "ld_reset dev = ld_reset dev0" and pll: "pll_answers s env"
    and on: "\<not> lima_clk_stage (sh_stage s) < LIMA_CLK_STAGE_CORE" "sh_pll s = OK" "clk_on s ''bus'' = OK" "clk_on s ''core'' = OK"
  shows "enables s env d c w0 dev0 w dev"
proof (rule seen_simps [OF h, of env], rule pll_answer [OF pll])
  fix bus gpu pll_io
  assume c: "sh_clk s ''bus'' = Inr bus" "lc_bus c = Some bus" "sh_clk s ''core'' = Inr gpu" "lc_gpu c = Some gpu"
    and seen: "de_stage (seen s env) = sh_stage s" "de_bus_on (seen s env) = sh_enable s bus" "de_gpu_on (seen s env) = sh_enable s gpu"
      "de_hw (seen s env) = de_hw env" "de_force_pll (seen s env) = de_force_pll env" "de_mapdev (seen s env) = de_mapdev env"
      "de_deassert (seen s env) = line_on s"
    and pc: "\<And>io. lima_ccu_force_pll_gpu (de_hw env) (de_force_pll env) (de_mapdev env) io = (sh_pll s, pll_io io)"
  note sm = sim [unfolded clk_sim_def clk_level_def c(1,3) sum.inject]
  let ?st = "lima_clk_stage (sh_stage s)" and ?w2 = "raised s gpu (raised s bus w)"
  let ?off = "clk_disable_unprepare (Some bus) (clk_disable_unprepare (Some gpu) ?w2)"
  have ok: "sh_enable s bus = OK" "sh_enable s gpu = OK" using on by (simp_all add: clk_on_def c)
  have st: "\<not> ?st < LIMA_CLK_STAGE_BUS" using on(1) by (simp add: LIMA_CLK_STAGE_BUS_def LIMA_CLK_STAGE_CORE_def)
  have run: "drv_run d w ?w2" "drv_run d w ?off" by (intro drv_runs(1,2) drv_run.stay)+
  show ?thesis
  proof (cases "?st < LIMA_CLK_STAGE_FULL \<or> \<not> ld_has_reset dev")
    case True
    then have "?st < LIMA_CLK_STAGE_FULL \<or> lc_reset c = None" using h by (auto simp: handles_ok_def)
    then show ?thesis unfolding enables_def
      using True on st ok sm run by (auto simp: enable_defs seen c pc handles_keep [OF h])
  next
    case False
    then obtain a line where a: "sh_reset s = Inr line" "lc_reset c = Some a" "pw_reset w a = Some \<lparr>rst_is_array = True, rst_handle = line\<rparr>"
      using h by (auto simp: handles_ok_def)
    let ?w3 = "?w2\<lparr>pw_deasserted := insert line (pw_deasserted ?w2)\<rparr>"
    have rst: "reset_control_deassert (sh_deassert s) (Some a) ?w2 =
        Some (case sh_deassert s True line of E e \<Rightarrow> (E e, ?w2) | OK \<Rightarrow> (OK, ?w3))"
      using a by (simp add: reset_control_deassert_def split: rc.split)
    show ?thesis
    proof (cases "sh_deassert s True line")
      case OK
      have "drv_run d w ?w3" using drv_runs(3) [OF rst [unfolded OK rc.case] run(1)] .
      moreover have "clk_sim s w0 dev0 ?w3 (dump (seen s env) ((dump (seen s env) (gpu_on x))\<lparr>ld_reset := ld_reset dev + 1\<rparr>))"
        if "ld_clk_bus x = ld_clk_bus dev + 1" "ld_clk_gpu x = ld_clk_gpu dev" for x
        using sm r0 ok that by (auto simp: clk_sim_def clk_level_def c a gpu_on_def)
      ultimately show ?thesis unfolding enables_def using False on st ok OK
        by (auto simp: bridge_clk_enable_def lima_clk_enable_def Let_def seen c pc a rst line_on_def bus_on_def gpu_on_def handles_keep [OF h])
    next
      case (E e)
      then show ?thesis unfolding enables_def using False on st ok sm run(2)
        by (simp add: enable_defs seen c pc a rst line_on_def handles_keep [OF h])
    qed
  qed
qed

lemma clk_enable_sim:
  assumes "handles_ok s c w dev" "clk_sim s w0 dev0 w dev" "ld_reset dev = ld_reset dev0" "pll_answers s env"
  shows "enables s env d c w0 dev0 w dev"
  using clk_enable_stops [OF assms(1,2,4)] clk_enable_runs [OF assms] by blast

text \<open>Obtaining the pointers changes no level.\<close>

lemma clk_get_eq:
  assumes "life w0 d w"
  shows "devm_clk_get by_name act (Some d) i w = (case by_name i of Inl e \<Rightarrow> (Inl e, w) | Inr k \<Rightarrow>
     (case act of E e \<Rightarrow> (Inl e, w) | OK \<Rightarrow> (Inr (Some k), add_devres d (DR_clk k) (w\<lparr>pw_clk := (pw_clk w)(k := pw_clk w k + 1)\<rparr>))))"
proof -
  have "clk_release k (w\<lparr>pw_clk := (pw_clk w)(k := pw_clk w k + 1)\<rparr>) = w" for k by (simp add: clk_release_def)
  moreover have "to_platform_device w (Some d) = Some d" "pd_bsddev (pw_dev w d)"
    using lifeD(5) [OF assms] by (simp_all add: bound_ok_def Let_def to_platform_device_def)
  ultimately show ?thesis by (simp add: devm_clk_get_def lima_devm_clk_get_common_def Let_def split: sum.split rc.split)
qed

lemma clk_get_run: "drv_run d w (snd (devm_clk_get by_name act (Some d) i w))"
  by (rule drv_run.step [OF drv_run.stay drv_step.clk]) (simp add: devm_clk_get_def prod_eq_iff)

lemma reset_get_run: "drv_run d w (snd (reset_get arr alloc answer act (Some d) w))"
  by (rule drv_run.step [OF drv_run.stay drv_step.reset]) (simp add: prod_eq_iff)

lemma reset_get_obs:
  assumes l: "life w0 d w" and get: "reset_get arr alloc answer act (Some d) w = (r, w')"
  shows "pw_clk_on w' = pw_clk_on w" "pw_deasserted w' = pw_deasserted w"
    "case r of Inl e \<Rightarrow> \<not> alloc \<and> e = ENOMEM \<or> alloc \<and> (answer = Inl e \<and> e \<noteq> ENOENT \<or> (\<exists>h. answer = Inr h) \<and> act = E e)
     | Inr None \<Rightarrow> alloc \<and> answer = Inl ENOENT
     | Inr (Some a) \<Rightarrow> alloc \<and> act = OK \<and> (\<exists>h. answer = Inr h \<and> pw_reset w' a = Some \<lparr>rst_is_array = arr, rst_handle = h\<rparr>)"
proof -
  have "to_platform_device w (Some d) = Some d" "pd_bsddev (pw_dev w d)"
    using lifeD(5) [OF l] by (simp_all add: bound_ok_def Let_def to_platform_device_def)
  then show "pw_clk_on w' = pw_clk_on w" "pw_deasserted w' = pw_deasserted w"
    "case r of Inl e \<Rightarrow> \<not> alloc \<and> e = ENOMEM \<or> alloc \<and> (answer = Inl e \<and> e \<noteq> ENOENT \<or> (\<exists>h. answer = Inr h) \<and> act = E e)
     | Inr None \<Rightarrow> alloc \<and> answer = Inl ENOENT
     | Inr (Some a) \<Rightarrow> alloc \<and> act = OK \<and> (\<exists>h. answer = Inr h \<and> pw_reset w' a = Some \<lparr>rst_is_array = arr, rst_handle = h\<rparr>)"
    using get by (auto simp: reset_get_def Let_def add_devres_def upd_dev_def hwreset_release_def split: if_splits sum.splits rc.splits)
qed

definition same_levels :: "platform_world \<Rightarrow> platform_world \<Rightarrow> bool" where
  "same_levels w w' \<longleftrightarrow> pw_clk_on w' = pw_clk_on w \<and> pw_deasserted w' = pw_deasserted w"

lemma same_levels_trans: "same_levels w w1 \<Longrightarrow> same_levels w1 w2 \<Longrightarrow> same_levels w w2"
  by (simp add: same_levels_def)

lemma clk_get_sim:
  assumes l: "life w0 d v" and base: "fresh_ok w0"
  obtains v' where "devm_clk_get (sh_clk s) (sh_action s i) (Some d) i v =
      (case got_clk s i of E e \<Rightarrow> Inl e | OK \<Rightarrow> Inr (Some (projr (sh_clk s i))), v')"
    "drv_run d v v'" "life w0 d v'" "same_levels v v'"
proof (rule that)
  let ?get = "devm_clk_get (sh_clk s) (sh_action s i) (Some d) i v"
  show "?get = (case got_clk s i of E e \<Rightarrow> Inl e | OK \<Rightarrow> Inr (Some (projr (sh_clk s i))), snd ?get)"
    by (auto simp: clk_get_eq [OF l] got_clk_def prod_eq_iff split: sum.split rc.split)
  show run: "drv_run d v (snd ?get)" by (rule clk_get_run)
  show "life w0 d (snd ?get)" by (rule run_life [OF run l base])
  show "same_levels v (snd ?get)" by (auto simp: clk_get_eq [OF l] add_devres_def same_levels_def split: sum.split rc.split)
qed

definition line_got :: "shim_env \<Rightarrow> errno + nat option \<Rightarrow> platform_world \<Rightarrow> bool" where
  "line_got s r w = (case r of
     Inl e \<Rightarrow> got_reset s = Inl e
   | Inr None \<Rightarrow> got_reset s = Inr False
   | Inr (Some a) \<Rightarrow> got_reset s = Inr True \<and> (\<exists>h. sh_reset s = Inr h \<and> pw_reset w a = Some \<lparr>rst_is_array = True, rst_handle = h\<rparr>))"

lemma reset_get_sim:
  assumes l: "life w0 d v" and base: "fresh_ok w0"
  obtains r v' where "devm_reset_control_array_get_optional_shared (sh_reset_alloc s) (sh_reset s) (sh_reset_action s) (Some d) v = (r, v')"
    "drv_run d v v'" "life w0 d v'" "same_levels v v'" "line_got s r v'"
proof (rule that)
  let ?get = "reset_get True (sh_reset_alloc s) (sh_reset s) (sh_reset_action s) (Some d) v"
  show "devm_reset_control_array_get_optional_shared (sh_reset_alloc s) (sh_reset s) (sh_reset_action s) (Some d) v = (fst ?get, snd ?get)"
    by (simp add: devm_reset_control_array_get_optional_shared_def)
  show run: "drv_run d v (snd ?get)" by (rule reset_get_run)
  show "life w0 d (snd ?get)" by (rule run_life [OF run l base])
  note obs = reset_get_obs [OF l, of True "sh_reset_alloc s" "sh_reset s" "sh_reset_action s" "fst ?get" "snd ?get"]
  show "same_levels v (snd ?get)" using obs(1,2) by (simp add: same_levels_def)
  show "line_got s (fst ?get) (snd ?get)" using obs(3) by (auto simp: line_got_def got_reset_def split: sum.splits option.splits)
qed

lemma clk_init_sim:
  assumes l: "life w0 d w" and base: "fresh_ok w0" and pll: "pll_answers s env"
  shows "\<exists>c' w'. bridge_clk_init s d c w = Some (fst (lima_clk_init (seen s env) dev), c', w') \<and>
    clk_sim s w dev w' (snd (lima_clk_init (seen s env) dev)) \<and> drv_run d w w' \<and> life w0 d w' \<and>
    (fst (lima_clk_init (seen s env) dev) = OK \<longrightarrow> handles_ok s c' w' (snd (lima_clk_init (seen s env) dev)))"
proof -
  have idle: "clk_sim s w dev v (dev\<lparr>ld_has_reset := r\<rparr>)" "clk_sim s w dev v dev" if "same_levels w v" for v r
    using that by (simp_all add: clk_sim_def clk_level_def same_levels_def)
  have seen: "de_get_bus (seen s env) = got_clk s ''bus''" "de_get_gpu (seen s env) = got_clk s ''core''" "de_get_reset (seen s env) = got_reset s"
    by (simp_all add: seen_def)
  obtain w1 where w1: "devm_clk_get (sh_clk s) (sh_action s ''bus'') (Some d) ''bus'' w =
      (case got_clk s ''bus'' of E e \<Rightarrow> Inl e | OK \<Rightarrow> Inr (Some (projr (sh_clk s ''bus''))), w1)"
    "drv_run d w w1" "life w0 d w1" "same_levels w w1" by (rule clk_get_sim [OF l base])
  obtain w2 where w2: "devm_clk_get (sh_clk s) (sh_action s ''core'') (Some d) ''core'' w1 =
      (case got_clk s ''core'' of E e \<Rightarrow> Inl e | OK \<Rightarrow> Inr (Some (projr (sh_clk s ''core''))), w2)"
    "drv_run d w1 w2" "life w0 d w2" "same_levels w1 w2" by (rule clk_get_sim [OF w1(3) base])
  obtain r w3 where w3: "devm_reset_control_array_get_optional_shared (sh_reset_alloc s) (sh_reset s) (sh_reset_action s) (Some d) w2 = (r, w3)"
    "drv_run d w2 w3" "life w0 d w3" "same_levels w2 w3" "line_got s r w3" by (rule reset_get_sim [OF w2(3) base])
  have run2: "drv_run d w w2" by (rule drv_run_trans [OF w2(2) w1(2)])
  have run3: "drv_run d w w3" by (rule drv_run_trans [OF w3(2) run2])
  have lv2: "same_levels w w2" by (rule same_levels_trans [OF w1(4) w2(4)])
  have lv3: "same_levels w w3" by (rule same_levels_trans [OF lv2 w3(4)])
  consider (bus) e where "got_clk s ''bus'' = E e" | (core) e where "got_clk s ''bus'' = OK" "got_clk s ''core'' = E e"
    | (reset) e where "got_clk s ''bus'' = OK" "got_clk s ''core'' = OK" "r = Inl e"
    | (got) a where "got_clk s ''bus'' = OK" "got_clk s ''core'' = OK" "r = Inr a"
    by (cases "got_clk s ''bus''"; cases "got_clk s ''core''"; cases r) auto
  then show ?thesis
  proof cases
    case bus
    then show ?thesis using w1 idle(2) by (simp add: bridge_clk_init_def lima_clk_init_def seen)
  next
    case core
    then show ?thesis using w1(1) w2 run2 lv2 idle(2) by (simp add: bridge_clk_init_def lima_clk_init_def Let_def seen)
  next
    case reset
    then show ?thesis using w1(1) w2(1) w3 run3 lv3 idle
      by (simp add: bridge_clk_init_def lima_clk_init_def Let_def seen line_got_def)
  next
    case got
    let ?c = "c\<lparr>lc_bus := Some (projr (sh_clk s ''bus'')), lc_gpu := Some (projr (sh_clk s ''core'')), lc_reset := a\<rparr>"
    let ?dev = "dev\<lparr>ld_has_reset := a \<noteq> None\<rparr>"
    have gr: "got_reset s = Inr (a \<noteq> None)" using w3(5) got(3) by (cases a) (auto simp: line_got_def)
    have ks: "sh_clk s i = Inr (projr (sh_clk s i))" if "got_clk s i = OK" for i using that by (auto simp: got_clk_def split: sum.splits)
    have "handles_ok s ?c w3 ?dev"
      using ks [OF got(1)] ks [OF got(2)] w3(5) got(3) by (cases a) (auto simp: handles_ok_def line_got_def)
    from clk_enable_sim [OF this idle(1) [OF lv3] _ pll, of d] obtain w' where
      w': "bridge_clk_enable s ?c w3 = Some (fst (lima_clk_enable (seen s env) ?dev), w')"
      "clk_sim s w dev w' (snd (lima_clk_enable (seen s env) ?dev))" "drv_run d w3 w'"
      "handles_ok s ?c w' (snd (lima_clk_enable (seen s env) ?dev))" unfolding enables_def by auto
    have run: "drv_run d w w'" by (rule drv_run_trans [OF w'(3) run3])
    have "bridge_clk_init s d c w = Some (fst (lima_clk_enable (seen s env) ?dev), ?c, w')"
      using w'(1) by (simp add: bridge_clk_init_def Let_def w1(1) w2(1) w3(1) got)
    moreover have "lima_clk_init (seen s env) dev = lima_clk_enable (seen s env) ?dev" by (simp add: lima_clk_init_def seen got gr)
    ultimately show ?thesis using w'(2,4) run run_life [OF run l base] by auto
  qed
qed

text \<open>
  C38: The clocks and the reset line over the shims refine the counters of the device: whatever the shims answer, \<open>lima_clk_init\<close>
  returns, with the code the abstract one computes from these answers; every enable of a clock is counted under
  the name that leads to it and the line is out of reset while its counter is raised; it makes only steps of a driver;
  and when it succeeds, the pointers it leaves are the clocks and the (live) reset control it asked for.
\<close>

theorem lima_clk_init_refines_shims:
  assumes l: "life w0 d w" and base: "fresh_ok w0" and pll: "pll_answers s env"
  shows "\<exists>c' w'. bridge_clk_init s d c w = Some (fst (lima_clk_init (seen s env) dev), c', w') \<and>
    clk_sim s w dev w' (snd (lima_clk_init (seen s env) dev)) \<and> drv_run d w w' \<and> life w0 d w' \<and>
    (fst (lima_clk_init (seen s env) dev) = OK \<longrightarrow> handles_ok s c' w' (snd (lima_clk_init (seen s env) dev)))"
  by (rule clk_init_sim [OF assms])

section \<open>Back to the levels of before\<close>

lemma each_levels:
  assumes "\<And>x w w'. f x w = Some w' \<Longrightarrow> same_levels w w'"
  shows "each f xs w = Some w' \<Longrightarrow> same_levels w w'"
proof (induction xs arbitrary: w)
  case (Cons x xs)
  then obtain w1 where "f x w = Some w1" "each f xs w1 = Some w'" by (auto simp: bind_eq_Some_conv)
  then show ?case using assms Cons.IH same_levels_trans by blast
qed (simp add: same_levels_def)

lemma teardown_levels: "lkpi_platform_irq_teardown e w = Some w' \<Longrightarrow> same_levels w w'"
  by (auto simp: lkpi_platform_irq_teardown_def same_levels_def bind_eq_Some_conv Let_def split: option.splits)

lemma release_levels: "release_devres r w = Some w' \<Longrightarrow> same_levels w w'"
  by (cases r) (auto simp: release_devres_def bind_eq_Some_conv clk_release_def hwreset_release_def same_levels_def
      dest: teardown_levels [unfolded same_levels_def])

lemma wind_up_levels: "wind_up d w = Some w' \<Longrightarrow> same_levels w w'"
proof -
  have put: "same_levels w w'" if "put_device d w = Some w'" for w w'
    using that each_levels [of release_devres, OF release_levels]
    by (auto simp: put_device_def lkpi_platform_dev_release_def Let_def same_levels_def split: if_splits)
  have one: "same_levels w w'" if "bus_release d r w = Some w'" for r w w'
    using that by (auto simp: bus_release_def same_levels_def bind_eq_Some_conv)
  have res: "same_levels w w'" if rel: "release_resources d w = Some w'" for w w'
  proof -
    obtain w1 w2 where w: "each (\<lambda>i. bus_release d (pd_irq (pw_dev w d) i)) [0..<pd_nirq (pw_dev w d)] w = Some w1"
      "each (\<lambda>i. bus_release d (pd_mem (pw_dev w d) i)) [0..<pd_nmem (pw_dev w d)] w1 = Some w2" "same_levels w2 w'"
      using rel by (auto simp: release_resources_def Let_def bind_eq_Some_conv same_levels_def)
    have "same_levels w w1" by (rule each_levels [OF one w(1)])
    moreover have "same_levels w1 w2" by (rule each_levels [OF one w(2)])
    ultimately show ?thesis using w(3) same_levels_trans by blast
  qed
  have "same_levels w (lkpi_platform_dma_fini d (lkpi_platform_unpublish d w))"
    by (simp add: lkpi_platform_dma_fini_def lkpi_platform_unpublish_def same_levels_def split: option.split)
  then show "wind_up d w = Some w' \<Longrightarrow> same_levels w w'"
    using put res same_levels_trans unfolding wind_up_def by (auto simp: bind_eq_Some_conv) metis
qed

text \<open>A pointer to a reset control stays good until the device is released.\<close>

lemma line_only:
  assumes "reset_control_deassert hw c w = Some (r, w') \<or> reset_control_assert hw c w = Some (r, w')"
  shows "pw_reset w' = pw_reset w"
proof (cases c)
  case None
  then show ?thesis using assms by (auto simp: reset_control_deassert_def reset_control_assert_def)
next
  case (Some a)
  then obtain rc where "pw_reset w a = Some rc"
    using assms by (auto simp: reset_control_deassert_def reset_control_assert_def bind_eq_Some_conv)
  then show ?thesis using assms Some
    by (cases "hw (rst_is_array rc) (rst_handle rc)") (auto simp: reset_control_deassert_def reset_control_assert_def)
qed

lemma step_keeps_reset:
  assumes "drv_step d w w'" and "life w0 d w" and a: "pw_reset w a = Some rc"
  shows "pw_reset w' a = Some rc"
proof -
  have new: "a \<noteq> pw_next w" using frameD(3) [OF lifeD(1) [OF assms(2)], of a] a by auto
  from assms(1) show ?thesis
  proof cases
    case (request num irq xdev env h th arg r)
    then show ?thesis using a by (auto simp: lkpi_platform_request_irq_def Let_def split: option.splits if_splits rc.splits)
  next
    case (free num irq xdev)
    then show ?thesis using a
      by (auto simp: lkpi_platform_free_irq_def lkpi_platform_irq_teardown_def Let_def bind_eq_Some_conv split: option.splits if_splits)
  next
    case (clk by_name act i opt c)
    then show ?thesis using a
      by (auto simp: lima_devm_clk_get_common_def Let_def add_devres_def clk_release_def split: option.splits if_splits sum.splits rc.splits)
  next
    case (enable en c r)
    then show ?thesis using a by (auto simp: clk_prepare_enable_def split: option.splits rc.splits)
  next
    case (disable c)
    then show ?thesis using a by (auto simp: clk_disable_unprepare_def split: option.splits)
  next
    case (reset arr alloc answer act c)
    then show ?thesis using a new
      by (auto simp: reset_get_def Let_def add_devres_def hwreset_release_def split: option.splits if_splits sum.splits rc.splits)
  next
    case (deassert hw c r)
    then show ?thesis using a line_only by metis
  next
    case (assert hw c r)
    then show ?thesis using a line_only by metis
  qed
qed

lemma run_keeps_reset: "drv_run d w w' \<Longrightarrow> life w0 d w \<Longrightarrow> fresh_ok w0 \<Longrightarrow> pw_reset w a = Some rc \<Longrightarrow> pw_reset w' a = Some rc"
  by (induction rule: drv_run.induct) (blast intro: step_keeps_reset run_life)+

section \<open>From attach to detach\<close>

lemma clk_fini_sim:
  assumes h: "handles_ok s c w dev" and sim: "clk_sim s w0 dev0 w dev" and up: "ld_reset dev \<le> ld_reset dev0 + 1"
    and line: "\<And>h. sh_reset s = Inr h \<Longrightarrow> sh_assert s True h = OK \<and> h \<notin> pw_deasserted w0"
  obtains w' where "bridge_clk_fini s c w = Some w'" "clk_sim s w0 dev0 w' (lima_clk_fini dev)" "drv_run d w w'"
proof -
  obtain bus gpu where c: "sh_clk s ''bus'' = Inr bus" "lc_bus c = Some bus" "sh_clk s ''core'' = Inr gpu" "lc_gpu c = Some gpu"
    using h by (auto simp: handles_ok_def)
  note defs = bridge_clk_fini_def bridge_clk_disable_def lima_clk_fini_def lima_clk_disable_def bus_off_def gpu_off_def clk_sim_def clk_level_def
  note sm = sim [unfolded clk_sim_def clk_level_def c(1,3) sum.inject]
  let ?off = "\<lambda>v. clk_disable_unprepare (Some bus) (clk_disable_unprepare (Some gpu) v)"
  have run: "drv_run d w (?off v)" if "drv_run d w v" for v
    using that by (intro drv_runs(1,2))
  show thesis
  proof (cases "ld_has_reset dev")
    case False
    then have "lc_reset c = None" using h by (simp add: handles_ok_def)
    then show ?thesis using False that [of "?off w"] sm run [OF drv_run.stay] by (simp add: defs c)
  next
    case True
    then obtain a hd' where a: "sh_reset s = Inr hd'" "lc_reset c = Some a" "pw_reset w a = Some \<lparr>rst_is_array = True, rst_handle = hd'\<rparr>"
      using h by (auto simp: handles_ok_def)
    let ?w1 = "w\<lparr>pw_deasserted := pw_deasserted w - {hd'}\<rparr>"
    have rst: "reset_control_assert (sh_assert s) (Some a) w = Some (OK, ?w1)"
      using line [OF a(1)] a(3) by (simp add: reset_control_assert_def)
    have "clk_sim s w0 dev0 (?off ?w1) (lima_clk_fini dev)"
      using True sm up line [OF a(1)] by (auto simp: defs c a)
    then show ?thesis using that [of "?off ?w1"] run [OF drv_runs(4) [OF rst drv_run.stay]] by (simp add: bridge_clk_fini_def bridge_clk_disable_def c a rst)
  qed
qed

text \<open>Counters that are back where they were are levels that are back.\<close>

lemma sim_back:
  assumes "clk_sim s w0 dev0 w dev" "ld_clk_bus dev = ld_clk_bus dev0" "ld_clk_gpu dev = ld_clk_gpu dev0" "ld_reset dev = ld_reset dev0"
  shows "same_levels w0 w"
  using assms by (auto simp: clk_sim_def clk_level_def same_levels_def)

lemma clk_counters:
  assumes "lima_clk_stage (sh_stage s) = LIMA_CLK_STAGE_FULL"
  shows "if fst (lima_clk_init (seen s env) dev) = OK
    then ld_reset (snd (lima_clk_init (seen s env) dev)) \<le> ld_reset dev + 1 \<and>
      ld_clk_bus (lima_clk_fini (snd (lima_clk_init (seen s env) dev))) = ld_clk_bus dev \<and>
      ld_clk_gpu (lima_clk_fini (snd (lima_clk_init (seen s env) dev))) = ld_clk_gpu dev \<and>
      ld_reset (lima_clk_fini (snd (lima_clk_init (seen s env) dev))) = ld_reset dev
    else ld_clk_bus (snd (lima_clk_init (seen s env) dev)) = ld_clk_bus dev \<and>
      ld_clk_gpu (snd (lima_clk_init (seen s env) dev)) = ld_clk_gpu dev \<and> ld_reset (snd (lima_clk_init (seen s env) dev)) = ld_reset dev"
proof -
  obtain r dev' where init: "lima_clk_init (seen s env) dev = (r, dev')" by fastforce
  obtain rest where own: "owned dev = ((ld_clk_bus dev, ld_clk_gpu dev, ld_reset dev, ld_supply dev), ld_has_reset dev, rest)"
    by (simp add: owned_defs)
  have "lima_clk_stage (de_stage (seen s env)) = LIMA_CLK_STAGE_FULL" using assms by (simp add: seen_def)
  from clk_init_full [OF this init own] obtain hr where "owned dev' = (if r = OK then (ld_clk_bus dev + 1, ld_clk_gpu dev + 1,
      ld_reset dev + of_bool hr, ld_supply dev) else (ld_clk_bus dev, ld_clk_gpu dev, ld_reset dev, ld_supply dev), hr, rest)" by blast
  then show ?thesis unfolding init
    by (auto simp: owned_defs lima_clk_fini_def lima_clk_disable_def bus_off_def gpu_off_def split: if_splits)
qed

lemma attach_probe_ends:
  assumes probe: "dr_probe drv = Some probe" and base: "fresh_ok w0" "d \<notin> set (pw_list w0)"
  obtains r w1 where "lkpi_platform_bus_attach env d drv w0 = Some (r, w1)" "r \<noteq> OK" "given_back w0 w1" "same_levels w0 w1"
  | w where "life w0 d w" "same_levels w0 w" "lkpi_platform_bus_attach env d drv w0 =
      do { (r, w5) \<leftarrow> probe d w; (case r of OK \<Rightarrow> Some (OK, w5) | E e \<Rightarrow> do { w6 \<leftarrow> wind_up d w5; Some (E e, w6) }) }"
proof (rule attach_eq [OF probe, of env d w0])
  fix v
  assume l: "fresh_ok w0 \<Longrightarrow> life w0 d (ready d v w0)" and eq: "lkpi_platform_bus_attach env d drv w0 =
      (if be_kobject env \<noteq> OK then
         Some (E ENOMEM, (upd_dev d (\<lambda>_. v\<lparr>pd_magic := 0\<rparr>) w0))
       else if be_dma_tag env \<noteq> OK \<or> be_dma_tag_coherent env \<noteq> OK \<or> \<not> be_layout env then
         Some (dma_result env, (upd_dev d (\<lambda>_. (born v)\<lparr>pd_kref := 0, pd_magic := 0\<rparr>) w0)\<lparr>pw_tags := pw_tags w0 + dma_leak env\<rparr>)
       else do {
         (r, w5) \<leftarrow> probe d (ready d v w0);
         (case r of OK \<Rightarrow> Some (OK, w5) | E e \<Rightarrow> do { w6 \<leftarrow> wind_up d w5; Some (E e, w6) }) })"
  have lv: "same_levels w0 (ready d v w0)" by (simp add: same_levels_def ready_def)
  show thesis
  proof (cases "be_kobject env \<noteq> OK \<or> be_dma_tag env \<noteq> OK \<or> be_dma_tag_coherent env \<noteq> OK \<or> \<not> be_layout env")
    case True
    let ?bad = "be_dma_tag env \<noteq> OK \<or> be_dma_tag_coherent env \<noteq> OK \<or> \<not> be_layout env"
    have "dma_result env \<noteq> OK" if ?bad using that by (auto simp: dma_result_def split: rc.split)
    then show thesis using True that(1) unfolding eq
      by (cases "be_kobject env = OK") (simp_all add: given_back_def same_levels_def)
  next
    case False
    then have "lkpi_platform_bus_attach env d drv w0 =
      do { (r, w5) \<leftarrow> probe d (ready d v w0); (case r of OK \<Rightarrow> Some (OK, w5) | E e \<Rightarrow> do { w6 \<leftarrow> wind_up d w5; Some (E e, w6) }) }"
      unfolding eq by simp
    then show thesis using that(2) l [OF base(1)] lv by blast
  qed
qed

lemma wind_up_life:
  assumes l: "life w0 d w" and base: "fresh_ok w0" "d \<notin> set (pw_list w0)"
  obtains w' where "wind_up d w = Some w'" "given_back w0 w'" "same_levels w w'"
  by (rule wind_up_handlers [OF l base]) (use wind_up_levels in blast)

text \<open>The remove half: from any world the driver reached without touching the levels.\<close>

lemma clk_detach:
  assumes base: "fresh_ok w0" "d \<notin> set (pw_list w0)" and stage: "lima_clk_stage (sh_stage s) = LIMA_CLK_STAGE_FULL"
    and line: "\<And>h. sh_reset s = Inr h \<Longrightarrow> sh_assert s True h = OK \<and> h \<notin> pw_deasserted w"
    and l: "life w0 d w1" and run: "drv_run d w1 w2" and same: "same_levels w1 w2"
    and sim: "clk_sim s w dev w1 (snd (lima_clk_init (seen s denv) dev))" and ok: "fst (lima_clk_init (seen s denv) dev) = OK"
    and h: "handles_ok s c w1 (snd (lima_clk_init (seen s denv) dev))"
  shows "\<exists>w3. lkpi_platform_bus_detach d (drv\<lparr>dr_remove := Some (\<lambda>_. bridge_clk_fini s c)\<rparr>) w2 = Some w3 \<and>
    given_back w0 w3 \<and> pw_handlers w3 = pw_handlers w0 \<and> same_levels w w3"
proof -
  let ?up = "snd (lima_clk_init (seen s denv) dev)"
  note counters = clk_counters [OF stage, of denv dev]
  have l2: "life w0 d w2" by (rule run_life [OF run l base(1)])
  have h2: "handles_ok s c w2 ?up" using h run_keeps_reset [OF run l base(1)] by (auto simp: handles_ok_def split: if_splits)
  have sim2: "clk_sim s w dev w2 ?up" using sim same by (simp add: clk_sim_def same_levels_def)
  obtain v where v: "bridge_clk_fini s c w2 = Some v" "clk_sim s w dev v (lima_clk_fini ?up)" "drv_run d w2 v"
    using clk_fini_sim [OF h2 sim2 _ line] counters ok by auto
  have lv3: "same_levels w v" using sim_back [OF v(2)] counters ok by simp
  obtain w3 where w3: "wind_up d (fold (detach_intr d) [0..<pd_nirq (pw_dev v d)] v) = Some w3" "given_back w0 w3"
    "pw_handlers w3 = pw_handlers w0" by (rule detach_life [OF run_life [OF v(3) l2 base(1)] base])
  have "same_levels v (fold (detach_intr d) [0..<pd_nirq (pw_dev v d)] v)" by (simp add: detach_intr_fold same_levels_def)
  then have "same_levels w w3" using lv3 wind_up_levels [OF w3(1)] same_levels_trans by blast
  moreover have "pd_magic (pw_dev w2 d) = LKPI_PLATFORM_DEVICE_MAGIC" using lifeD(5) [OF l2] by (simp add: bound_ok_def Let_def)
  ultimately show ?thesis using w3 by (simp add: detach_eq v(1))
qed


end
