(* ===== verification/Lima_Irq.thy ===== *)
theory Lima_Irq
  imports Lima_Bridge
begin

text \<open>
  The interrupts of the blocks: what \<open>lima_init_ip\<close> (\<open>lima_device.c\<close>) and the callbacks it calls do on the bridge, and
  that an interrupt of the device reaches the handler of the block it is named after.
\<close>

section \<open>The interrupt of a block\<close>

text \<open>The callbacks that call \<open>devm_request_irq\<close>, for a block with an interrupt.\<close>

definition requests_irq :: "ip_func \<Rightarrow> bool" where
  "requests_irq f \<longleftrightarrow> f = ip_gp \<or> f = ip_mmu \<or> f = ip_pp \<or> f = ip_pp_bcast"

text \<open>
  \<open>bi_before\<close> and \<open>bi_after\<close> are what the callback answers from the registers of the block before and behind
  the request; \<open>bi_handler\<close> is the address of the handler of a callback, \<open>bi_arg\<close> that of \<open>dev->ip[i]\<close>.
\<close>

record block_env =
  bi_bus :: bus_env
  bi_other :: "nat option \<Rightarrow> u32 \<Rightarrow> platform_world \<Rightarrow> rc \<times> platform_world"
  bi_request :: "lima_ip_id \<Rightarrow> request_env"
  bi_handler :: "ip_func \<Rightarrow> nat"
  bi_arg :: "lima_ip_id \<Rightarrow> nat"
  bi_before :: "lima_ip_id \<Rightarrow> rc"
  bi_after :: "lima_ip_id \<Rightarrow> rc"

definition bridge_init_ip :: "block_env \<Rightarrow> nat \<Rightarrow> lima_gpu_id \<Rightarrow> platform_world \<Rightarrow> lima_ip_id \<Rightarrow> rc \<times> platform_world" where
  "bridge_init_ip env d gpu w i =
     (let f = ipd_func (lima_ip_desc i); failed = (\<lambda>e w. (if ipd_must_have (lima_ip_desc i) gpu then E e else OK, w)) in
      case ipd_offset (lima_ip_desc i) gpu of None \<Rightarrow> (OK, w) | Some _ \<Rightarrow>
      case ipd_irq_name (lima_ip_desc i) of
        None \<Rightarrow> (case bi_before env i of E e \<Rightarrow> failed e w | OK \<Rightarrow> (OK, w))
      | Some name \<Rightarrow>
      case lkpi_platform_get_irq_byname (bi_bus env) (Some d) (Some name) w of Inl e \<Rightarrow> failed e w | Inr irq \<Rightarrow>
      case bi_before env i of E e \<Rightarrow> failed e w | OK \<Rightarrow>
      if \<not> requests_irq f then (OK, w)
      else case lkpi_route_request_irq (bi_other env) (bi_request env i) (Some d) irq (Some (bi_handler env f)) None (bi_arg env i) w of
        (E e, w1) \<Rightarrow> failed e w1
      | (OK, w1) \<Rightarrow> (case bi_after env i of E e \<Rightarrow> failed e w1 | OK \<Rightarrow> (OK, w1)))"

text \<open>
  \<open>e\<close> is installed on the interrupt of the device that carries the name of block \<open>i\<close>, and when this
  interrupt is raised, the handler of the block is called, once, with the block.
\<close>

definition serves :: "block_env \<Rightarrow> nat \<Rightarrow> platform_world \<Rightarrow> lima_ip_id \<Rightarrow> nat \<Rightarrow> bool" where
  "serves env d w i e \<longleftrightarrow> e \<in> pw_handlers w \<and> requests_irq (ipd_func (lima_ip_desc i)) \<and>
     (\<exists>name n ie. ipd_irq_name (lima_ip_desc i) = Some name \<and> be_irq_names (bi_bus env) name = Some n \<and>
        pd_irq_tag (pw_dev w d) n = Some e \<and> pw_irqe w e = Some ie \<and>
        (\<forall>ret. lkpi_platform_irq_trampoline True ret ie =
           [(bi_handler env (ipd_func (lima_ip_desc i)), LKPI_PLATFORM_IRQ_TOKEN (pd_id (pw_dev w d)) (of_nat n), bi_arg env i)]))"

text \<open>The ends of one block.\<close>

lemma get_irq_byname:
  assumes "lkpi_platform_get_irq_byname env (Some d) (Some name) w = Inr irq"
  obtains n where "be_irq_names env name = Some n" "lkpi_platform_get_irq (Some d) n w = Inr irq"
    "irq = LKPI_PLATFORM_IRQ_TOKEN (pd_id (pw_dev w d)) (of_nat n)"
  using assms by (auto simp: lkpi_platform_get_irq_byname_def lkpi_platform_get_irq_def Let_def split: if_splits option.splits)

text \<open>A must-have block that succeeds and asks for an interrupt.\<close>

definition needs_irq :: "lima_gpu_id \<Rightarrow> lima_ip_id \<Rightarrow> bool" where
  "needs_irq gpu i \<longleftrightarrow> ipd_must_have (lima_ip_desc i) gpu \<and> ipd_offset (lima_ip_desc i) gpu \<noteq> None \<and>
     ipd_irq_name (lima_ip_desc i) \<noteq> None \<and> requests_irq (ipd_func (lima_ip_desc i))"

lemma init_ip_ends:
  assumes l: "life w0 d w" and init: "bridge_init_ip env d gpu w i = (r, w')"
  obtains (none) "w' = w" "r = OK \<Longrightarrow> \<not> needs_irq gpu i"
  | (request) name n rq where "requests_irq (ipd_func (lima_ip_desc i))" "ipd_irq_name (lima_ip_desc i) = Some name"
      "be_irq_names (bi_bus env) name = Some n"
      "lkpi_platform_get_irq (Some d) n w = Inr (LKPI_PLATFORM_IRQ_TOKEN (pd_id (pw_dev w d)) (of_nat n))"
      "lkpi_platform_request_irq (bi_request env i) (Some d) (LKPI_PLATFORM_IRQ_TOKEN (pd_id (pw_dev w d)) (of_nat n))
         (Some (bi_handler env (ipd_func (lima_ip_desc i)))) None (bi_arg env i) w = (rq, w')"
      "r = OK \<Longrightarrow> needs_irq gpu i \<Longrightarrow> rq = OK"
proof (cases "\<exists>name irq. ipd_offset (lima_ip_desc i) gpu \<noteq> None \<and> ipd_irq_name (lima_ip_desc i) = Some name \<and>
    lkpi_platform_get_irq_byname (bi_bus env) (Some d) (Some name) w = Inr irq \<and> bi_before env i = OK \<and>
    requests_irq (ipd_func (lima_ip_desc i))")
  case False
  then have "w' = w \<and> (r = OK \<longrightarrow> \<not> needs_irq gpu i)" using init
    by (cases "bi_before env i")
      (auto simp: bridge_init_ip_def needs_irq_def Let_def split: option.splits sum.splits if_splits)
  then show thesis using none by blast
next
  case True
  then obtain off name irq where t: "ipd_offset (lima_ip_desc i) gpu = Some off" "ipd_irq_name (lima_ip_desc i) = Some name"
    "lkpi_platform_get_irq_byname (bi_bus env) (Some d) (Some name) w = Inr irq" "bi_before env i = OK" "requests_irq (ipd_func (lima_ip_desc i))"
    by auto
  obtain n where n: "be_irq_names (bi_bus env) name = Some n" "lkpi_platform_get_irq (Some d) n w = Inr irq"
    "irq = LKPI_PLATFORM_IRQ_TOKEN (pd_id (pw_dev w d)) (of_nat n)" by (rule get_irq_byname [OF t(3)])
  have route: "lkpi_route_request_irq (bi_other env) re (Some d) irq h th a w = lkpi_platform_request_irq re (Some d) irq h th a w" for re h th a
    using get_irq_target(1) [OF l n(2) disjI2 [OF refl]] by (simp add: lkpi_route_request_irq_def lkpi_platform_owns_irq_def)
  obtain rq w1 where q: "lkpi_platform_request_irq (bi_request env i) (Some d) irq (Some (bi_handler env (ipd_func (lima_ip_desc i)))) None
      (bi_arg env i) w = (rq, w1)" by fastforce
  then have "w1 = w' \<and> (r = OK \<longrightarrow> needs_irq gpu i \<longrightarrow> rq = OK)"
    using init t by (cases rq; cases "bi_after env i") (auto simp: bridge_init_ip_def needs_irq_def Let_def route split: if_splits)
  then show thesis using request [OF t(5,2) n(1)] n(2,3) q by blast
qed

lemma init_ip_run:
  assumes "life w0 d w" and "bridge_init_ip env d gpu w i = (r, w')"
  shows "drv_run d w w'"
  by (rule init_ip_ends [OF assms]) (auto intro: drv_run.intros drv_step.request)

text \<open>What a request changes: nothing that is installed, and at most one handler is added, on the interrupt of the block.\<close>

lemma init_ip_serves:
  assumes l: "life w0 d w" and init: "bridge_init_ip env d gpu w i = (r, w')"
  shows "\<forall>j e. serves env d w j e \<longrightarrow> serves env d w' j e" and "pw_handlers w \<subseteq> pw_handlers w'"
    and "\<forall>e \<in> pw_handlers w' - pw_handlers w. serves env d w' i e" and "r = OK \<Longrightarrow> needs_irq gpu i \<Longrightarrow> \<exists>e. serves env d w' i e"
proof -
  have fresh: "e \<noteq> pw_next w" if "e \<in> pw_handlers w" for e using frameD(4) [OF lifeD(1) [OF l] that] by simp
  have "(\<forall>j e. serves env d w j e \<longrightarrow> serves env d w' j e) \<and> pw_handlers w \<subseteq> pw_handlers w' \<and>
    (\<forall>e \<in> pw_handlers w' - pw_handlers w. serves env d w' i e) \<and> (r = OK \<longrightarrow> needs_irq gpu i \<longrightarrow> (\<exists>e. serves env d w' i e))"
  proof (rule init_ip_ends [OF l init])
    fix name n rq
    let ?h = "bi_handler env (ipd_func (lima_ip_desc i))" and ?irq = "LKPI_PLATFORM_IRQ_TOKEN (pd_id (pw_dev w d)) (of_nat n)"
    let ?new = "installed d (Some d) ?irq ?h None (bi_arg env i) n w"
    assume i: "requests_irq (ipd_func (lima_ip_desc i))" "ipd_irq_name (lima_ip_desc i) = Some name" "be_irq_names (bi_bus env) name = Some n"
      and irq: "lkpi_platform_get_irq (Some d) n w = Inr ?irq"
      and q: "lkpi_platform_request_irq (bi_request env i) (Some d) ?irq (Some ?h) None (bi_arg env i) w = (rq, w')"
      and ok: "r = OK \<Longrightarrow> needs_irq gpu i \<Longrightarrow> rq = OK"
    have "(w' = w \<or> w' = w\<lparr>pw_next := pw_next w + 1\<rparr>) \<and> rq \<noteq> OK \<or> w' = ?new \<and> pd_irq_tag (pw_dev w d) n = None"
      using q unfolding request_eq [OF l irq disjI2 [OF refl]] by (cases "re_setup (bi_request env i)") (auto split: if_splits)
    then consider (fails) "w' = w \<or> w' = w\<lparr>pw_next := pw_next w + 1\<rparr>" "rq \<noteq> OK" | (new) "w' = ?new" "pd_irq_tag (pw_dev w d) n = None"
      by (elim disjE conjE) simp_all
    then show ?thesis
    proof cases
      case fails
      then show ?thesis using ok by (auto simp: serves_def)
    next
      case new
      have "serves env d ?new i (pw_next w)"
        using i by (simp add: serves_def installed_def Let_def lkpi_platform_irq_trampoline_def)
      moreover have "serves env d ?new j e" if "serves env d w j e" for j e
        using that new(2) fresh by (fastforce simp: serves_def installed_def Let_def)
      moreover have "pw_handlers ?new = insert (pw_next w) (pw_handlers w)" by (simp add: installed_def Let_def)
      ultimately show ?thesis unfolding new(1) by auto
    qed
  qed auto
  then show "\<forall>j e. serves env d w j e \<longrightarrow> serves env d w' j e" "pw_handlers w \<subseteq> pw_handlers w'"
    "\<forall>e \<in> pw_handlers w' - pw_handlers w. serves env d w' i e" "r = OK \<Longrightarrow> needs_irq gpu i \<Longrightarrow> \<exists>e. serves env d w' i e" by blast+
qed

section \<open>All blocks\<close>

text \<open>
  C40: Bringing the blocks up on the bridge routes the interrupts of the GPU: whatever the device tree names, the registers answer
  and the requests answer, every handler that was installed is that of a block, on the interrupt that carries its name in
  the device tree, and this interrupt calls it with the block; and when the bring-up succeeds, every block the
  GPU must have and that asks for an interrupt has its handler. All of it are steps of a driver, so that a detach
  takes every handler off again.
\<close>

theorem lima_irqs_reach_their_blocks:
  assumes "life w0 d w" and "fresh_ok w0" and "foreach (bridge_init_ip env d gpu) w blocks = (r, w')"
  shows "life w0 d w' \<and> drv_run d w w' \<and> (\<forall>e \<in> pw_handlers w' - pw_handlers w. \<exists>i \<in> set blocks. serves env d w' i e) \<and>
    (r = OK \<longrightarrow> (\<forall>i \<in> set blocks. needs_irq gpu i \<longrightarrow> (\<exists>e. serves env d w' i e)))"
proof -
  have "drv_run d w w' \<and> (\<forall>j e. serves env d w j e \<longrightarrow> serves env d w' j e) \<and>
    (\<forall>e \<in> pw_handlers w' - pw_handlers w. \<exists>i \<in> set blocks. serves env d w' i e) \<and>
    (r = OK \<longrightarrow> (\<forall>i \<in> set blocks. needs_irq gpu i \<longrightarrow> (\<exists>e. serves env d w' i e)))"
    using assms(1,3)
  proof (induction blocks arbitrary: w)
    case Nil
    then show ?case by (simp add: drv_run.stay)
  next
    case (Cons i blocks)
    obtain r1 w1 where one: "bridge_init_ip env d gpu w i = (r1, w1)" by fastforce
    note run = init_ip_run [OF Cons.prems(1) one] and sv = init_ip_serves [OF Cons.prems(1) one]
    show ?case
    proof (cases r1)
      case OK
      then have "foreach (bridge_init_ip env d gpu) w1 blocks = (r, w')" using Cons.prems(2) one by simp
      note ih = Cons.IH [OF run_life [OF run Cons.prems(1) assms(2)] this]
      have "\<exists>e. serves env d w' j e" if "r = OK" "j \<in> set (i # blocks)" "needs_irq gpu j" for j
        using that ih sv(4) [OF OK] by (metis set_ConsD)
      moreover have "\<exists>j \<in> set (i # blocks). serves env d w' j e" if "e \<in> pw_handlers w' - pw_handlers w" for e
        using that ih sv(3) by (cases "e \<in> pw_handlers w1") (fastforce, auto)
      ultimately show ?thesis using ih sv(1) drv_run_trans [OF _ run] by blast
    next
      case (E e)
      then have "w' = w1" "r \<noteq> OK" using Cons.prems(2) one by auto
      then show ?thesis using run sv by auto
    qed
  qed
  then show ?thesis using run_life [OF _ assms(1,2)] by blast
qed

end
