(* ===== verification/Lima_Error.thy ===== *)
theory Lima_Error
  imports Lima_Drv
begin

text \<open>
  What user space reads: the slice a sequence of block reads copies, and the error state between its writers
  (\<open>lima_sched_build_error_task_list\<close>) and \<open>hw.lima_error\<close>.
\<close>

section \<open>The block reader\<close>

text \<open>The reader after the blocks \<open>bs\<close>, when it started at offset \<open>off\<close> to copy \<open>n\<close> bytes.\<close>

definition reads :: "nat \<Rightarrow> nat \<Rightarrow> u8 list \<Rightarrow> lima_block_reader \<Rightarrow> bool" where
  "reads off n bs r = (let out = take n (drop off bs) in
     rd_dst r = out \<and> unat (rd_base r) = List.length bs \<and> unat (rd_off r) = off + List.length out \<and>
     unat (rd_count r) = n - List.length out \<and> unat (rd_read r) = List.length out)"

lemma take_drop_append: "take n (drop off (bs @ b)) =
    take n (drop off bs) @ take (n - List.length (take n (drop off bs))) (drop (off + List.length (take n (drop off bs)) - List.length bs) b)"
  by (cases "off \<le> List.length bs") (auto simp: min_def)

lemma read_block_step:
  assumes "reads off n bs r" and "List.length (bs @ b) < 2 ^ 64" "off + n < 2 ^ 64"
  shows "reads off n (bs @ b) (snd (lima_read_block b r))" and "fst (lima_read_block b r) \<longleftrightarrow> List.length (take n (drop off (bs @ b))) < n"
proof -
  define out where "out = take n (drop off bs)"
  define rest where "rest = n - List.length out"
  define o' where "o' = off + List.length out"
  define L where "L = List.length bs"
  define M where "M = L + List.length b"
  have len: "List.length out \<le> n" by (simp add: out_def)
  have goal: "take n (drop off (bs @ b)) = out @ take rest (drop (o' - L) b)"
    unfolding out_def rest_def o'_def L_def by (rule take_drop_append)
  have f: "rd_dst r = out" "unat (rd_base r) = L" "unat (rd_off r) = o'" "unat (rd_count r) = rest" "unat (rd_read r) = List.length out"
    using assms(1) by (simp_all add: reads_def Let_def out_def rest_def o'_def L_def)
  have M: "M < 2 ^ 64" using assms(2) by (simp add: M_def L_def)
  have on: "o' + rest = off + n" using len by (simp add: o'_def rest_def)
  have "unat (of_nat (List.length b) :: u64) = List.length b" using M by (simp add: M_def unsigned_of_nat take_bit_nat_eq_self)
  then have mx: "unat (rd_base r + of_nat (List.length b)) = M" using M f(2) by (simp add: M_def unat_word_ariths)
  let ?mx = "rd_base r + of_nat (List.length b)" and ?n = "rd_count r"
  let ?s = "min (?mx - rd_off r) ?n"
  have full: "rest = 0 \<or> o' = max off L" by (auto simp: rest_def o'_def out_def L_def)
  show "reads off n (bs @ b) (snd (lima_read_block b r))" and "fst (lima_read_block b r) \<longleftrightarrow> List.length (take n (drop off (bs @ b))) < n"
  proof -
    have "reads off n (bs @ b) (snd (lima_read_block b r)) \<and> (fst (lima_read_block b r) \<longleftrightarrow> List.length (take n (drop off (bs @ b))) < n)"
    proof (cases "o' < M")
      case True
      have lt: "rd_off r < ?mx" using True mx f(3) by (simp add: word_less_nat_alt)
      have "unat (?mx - rd_off r) = M - o'" using True mx f(3) by (simp add: unat_sub word_le_nat_alt)
      then have sz: "unat ?s = min (M - o') rest" by (simp add: min_def word_le_nat_alt f(4))
      have piece: "take (unat ?s) (drop (unat (rd_off r - rd_base r)) b) = take rest (drop (o' - L) b)"
      proof (cases "rest = 0")
        case True
        then show ?thesis by (simp add: sz)
      next
        case False
        then have "L \<le> o'" using full by simp
        then have "unat (rd_off r - rd_base r) = o' - L" by (simp add: unat_sub word_le_nat_alt f)
        moreover have "List.length (drop (o' - L) b) = M - o'" using \<open>L \<le> o'\<close> by (simp add: M_def)
        then have "take (min (M - o') rest) (drop (o' - L) b) = take rest (drop (o' - L) b)" by (simp add: min_def)
        ultimately show ?thesis unfolding sz by (simp only:)
      qed
      have plen: "List.length (take rest (drop (o' - L) b)) = unat ?s"
      proof (cases "rest = 0")
        case False
        then have "L \<le> o'" using full by simp
        then show ?thesis unfolding sz by (auto simp: M_def min_def)
      qed (simp only: sz, simp)
      let ?p = "take rest (drop (o' - L) b)"
      have u: "unat (rd_off r + ?s) = o' + unat ?s" "unat (rd_read r + ?s) = List.length out + unat ?s" "unat (?n - ?s) = rest - unat ?s"
        using sz on assms(3) f(3,5) by (simp_all add: unat_word_ariths unat_sub f(4) o'_def)
      have res: "snd (lima_read_block b r) = r\<lparr>rd_dst := out @ ?p, rd_off := rd_off r + ?s, rd_read := rd_read r + ?s, rd_count := ?n - ?s,
          rd_base := ?mx\<rparr>" "fst (lima_read_block b r) \<longleftrightarrow> ?n - ?s \<noteq> 0"
        using lt unfolding lima_read_block_def Let_def piece f(1) by simp_all
      have "unat (?n - ?s) = 0 \<longleftrightarrow> ?n - ?s = 0" by (rule unat_eq_zero)
      then show ?thesis unfolding reads_def Let_def goal res length_append plen
        by (simp add: u mx M_def L_def o'_def rest_def) (use len sz in linarith)
    next
      case False
      then have nlt: "\<not> rd_off r < ?mx" using mx f(3) by (simp add: word_less_nat_alt)
      have "take rest (drop (o' - L) b) = []" using False by (simp add: M_def)
      moreover from nlt have "snd (lima_read_block b r) = r\<lparr>rd_base := ?mx\<rparr>" "fst (lima_read_block b r) \<longleftrightarrow> ?n \<noteq> 0"
        by (simp_all add: lima_read_block_def Let_def)
      moreover have "unat ?n = 0 \<longleftrightarrow> ?n = 0" by (rule unat_eq_zero)
      ultimately show ?thesis using f mx len unfolding reads_def Let_def goal
        by (simp only: append_Nil2 lima_block_reader.simps) (auto simp: o'_def rest_def M_def L_def)
    qed
    then show "reads off n (bs @ b) (snd (lima_read_block b r))" and "fst (lima_read_block b r) \<longleftrightarrow> List.length (take n (drop off (bs @ b))) < n"
      by blast+
  qed
qed

lemma read_blocks_step:
  assumes "reads off n bs r" and "List.length (bs @ concat blocks) < 2 ^ 64" and "off + n < 2 ^ 64"
  shows "reads off n (bs @ concat blocks) (fold (\<lambda>b r. snd (lima_read_block b r)) blocks r)"
  using assms(1,2)
proof (induction blocks arbitrary: bs r)
  case (Cons b blocks)
  then have "reads off n (bs @ b) (snd (lima_read_block b r))" using assms(3) by (intro read_block_step(1)) simp_all
  then show ?case using Cons.IH [of "bs @ b"] Cons.prems(2) by simp
qed simp

text \<open>
  C36: Reading a blob block by block is reading one slice of it: however it is cut into blocks and wherever the slice starts,
  the reader has written the bytes \<open>off\<close> to \<open>off + n\<close> of the whole, as far as it goes, counts them, and answers
  whether bytes are still wanted.
\<close>

theorem lima_read_block_reads_slice:
  assumes fits: "List.length (concat blocks) + List.length b < 2 ^ 64" "off + n < 2 ^ 64"
    and r: "r = fold (\<lambda>b r. snd (lima_read_block b r)) blocks
      \<lparr>rd_dst = [], rd_base = 0, rd_count = of_nat n, rd_off = of_nat off, rd_read = 0\<rparr>"
  shows "rd_dst (snd (lima_read_block b r)) = take n (drop off (concat blocks @ b)) \<and>
    unat (rd_read (snd (lima_read_block b r))) = List.length (rd_dst (snd (lima_read_block b r))) \<and>
    (fst (lima_read_block b r) \<longleftrightarrow> List.length (concat blocks @ b) < off + n \<and> n \<noteq> 0)"
proof -
  have "reads off n [] \<lparr>rd_dst = [], rd_base = 0, rd_count = of_nat n, rd_off = of_nat off, rd_read = 0\<rparr>"
    using fits by (simp add: reads_def unsigned_of_nat take_bit_nat_eq_self)
  then have "reads off n (concat blocks) r" using read_blocks_step [of off n "[]" _ blocks] fits by (simp add: r)
  from read_block_step [OF this, of b] have
    "reads off n (concat blocks @ b) (snd (lima_read_block b r))"
    "fst (lima_read_block b r) \<longleftrightarrow> List.length (take n (drop off (concat blocks @ b))) < n" using fits by simp_all
  moreover have "List.length (take n (drop off X)) < n \<longleftrightarrow> List.length X < off + n \<and> n \<noteq> 0" for X :: "u8 list" by auto
  ultimately show ?thesis by (simp only: reads_def Let_def)
qed

section \<open>The error state\<close>

text \<open>
  The steps on the error state: a failed job is saved, with the \<open>et->size\<close> bytes of its entry, or not saved, and user
  space writes to the node. The limit is \<open>lima_max_error_tasks\<close>.
\<close>

definition entry_size :: "u32 \<Rightarrow> u32 \<Rightarrow> lima_bo list \<Rightarrow> nat" where
  "entry_size frame_size pname_len bos = unat (dump_size frame_size pname_len bos + of_nat sizeof_dump_task)"

inductive error_step :: "u32 \<Rightarrow> error_state \<Rightarrow> error_state \<Rightarrow> bool" for lim where
  save: "lima_sched_build_error_task_list env lim frame_size pname_len v bos (es_head s) = Some (True, mem, ws, h) \<Longrightarrow>
    List.length data = entry_size frame_size pname_len bos \<Longrightarrow> error_step lim s \<lparr>es_head = h, es_tasks = data # es_tasks s\<rparr>"
| skip: "lima_sched_build_error_task_list env lim frame_size pname_len v bos (es_head s) = Some (False, mem, ws, h) \<Longrightarrow>
    error_step lim s (s\<lparr>es_head := h\<rparr>)"
| clear: "lima_error_state_sysctl out head_bytes True (req :: u8 list) s = (r, req', s') \<Longrightarrow> error_step lim s s'"

definition error_ok :: "u32 \<Rightarrow> error_state \<Rightarrow> bool" where
  "error_ok lim s = (List.length (es_tasks s) \<le> unat lim \<and> dh_num_tasks (es_head s) = of_nat (List.length (es_tasks s)) \<and>
     dh_size (es_head s) = of_nat (List.length (concat (es_tasks s))))"

lemma build_head:
  assumes "lima_sched_build_error_task_list env lim frame_size pname_len v bos head = Some (ok, mem, ws, h)"
  shows "if ok then dh_num_tasks head < lim \<and> dh_num_tasks h = dh_num_tasks head + 1 \<and>
      dh_size h = dh_size head + of_nat (entry_size frame_size pname_len bos)
    else h = head"
  using assms unfolding lima_sched_build_error_task_list_def Let_def
  by (auto simp: bind_eq_Some_conv not_le entry_size_def split: if_splits)

lemma error_step_ok:
  assumes "error_step lim s s'" and "error_ok lim s"
  shows "error_ok lim s'"
  using assms
proof (induction rule: error_step.induct)
  case (save env frame_size pname_len v bos s mem ws h data)
  have h: "dh_num_tasks (es_head s) < lim" "dh_num_tasks h = dh_num_tasks (es_head s) + 1"
    "dh_size h = dh_size (es_head s) + of_nat (List.length data)"
    using build_head [OF save.hyps(1)] save.hyps(2) by simp_all
  have "List.length (es_tasks s) < 2 ^ 32" using save.prems unat_u32_less [of lim] by (simp add: error_ok_def)
  then have "unat (dh_num_tasks (es_head s)) = List.length (es_tasks s)"
    using save.prems by (simp add: error_ok_def unsigned_of_nat take_bit_nat_eq_self)
  then have "List.length (es_tasks s) < unat lim" using h(1) by (simp add: word_less_nat_alt)
  then show ?case using save.prems h by (simp add: error_ok_def)
next
  case (skip env frame_size pname_len v bos s mem ws h)
  then show ?case using build_head [OF skip.hyps] by (simp add: error_ok_def)
next
  case (clear out head_bytes req s r req' s')
  then show ?case by (auto simp: lima_error_state_sysctl_def error_ok_def)
qed

lemma error_run_ok: "(error_step lim)\<^sup>*\<^sup>* s s' \<Longrightarrow> error_ok lim s \<Longrightarrow> error_ok lim s'"
  by (induction rule: rtranclp_induct) (auto intro: error_step_ok)

lemma out_all:
  assumes "\<And>q d. sysctl_out q d = (OK, q @ d)"
  shows "foreach sysctl_out q ds = (OK, q @ concat ds)"
  by (induction ds arbitrary: q) (simp_all add: assms)

text \<open>
  C37: From the empty state of a fresh device, whatever jobs fail, are saved or not, and however often user space clears the
  list: there are never more entries than the limit, the head counts them and their bytes (modulo \<open>2 ^ 32\<close>, in the
  \<open>u32\<close> of the code), and a reader with room gets the head and behind it every entry once, the latest first, while a
  write empties the list and zeroes the counts.
\<close>

theorem lima_error_state_consistent:
  assumes "(error_step lim)\<^sup>*\<^sup>* \<lparr>es_head = \<lparr>dh_size = 0, dh_num_tasks = 0\<rparr>, es_tasks = []\<rparr> s"
    and "\<And>q d. sysctl_out q d = (OK, q @ d)"
  shows "List.length (es_tasks s) \<le> unat lim \<and> dh_num_tasks (es_head s) = of_nat (List.length (es_tasks s)) \<and>
    dh_size (es_head s) = of_nat (List.length (concat (es_tasks s))) \<and>
    lima_error_state_sysctl sysctl_out head_bytes False [] s = (OK, head_bytes (es_head s) @ concat (es_tasks s), s) \<and>
    lima_error_state_sysctl sysctl_out head_bytes True req s = (OK, req, \<lparr>es_head = \<lparr>dh_size = 0, dh_num_tasks = 0\<rparr>, es_tasks = []\<rparr>)"
proof -
  have "error_ok lim s" by (rule error_run_ok [OF assms(1)]) (simp add: error_ok_def)
  then show ?thesis by (simp add: error_ok_def lima_error_state_sysctl_def assms(2) out_all [OF assms(2)])
qed

text \<open>A reader whose buffer is too small gets the error, and the state is not touched.\<close>

lemma lima_error_state_read_keeps: "snd (snd (lima_error_state_sysctl sysctl_out head_bytes False req s)) = s"
  by (simp add: lima_error_state_sysctl_def split: prod.split rc.split)

end
