(* ===== verification/Lima_Device_Demo.thy ===== *)
theory Lima_Device_Demo
  imports Lima_Device_Spec
begin

text \<open>
  A Mali-400 that comes up: hardware that answers every question of the bring-up, and the device on it.
  The witnesses of \<open>Lima_Device_Spec\<close>.
\<close>

section \<open>Hardware that answers\<close>

text \<open>
  By the low bits of the address: 0 is the directory register of an MMU (the test pattern comes back masked,
  anything else as 0), 4 its status with paging on, 8 the status of a pixel processor and of the cache (idle),
  0x20 and 0x24 the raw interrupts of a pixel and of the geometry processor (reset completed).
\<close>

definition demo_up_read :: "io \<Rightarrow> u32 \<Rightarrow> u32" where
  "demo_up_read io a = (let r = a AND 0xFFF in
     if r = 4 then 1 else if r = 0x20 then BIT 12 else if r = 0x24 then BIT 19
     else if r = 0 \<and> (case io of WR _ v # _ \<Rightarrow> v = 0xCAFEBABE | _ \<Rightarrow> False) then 0xCAFEB000 else 0)"

definition demo_up_hw :: hw where
  "demo_up_hw = \<lparr>hw_read = demo_up_read, hw_time = (\<lambda>h. int (List.length h))\<rparr>"

lemma demo_up_clock: "clock_advances demo_up_hw"
  unfolding demo_up_hw_def by (rule demo_clock)

lemma demo_up_simps [simp]: "hw_read demo_up_hw = demo_up_read" "BIT 12 = 4096" "BIT 19 = 524288" "BIT 0 = 1"
  by (simp_all add: demo_up_hw_def BIT_def)

lemma poll_at_once: "cond (hw_read hw io a) \<Longrightarrow> readl_poll_timeout hw a cond us io = (OK, RD a # io)"
  by (subst readl_poll_timeout_step) simp

lemma lima_poll_at_once: "fst (func (KTIME # io)) \<Longrightarrow> lima_poll_timeout hw func sl t io = Some (OK, snd (func (KTIME # io)))"
  by (cases "func (KTIME # io)") (simp add: lima_poll_timeout_def ktime_get_def lima_poll_loop.simps)

lemma demo_mmu:
  assumes "i \<noteq> lima_ip_ppmmu_bcast" "d_base dev i AND 0xFFF = 0" "(d_base dev i + 4) AND 0xFFF = 4"
  shows "fst (lima_mmu_init demo_up_hw dev OK i io) = OK"
  using assms
  by (simp add: lima_mmu_init_def lima_mmu_hw_init_def lima_mmu_send_command_def readl_def writel_def Let_def regs
      poll_at_once demo_up_read_def)

lemma demo_gp: "fst (lima_gp_init demo_up_hw 0 OK io) = OK"
  by (simp add: lima_gp_init_def lima_gp_print_version_def lima_gp_hw_init_def lima_gp_soft_reset_async_def
      lima_gp_soft_reset_async_wait_def readl_def writel_def Let_def regs poll_at_once demo_up_read_def)

lemma demo_pp:
  assumes "i \<noteq> lima_ip_pp_bcast" "d_base dev i = 0x8000"
  obtains p' v io' where "lima_pp_init demo_up_hw dev i OK p io = Some (OK, p', v, io')"
proof -
  have w: "lima_pp_soft_reset_async_wait_one demo_up_hw 0x8000 h = Some (OK,
      writel LIMA_PP_IRQ_MASK_USED (0x8000 + LIMA_PP_INT_MASK) (writel LIMA_PP_IRQ_MASK_ALL (0x8000 + LIMA_PP_INT_CLEAR)
        (snd (lima_pp_soft_reset_poll demo_up_hw 0x8000 (KTIME # h)))))" for h
    by (simp add: lima_pp_soft_reset_async_wait_one_def lima_poll_at_once lima_pp_soft_reset_poll_def readl_def Let_def
        demo_up_read_def regs)
  show thesis
    using assms that by (auto simp: lima_pp_init_def lima_pp_hw_init_def lima_pp_soft_reset_async_def
        lima_pp_soft_reset_async_wait_def lima_pp_print_version_def readl_def Let_def w split: prod.splits)
qed

lemma demo_l2:
  assumes "i \<noteq> lima_ip_l2_cache2"
  obtains t' io' where "lima_l2_cache_init demo_up_hw dev i t io = Some (OK, t', io')"
proof -
  obtain r q t1 io1 where "lima_l2_cache_flush demo_up_hw (d_base dev i) t (snd (readl demo_up_hw (d_base dev i + LIMA_L2_CACHE_SIZE) io)) =
      Some (r, q, t1, io1)"
    using l2_flush_some [OF demo_up_clock] by blast
  then show thesis using assms that by (simp add: lima_l2_cache_init_def readl_def Let_def)
qed

section \<open>The device\<close>

definition demo_device :: lima_device where
  "demo_device = \<lparr>ld_dev = \<lparr>d_id = lima_gpu_mali400, d_present = (\<lambda>_. False), d_base = (\<lambda>_. 0), d_empty_pd = 0\<rparr>,
     ld_irq = (\<lambda>_. 0), ld_has_reset = False, ld_has_regulator = False, ld_clk_bus = 0, ld_clk_gpu = 0, ld_reset = 0,
     ld_supply = 0, ld_empty_vm = None, ld_va_start = 0, ld_va_end = 0, ld_dlbu = None, ld_iomem = 0, ld_pmu_mask = 0,
     ld_l2_timeouts = 0, ld_gp_version = 0, ld_pp_version = 0, ld_gp_slab = (False, 0), ld_pp_slab = (False, 0),
     ld_gp = demo_sched [] \<lparr>gb_bos = (\<lambda>_. demo_heap), gb_sys = demo_vmsys, gb_async = False\<rparr>,
     ld_pp = demo_sched [] ((demo_pp_pipe None)\<lparr>pp_processor := []\<rparr>),
     ld_gp_cfg = \<lparr>pc_l2_cache = [], pc_mmu = [], pc_bcast_mmu = None, pc_frame_size = 0\<rparr>,
     ld_pp_cfg = \<lparr>pc_l2_cache = [], pc_mmu = [], pc_bcast_mmu = None, pc_frame_size = 0\<rparr>,
     ld_gp_processor = [], ld_started = (\<lambda>_. False), ld_errors = 0, ld_error_lock = False, ld_io = []\<rparr>"

text \<open>Only the blocks a Mali-400 must have get an interrupt; \<open>mem\<close>: there is memory for the address space.\<close>

definition demo_device_env :: "bool \<Rightarrow> device_env" where
  "demo_device_env mem = \<lparr>de_hw = demo_up_hw, de_stage = None, de_force_pll = 0, de_mapdev = True, de_get_bus = OK, de_get_gpu = OK,
     de_get_reset = Inr True, de_get_regulator = OK, de_bus_on = OK, de_gpu_on = OK, de_deassert = OK, de_regulator_on = OK,
     de_vm = \<lparr>vc_kzalloc = mem, vc_pd = Some 0x9000, vc_alloc = (\<lambda>_. None), vc_dlbu = None, vc_va_start = 0, vc_va_end = 0\<rparr>,
     de_dlbu = None, de_iomem = Inr 0,
     de_irq = (\<lambda>i. if ipd_must_have (lima_ip_desc i) lima_gpu_mali400 then Inr 5 else Inl ENXIO), de_request_irq = (\<lambda>_. OK),
     de_sched_init = (\<lambda>_ _. OK), de_timeout_ms = 0, de_gp_slab = True, de_pp_slab = True, de_heap = demo_heap_env,
     de_fake_wedge = False, de_gp_world = (\<lambda>_ s. s), de_pp_world = (\<lambda>_ s. s), de_hw_rq_count = (\<lambda>_. 0)\<rparr>"

lemma demo_device_fresh: "clock_advances (de_hw (demo_device_env m))" "lima_clk_stage (de_stage (demo_device_env m)) = LIMA_CLK_STAGE_FULL"
  "pipes_idle demo_device" "ld_empty_vm demo_device = None" "ld_dlbu demo_device = None" "\<forall>p. \<not> ld_started demo_device p"
  "slab_ok (ld_gp_slab demo_device)" "slab_ok (ld_pp_slab demo_device)"
  using demo_up_clock
  by (simp_all add: demo_device_env_def demo_device_def lima_clk_stage_def LIMA_CLK_STAGE_FULL_def LIMA_CLK_STAGE_NONE_def
      pipes_idle_def demo_sched_def slab_ok_def)


section \<open>A bring-up that succeeds\<close>

definition demo_inv :: "lima_device \<Rightarrow> bool" where
  "demo_inv d = (d_id (ld_dev d) = lima_gpu_mali400 \<and> ld_iomem d = 0)"

lemma demo_env: "de_hw (demo_device_env m) = demo_up_hw" "de_request_irq (demo_device_env m) i = OK"
  "de_sched_init (demo_device_env m) p t = OK" "de_gp_slab (demo_device_env m)" "de_pp_slab (demo_device_env m)"
  "de_irq (demo_device_env m) i = (if ipd_must_have (lima_ip_desc i) lima_gpu_mali400 then Inr 5 else Inl ENXIO)"
  by (simp_all add: demo_device_env_def)

lemma demo_skip:
  assumes "demo_inv d" and "\<not> ipd_must_have (lima_ip_desc i) lima_gpu_mali400"
  shows "\<exists>d'. lima_init_ip (demo_device_env m) i d = Some (OK, d') \<and> demo_inv d'"
  using assms by (cases i) (simp_all add: lima_init_ip_def demo_env demo_inv_def desc_def Let_def)

lemma demo_must:
  assumes "demo_inv d" and "ipd_must_have (lima_ip_desc i) lima_gpu_mali400"
    and off: "ipd_offset (lima_ip_desc i) lima_gpu_mali400 = Some a"
    and ok: "\<And>d2. demo_inv d2 \<Longrightarrow> d_base (ld_dev d2) i = a \<Longrightarrow> \<exists>d3. ip_init (demo_device_env m) i d2 = Some (OK, d3) \<and> demo_inv d3"
  shows "\<exists>d'. lima_init_ip (demo_device_env m) i d = Some (OK, d') \<and> demo_inv d'"
proof -
  let ?d1 = "d\<lparr>ld_dev := (ld_dev d)\<lparr>d_base := (d_base (ld_dev d))(i := a)\<rparr>\<rparr>"
  let ?d2 = "if ipd_irq_name (lima_ip_desc i) = None then ?d1 else ?d1\<lparr>ld_irq := (ld_irq d)(i := 5)\<rparr>"
  have "demo_inv ?d2" "d_base (ld_dev ?d2) i = a" using assms(1) by (simp_all add: demo_inv_def)
  from ok [OF this] obtain d3 where d3: "ip_init (demo_device_env m) i ?d2 = Some (OK, d3)" "demo_inv d3" by blast
  have "lima_init_ip (demo_device_env m) i d = Some (OK, set_present i d3)"
    using assms(1,2) off d3(1)
    by (cases "ipd_irq_name (lima_ip_desc i)") (simp_all add: lima_init_ip_def demo_env demo_inv_def Let_def)
  then show ?thesis using d3(2) by (simp add: demo_inv_def set_present_def)
qed

lemma demo_block:
  assumes "demo_inv d"
  shows "\<exists>d'. lima_init_ip (demo_device_env m) i d = Some (OK, d') \<and> demo_inv d'"
proof (cases "ipd_must_have (lima_ip_desc i) lima_gpu_mali400")
  case False
  then show ?thesis by (rule demo_skip [OF assms])
next
  case must: True
  have mmu: "\<exists>d3. ip_init (demo_device_env m) j d2 = Some (OK, d3) \<and> demo_inv d3"
    if "demo_inv d2" "ipd_func (lima_ip_desc j) = ip_mmu" "j \<noteq> lima_ip_ppmmu_bcast" "d_base (ld_dev d2) j = a" "a = 0x3000 \<or> a = 0x4000"
    for d2 j a
    using demo_mmu [of j "ld_dev d2" "ld_io d2"] that
    by (cases "lima_mmu_init demo_up_hw (ld_dev d2) OK j (ld_io d2)") (auto simp: ip_init_def demo_env demo_inv_def)
  have gp: "\<exists>d3. ip_init (demo_device_env m) lima_ip_gp d2 = Some (OK, d3) \<and> demo_inv d3"
    if "demo_inv d2" "d_base (ld_dev d2) lima_ip_gp = 0" for d2
    using demo_gp [of "ld_io d2"] that
    by (auto simp: ip_init_def demo_env demo_inv_def desc_def set_gp_async_def Let_def split: prod.splits option.splits)
  have pp: "\<exists>d3. ip_init (demo_device_env m) lima_ip_pp0 d2 = Some (OK, d3) \<and> demo_inv d3"
    if inv: "demo_inv d2" and base: "d_base (ld_dev d2) lima_ip_pp0 = 0x8000" for d2
  proof -
    obtain p v io where "lima_pp_init demo_up_hw (ld_dev d2) lima_ip_pp0 OK (sp_backend (ld_pp d2)) (ld_io d2) = Some (OK, p, v, io)"
      using demo_pp [of lima_ip_pp0 "ld_dev d2" "sp_backend (ld_pp d2)" "ld_io d2"] base by auto
    then show ?thesis using inv
      by (auto simp: ip_init_def demo_env demo_inv_def desc_def set_backend_def Let_def split: option.splits)
  qed
  have l2: "\<exists>d3. ip_init (demo_device_env m) lima_ip_l2_cache0 d2 = Some (OK, d3) \<and> demo_inv d3" if inv: "demo_inv d2" for d2
  proof -
    obtain t io where "lima_l2_cache_init demo_up_hw (ld_dev d2) lima_ip_l2_cache0 (ld_l2_timeouts d2) (ld_io d2) = Some (OK, t, io)"
      using demo_l2 [of lima_ip_l2_cache0 "ld_dev d2" "ld_l2_timeouts d2" "ld_io d2"] by auto
    then show ?thesis using inv by (auto simp: ip_init_def demo_env demo_inv_def desc_def Let_def)
  qed
  obtain a where a: "ipd_offset (lima_ip_desc i) lima_gpu_mali400 = Some a" using must by (cases i) (simp_all add: desc_def)
  show ?thesis
    by (rule demo_must [OF assms must a]) (use must a in \<open>cases i; auto simp: desc_def intro!: mmu gp pp l2\<close>)
qed

lemma demo_blocks:
  assumes "demo_inv d"
  shows "\<exists>d'. each_ip (lima_init_ip (demo_device_env m)) is n d = Some (OK, n + List.length is, d')"
  using assms
proof (induction "is" arbitrary: n d)
  case (Cons i "is")
  obtain d1 where "lima_init_ip (demo_device_env m) i d = Some (OK, d1)" "demo_inv d1" using demo_block [OF Cons.prems] by blast
  then show ?case using Cons.IH [of d1 "Suc n"] by simp
qed simp

lemma demo_pipes:
  "\<exists>d'. lima_init_gp_pipe (demo_device_env m) d = Some (OK, d')"
  "\<exists>d'. lima_init_pp_pipe (demo_device_env m) d = Some (OK, d')"
  by (auto simp: lima_init_gp_pipe_def lima_init_pp_pipe_def demo_env lima_sched_pipe_init_def lima_gp_pipe_init_def
      lima_pp_pipe_init_def Let_def split: prod.split option.split)

lemma demo_init_blocks:
  assumes "demo_inv d"
  shows "\<exists>d'. init_blocks (demo_device_env m) d = Some (OK, d')"
proof -
  obtain d5 where "each_ip (lima_init_ip (demo_device_env m)) ip_list 0 d = Some (OK, List.length ip_list, d5)"
    using demo_blocks [OF assms, of m ip_list 0] by auto
  moreover obtain d6 where "lima_init_gp_pipe (demo_device_env m) d5 = Some (OK, d6)" using demo_pipes(1) by blast
  moreover obtain d7 where "lima_init_pp_pipe (demo_device_env m) d6 = Some (OK, d7)" using demo_pipes(2) by blast
  ultimately show ?thesis by (simp add: init_blocks_def)
qed

lemma demo_brings_up: "\<exists>d'. lima_device_init (demo_device_env True) demo_device = Some (OK, d')"
  using demo_device_fresh(2) [of True]
  by (simp add: lima_device_init_def lima_clk_init_def lima_clk_enable_def demo_device_env_def lima_ccu_force_pll_gpu_def
      lima_regulator_init_def lima_regulator_enable_def lima_vm_create_def LIMA_CLK_STAGE_FULL_def LIMA_CLK_STAGE_BUS_def
      LIMA_CLK_STAGE_CORE_def Let_def dump_def bus_on_def gpu_on_def demo_device_def)
    (rule demo_init_blocks [of _ True, unfolded demo_device_env_def], simp add: demo_inv_def)



text \<open>Pixel processors 0 and 1 are there, the MMU of the second is not.\<close>

theorem lima_init_pp_pipe_wiring_witness:
  "\<exists>d'. lima_init_pp_pipe (demo_device_env True) (fold set_present [lima_ip_pp0, lima_ip_ppmmu0, lima_ip_pp1, lima_ip_l2_cache0] demo_device)
       = Some (OK, d') \<and> pp_processor (sp_backend (ld_pp d')) = [lima_ip_pp0]"
proof -
  let ?d = "fold set_present [lima_ip_pp0, lima_ip_ppmmu0, lima_ip_pp1, lima_ip_l2_cache0] demo_device"
  have new: "pp_processor (sp_backend (ld_pp ?d)) = []" "pc_mmu (ld_pp_cfg ?d) = []" "pc_l2_cache (ld_pp_cfg ?d) = []"
    by (simp_all add: set_present_def demo_device_def demo_sched_def)
  have used: "filter (pp_usable (ld_dev ?d)) [0..<8] = [0]"
    by (simp add: upt_rec pp_usable_def pp_l2_def set_present_def demo_device_def ip_plus_def ip_list_def)
  obtain d' where d': "lima_init_pp_pipe (demo_device_env True) ?d = Some (OK, d')" using demo_pipes(2) by blast
  from lima_init_pp_pipe_wiring [OF d' new]
  have "pp_processor (sp_backend (ld_pp d')) = map (ip_plus lima_ip_pp0) [0]"
    unfolding used by (simp add: Let_def)
  then show ?thesis using d' by (simp add: ip_plus_def ip_list_def)
qed

end
