(* ===== verification/Lima_Submit.thy ===== *)
theory Lima_Submit
  imports Lima_Sched_Fini
begin

text \<open>
  Job submission (\<open>lima_gem_submit\<close> of \<open>lima_gem.c\<close>) and the life of a job from \<open>lima_sched_task_init\<close> to
  \<open>lima_sched_free_job\<close> (\<open>lima_sched.c\<close>). The state holds the pipe the job goes to and the buffer objects,
  \<open>None\<close> being a freed object. What the GEM core, the DRM scheduler and the reservation objects
  answer is \<open>submit_env\<close>.
\<close>

section \<open>State\<close>

definition LIMA_SUBMIT_BO_READ :: u32 where "LIMA_SUBMIT_BO_READ = 0x01"
definition LIMA_SUBMIT_BO_WRITE :: u32 where "LIMA_SUBMIT_BO_WRITE = 0x02"
definition LIMA_SUBMIT_FLAG_EXPLICIT_FENCE :: u32 where "LIMA_SUBMIT_FLAG_EXPLICIT_FENCE = 1"

text \<open>
  \<open>ss_locked\<close>: the reservations are locked; \<open>ss_syncobj\<close>: references to the \<open>out_sync\<close> object the call
  holds; \<open>ss_fence_refs\<close>: references to the fence of the queued job it holds; \<open>ss_queue\<close>: the
  jobs pushed to the entity, latest first; \<open>ss_fences\<close>: what was added to reservations.
\<close>

record 'b submit_state =
  ss_pipe :: "'b sched"
  ss_bos :: "nat \<Rightarrow> lima_bo option"
  ss_sys :: vmsys
  ss_locked :: bool
  ss_syncobj :: nat
  ss_fence_refs :: nat
  ss_queue :: "nat list"
  ss_fences :: "(nat \<times> bool) list"

record submit_env =
  se_lookup :: "u32 \<Rightarrow> nat option"     \<comment> \<open>the handle table of the file\<close>
  se_vm_env :: vm_env
  se_lock :: rc                        \<comment> \<open>\<open>drm_gem_lock_reservations\<close>\<close>
  se_kmemdup :: bool
  se_job_init :: rc                    \<comment> \<open>\<open>drm_sched_job_init\<close>\<close>
  se_add_dep :: "u32 \<Rightarrow> rc"           \<comment> \<open>\<open>drm_sched_job_add_syncobj_dependency\<close>\<close>
  se_reserve :: "nat \<Rightarrow> rc"           \<comment> \<open>\<open>dma_resv_reserve_fences\<close>\<close>
  se_implicit :: "nat \<Rightarrow> bool \<Rightarrow> rc"  \<comment> \<open>\<open>drm_sched_job_add_implicit_dependencies\<close>\<close>
  se_syncobj :: bool                   \<comment> \<open>\<open>drm_syncobj_find\<close> succeeds\<close>

record lima_submit =
  sm_flags :: u32
  sm_bos :: "(u32 \<times> u32) list"        \<comment> \<open>handle and flags of each object\<close>
  sm_in_sync :: "u32 list"
  sm_out_sync :: u32
  sm_task :: nat

section \<open>Operations on the stores\<close>

definition get_bo :: "nat \<Rightarrow> 'b submit_state \<Rightarrow> 'b submit_state option" where
  "get_bo b s = do {
     bo \<leftarrow> ss_bos s b;
     Some (s\<lparr>ss_bos := (ss_bos s)(b \<mapsto> drm_gem_object_get bo)\<rparr>) }"

definition put_bo :: "nat \<Rightarrow> 'b submit_state \<Rightarrow> 'b submit_state option" where
  "put_bo b s = do {
     bo \<leftarrow> ss_bos s b;
     (r, sys) \<leftarrow> drm_gem_object_put bo (ss_sys s);
     Some (s\<lparr>ss_bos := (ss_bos s)(b := r), ss_sys := sys\<rparr>) }"

definition add_bo :: "vm_env \<Rightarrow> nat \<Rightarrow> nat \<Rightarrow> 'b submit_state \<Rightarrow> (rc \<times> 'b submit_state) option" where
  "add_bo env v b s = do {
     bo \<leftarrow> ss_bos s b;
     vm \<leftarrow> sp_vms (ss_pipe s) v;
     (r, vm1, bo1) \<leftarrow> lima_vm_bo_add env v False vm bo;
     Some (r, s\<lparr>ss_bos := (ss_bos s)(b \<mapsto> bo1),
       ss_pipe := (ss_pipe s)\<lparr>sp_vms := (sp_vms (ss_pipe s))(v \<mapsto> vm1)\<rparr>\<rparr>) }"

definition del_bo :: "nat \<Rightarrow> nat \<Rightarrow> 'b submit_state \<Rightarrow> 'b submit_state option" where
  "del_bo v b s = do {
     bo \<leftarrow> ss_bos s b;
     vm \<leftarrow> sp_vms (ss_pipe s) v;
     (vm1, bo1) \<leftarrow> lima_vm_bo_del v vm bo;
     Some (s\<lparr>ss_bos := (ss_bos s)(b \<mapsto> bo1),
       ss_pipe := (ss_pipe s)\<lparr>sp_vms := (sp_vms (ss_pipe s))(v \<mapsto> vm1)\<rparr>\<rparr>) }"

definition on_pipe :: "('b sched \<Rightarrow> 'b sched option) \<Rightarrow> 'b submit_state \<Rightarrow> 'b submit_state option" where
  "on_pipe f s = do { p \<leftarrow> f (ss_pipe s); Some (s\<lparr>ss_pipe := p\<rparr>) }"

section \<open>The life of a job\<close>

definition lima_sched_task_init ::
  "submit_env \<Rightarrow> nat \<Rightarrow> nat list \<Rightarrow> nat \<Rightarrow> 'b submit_state \<Rightarrow> (rc \<times> 'b submit_state) option" where
  "lima_sched_task_init env i bos v s =
     (if \<not> se_kmemdup env then Some (E ENOMEM, s)
      else do {
        s1 \<leftarrow> each get_bo bos s;
        (case se_job_init env of
           E e \<Rightarrow> Some (E e, s1)
         | OK \<Rightarrow> do {
             task \<leftarrow> sp_tasks (ss_pipe s1) i;
             s2 \<leftarrow> on_pipe (vm_get_ref v) s1;
             Some (OK, s2\<lparr>ss_pipe := (ss_pipe s2)\<lparr>sp_tasks := (sp_tasks (ss_pipe s2))
               (i \<mapsto> task\<lparr>t_bos := bos, t_vm := v\<rparr>)\<rparr>\<rparr>) }) })"

definition lima_sched_task_fini :: "nat \<Rightarrow> 'b submit_state \<Rightarrow> 'b submit_state option" where
  "lima_sched_task_fini i s = do {
     task \<leftarrow> sp_tasks (ss_pipe s) i;
     s1 \<leftarrow> each put_bo (t_bos task) s;
     on_pipe (vm_put_ref (Some (t_vm task))) s1 }"

text \<open>The reference to the finished fence is the caller's.\<close>

definition lima_sched_context_queue_task :: "nat \<Rightarrow> 'b submit_state \<Rightarrow> 'b submit_state" where
  "lima_sched_context_queue_task i s =
     s\<lparr>ss_fence_refs := ss_fence_refs s + 1, ss_queue := i # ss_queue s\<rparr>"

definition lima_sched_free_job :: "nat \<Rightarrow> 'b submit_state \<Rightarrow> 'b submit_state option" where
  "lima_sched_free_job i s = do {
     task \<leftarrow> sp_tasks (ss_pipe s) i;
     s1 \<leftarrow> on_pipe (dma_fence_put (t_fence task)) s;
     s2 \<leftarrow> each (del_bo (t_vm task)) (t_bos task) s1;
     s3 \<leftarrow> lima_sched_task_fini i s2;
     Some (s3\<lparr>ss_pipe := (ss_pipe s3)\<lparr>sp_tasks := (sp_tasks (ss_pipe s3))(i := None)\<rparr>\<rparr>) }"

section \<open>Submission\<close>

definition lima_gem_sync_bo :: "submit_env \<Rightarrow> nat \<Rightarrow> bool \<Rightarrow> bool \<Rightarrow> rc" where
  "lima_gem_sync_bo env b write explicit =
     (case se_reserve env b of
        E e \<Rightarrow> E e
      | OK \<Rightarrow> if explicit then OK else se_implicit env b write)"

fun lima_gem_add_deps :: "submit_env \<Rightarrow> u32 list \<Rightarrow> rc" where
  "lima_gem_add_deps env [] = OK"
| "lima_gem_add_deps env (h # hs) =
     (if h = 0 then lima_gem_add_deps env hs
      else case se_add_dep env h of E e \<Rightarrow> E e | OK \<Rightarrow> lima_gem_add_deps env hs)"

text \<open>The first loop; \<open>bos\<close> are the objects it has filled in, the others stay null.\<close>

fun submit_lookup ::
  "submit_env \<Rightarrow> nat \<Rightarrow> u32 list \<Rightarrow> nat list \<Rightarrow> 'b submit_state \<Rightarrow> (rc \<times> nat list \<times> 'b submit_state) option" where
  "submit_lookup env v [] bos s = Some (OK, bos, s)"
| "submit_lookup env v (h # hs) bos s =
     (case se_lookup env h of
        None \<Rightarrow> Some (E ENOENT, bos, s)
      | Some b \<Rightarrow> do {
          s1 \<leftarrow> get_bo b s;
          (r, s2) \<leftarrow> add_bo (se_vm_env env) v b s1;
          (case r of
             E e \<Rightarrow> do { s3 \<leftarrow> put_bo b s2; Some (E e, bos, s3) }
           | OK \<Rightarrow> submit_lookup env v hs (bos @ [b]) s2) })"

definition sync_all :: "submit_env \<Rightarrow> u32 \<Rightarrow> (nat \<times> u32) list \<Rightarrow> rc" where
  "sync_all env flags bfs = fst (foreach (\<lambda>u (b, f).
     (lima_gem_sync_bo env b (f AND LIMA_SUBMIT_BO_WRITE \<noteq> 0) (flags AND LIMA_SUBMIT_FLAG_EXPLICIT_FENCE \<noteq> 0), u))
     () bfs)"

definition undo_bo :: "nat \<Rightarrow> nat \<Rightarrow> 'b submit_state \<Rightarrow> 'b submit_state option" where
  "undo_bo v b s = do { s1 \<leftarrow> del_bo v b s; put_bo b s1 }"

text \<open>The exits of the function: \<open>err_out0\<close>, \<open>err_out1\<close>, \<open>err_out2\<close>.\<close>

definition submit_err_out0 :: "nat \<Rightarrow> nat list \<Rightarrow> errno \<Rightarrow> 'b submit_state \<Rightarrow> (rc \<times> 'b submit_state) option" where
  "submit_err_out0 v bos e s = do {
     s1 \<leftarrow> each (undo_bo v) bos s;
     Some (E e, s1\<lparr>ss_syncobj := 0\<rparr>) }"

definition submit_err_out1 :: "nat \<Rightarrow> nat list \<Rightarrow> errno \<Rightarrow> 'b submit_state \<Rightarrow> (rc \<times> 'b submit_state) option" where
  "submit_err_out1 v bos e s = submit_err_out0 v bos e (s\<lparr>ss_locked := False\<rparr>)"

definition submit_err_out2 ::
  "nat \<Rightarrow> nat \<Rightarrow> nat list \<Rightarrow> errno \<Rightarrow> 'b submit_state \<Rightarrow> (rc \<times> 'b submit_state) option" where
  "submit_err_out2 i v bos e s = do {
     s1 \<leftarrow> lima_sched_task_fini i s;
     submit_err_out1 v bos e s1 }"

definition lima_gem_submit ::
  "submit_env \<Rightarrow> nat \<Rightarrow> lima_submit \<Rightarrow> 'b submit_state \<Rightarrow> (rc \<times> 'b submit_state) option" where
  "lima_gem_submit env v sm s =
     (if sm_out_sync sm \<noteq> 0 \<and> \<not> se_syncobj env then Some (E ENOENT, s)
      else do {
        let s0 = (if sm_out_sync sm \<noteq> 0 then s\<lparr>ss_syncobj := 1\<rparr> else s);
        (r, bos, s1) \<leftarrow> submit_lookup env v (map fst (sm_bos sm)) [] s0;
        (case r of E e \<Rightarrow> submit_err_out0 v bos e s1 | OK \<Rightarrow>
        (case se_lock env of E e \<Rightarrow> submit_err_out0 v bos e s1 | OK \<Rightarrow> do {
          (r2, s2) \<leftarrow> lima_sched_task_init env (sm_task sm) bos v (s1\<lparr>ss_locked := True\<rparr>);
          (case r2 of E e \<Rightarrow> submit_err_out1 v bos e s2 | OK \<Rightarrow>
          (case lima_gem_add_deps env (sm_in_sync sm) of E e \<Rightarrow> submit_err_out2 (sm_task sm) v bos e s2 | OK \<Rightarrow>
          (case sync_all env (sm_flags sm) (zip bos (map snd (sm_bos sm))) of
             E e \<Rightarrow> submit_err_out2 (sm_task sm) v bos e s2
           | OK \<Rightarrow> do {
               let s3 = lima_sched_context_queue_task (sm_task sm) s2;
               let s4 = s3\<lparr>ss_fences := ss_fences s3 @
                 map (\<lambda>(b, f). (b, f AND LIMA_SUBMIT_BO_WRITE \<noteq> 0)) (zip bos (map snd (sm_bos sm)))\<rparr>;
               s5 \<leftarrow> each put_bo bos (s4\<lparr>ss_locked := False\<rparr>);
               Some (OK, s5\<lparr>ss_syncobj := 0, ss_fence_refs := ss_fence_refs s5 - 1\<rparr>) }))) })) })"

end
