(* ===== verification/Lima_Submit_Spec.thy ===== *)
theory Lima_Submit_Spec
  imports Lima_Submit
begin

text \<open>
  What a submission holds and gives back. \<open>held v f g s\<close> is the state \<open>s\<close> with \<open>f b\<close> more references
  to each object \<open>b\<close> and \<open>g b\<close> more to its address in the space \<open>v\<close>; the operations of a submission move
  \<open>f\<close> and \<open>g\<close>, and the theorems compare what is left at each exit.
\<close>

section \<open>Holding references\<close>

definition hold :: "nat \<Rightarrow> nat \<Rightarrow> nat \<Rightarrow> lima_bo \<Rightarrow> lima_bo" where
  "hold v n m bo = bo\<lparr>bo_base := (bo_base bo)\<lparr>gem_refs := gem_refs (bo_base bo) + n\<rparr>,
     bo_va := va_update v (\<lambda>b. b\<lparr>bva_ref_count := bva_ref_count b + of_nat m\<rparr>) (bo_va bo)\<rparr>"

definition held :: "nat \<Rightarrow> (nat \<Rightarrow> nat) \<Rightarrow> (nat \<Rightarrow> nat) \<Rightarrow> 'b submit_state \<Rightarrow> 'b submit_state" where
  "held v f g s = s\<lparr>ss_bos := (\<lambda>b. map_option (hold v (f b) (g b)) (ss_bos s b))\<rparr>"

text \<open>The object is alive, and \<open>n\<close> more references to its address fit in the counter.\<close>

definition bo_ok :: "nat \<Rightarrow> nat \<Rightarrow> lima_bo \<Rightarrow> bool" where
  "bo_ok v n bo = (gem_refs (bo_base bo) > 0 \<and>
     (case lima_vm_bo_find v (bo_va bo) of
        None \<Rightarrow> True
      | Some b \<Rightarrow> 0 < bva_ref_count b \<and> unat (bva_ref_count b) + n < 2 ^ 32))"

definition mapped_bo :: "nat \<Rightarrow> lima_bo \<Rightarrow> bool" where
  "mapped_bo v bo = (lima_vm_bo_find v (bo_va bo) \<noteq> None)"

lemma find_update: "(\<And>x. bva_vm (h x) = bva_vm x) \<Longrightarrow>
    lima_vm_bo_find v (va_update v h l) = map_option h (lima_vm_bo_find v l)"
  by (induction l) auto

lemma update_update: "(\<And>x. bva_vm (h x) = bva_vm x) \<Longrightarrow>
    va_update v k (va_update v h l) = va_update v (k \<circ> h) l"
  by (induction l) auto

lemma update_cong_find: "lima_vm_bo_find v l = Some b \<Longrightarrow> h b = k b \<Longrightarrow> va_update v h l = va_update v k l"
  by (induction l) (auto split: if_splits)

lemma update_id: "va_update v (\<lambda>b. b) l = l"
  by (induction l) auto

lemma hold_zero [simp]: "hold v 0 0 bo = bo"
  by (simp add: hold_def update_id)

lemma held_zero [simp]: "held v (\<lambda>_. 0) (\<lambda>_. 0) s = s"
proof -
  have "hold v 0 0 = (\<lambda>bo. bo)" by (rule ext) simp
  then show ?thesis by (simp add: held_def option.map_ident)
qed

lemma held_fields [simp]: "ss_pipe (held v f g s) = ss_pipe s" "ss_sys (held v f g s) = ss_sys s"
  "ss_locked (held v f g s) = ss_locked s" "ss_syncobj (held v f g s) = ss_syncobj s"
  "ss_fence_refs (held v f g s) = ss_fence_refs s" "ss_queue (held v f g s) = ss_queue s"
  "ss_fences (held v f g s) = ss_fences s"
  "ss_bos (held v f g s) b = map_option (hold v (f b) (g b)) (ss_bos s b)"
  by (simp_all add: held_def)

lemma held_commute [simp]: "(held v f g s)\<lparr>ss_pipe := p\<rparr> = held v f g (s\<lparr>ss_pipe := p\<rparr>)"
  "(held v f g s)\<lparr>ss_locked := l\<rparr> = held v f g (s\<lparr>ss_locked := l\<rparr>)"
  "(held v f g s)\<lparr>ss_syncobj := n\<rparr> = held v f g (s\<lparr>ss_syncobj := n\<rparr>)"
  "(held v f g s)\<lparr>ss_fence_refs := n\<rparr> = held v f g (s\<lparr>ss_fence_refs := n\<rparr>)"
  "(held v f g s)\<lparr>ss_queue := q\<rparr> = held v f g (s\<lparr>ss_queue := q\<rparr>)"
  "(held v f g s)\<lparr>ss_fences := fs\<rparr> = held v f g (s\<lparr>ss_fences := fs\<rparr>)"
  by (simp_all add: held_def)

lemma hold_fields: "gem_refs (bo_base (hold v n m bo)) = gem_refs (bo_base bo) + n"
  "lima_vm_bo_find v (bo_va (hold v n m bo)) =
     map_option (\<lambda>b. b\<lparr>bva_ref_count := bva_ref_count b + of_nat m\<rparr>) (lima_vm_bo_find v (bo_va bo))"
  by (simp_all add: hold_def find_update)

lemma bo_ext: "bo_base a = bo_base b \<Longrightarrow> bo_va a = bo_va b \<Longrightarrow> bo_heap_size a = bo_heap_size b \<Longrightarrow> a = (b :: lima_bo)"
  by simp

section \<open>One step\<close>

lemma get_hold: "drm_gem_object_get (hold v n m bo) = hold v (Suc n) m bo"
  by (simp add: drm_gem_object_get_def hold_def set_shmem_def)

lemma put_hold:
  assumes "gem_refs (bo_base bo) > 0" "n > 0"
  shows "drm_gem_object_put (hold v n m bo) sys = Some (Some (hold v (n - 1) m bo), sys)"
  using assms by (cases n) (simp_all add: drm_gem_object_put_def hold_def set_shmem_def)

lemma add_hold:
  assumes "mapped_bo v bo"
  shows "lima_vm_bo_add env v False vm (hold v n m bo) = Some (OK, vm, hold v n (Suc m) bo)"
proof -
  obtain b where b: "lima_vm_bo_find v (bo_va bo) = Some b" using assms by (auto simp: mapped_bo_def)
  show ?thesis
    by (simp add: lima_vm_bo_add_def hold_fields b) (simp add: hold_def update_update comp_def ac_simps)
qed

lemma add_unmapped:
  assumes "\<not> mapped_bo v bo"
  shows "lima_vm_bo_add env v False vm (hold v n m bo) = Some (E ENOENT, vm, hold v n m bo)"
  using assms by (simp add: lima_vm_bo_add_def hold_fields mapped_bo_def)

lemma del_hold:
  assumes "mapped_bo v bo" and ok: "bo_ok v k bo" and m: "m \<le> k" "m > 0"
  shows "lima_vm_bo_del v vm (hold v n m bo) = Some (vm, hold v n (m - 1) bo)"
proof -
  obtain b where b: "lima_vm_bo_find v (bo_va bo) = Some b" using assms by (auto simp: mapped_bo_def)
  let ?c = "bva_ref_count b + of_nat m - 1 :: u32"
  have c: "0 < bva_ref_count b" "unat (bva_ref_count b) + k < 2 ^ 32" using ok by (simp_all add: bo_ok_def b)
  obtain m' where m': "m = Suc m'" using m(2) by (cases m) auto
  have eq: "?c = bva_ref_count b + of_nat m'" by (simp add: m')
  have um: "unat (of_nat m' :: u32) = m'" using c(2) m(1) m' by (intro unat_of_nat_u32) simp
  have "unat ?c = unat (bva_ref_count b) + m'"
    unfolding eq using c(2) m(1) m' um by (subst unat_add_no_wrap32) simp_all
  moreover have "unat (bva_ref_count b) > 0" using c(1) by (simp add: word_less_nat_alt)
  ultimately have pos: "?c > 0" by (simp add: word_less_nat_alt)
  have upd: "va_update v (\<lambda>x. x\<lparr>bva_ref_count := ?c\<rparr>)
        (va_update v (\<lambda>b. b\<lparr>bva_ref_count := bva_ref_count b + of_nat m\<rparr>) (bo_va bo)) =
      va_update v (\<lambda>b. b\<lparr>bva_ref_count := bva_ref_count b + of_nat m'\<rparr>) (bo_va bo)"
    by (subst update_update) (simp, rule update_cong_find [OF b], simp add: eq)
  show ?thesis
    using pos upd by (simp add: lima_vm_bo_del_def hold_fields b m' Let_def) (simp add: hold_def)
qed

text \<open>The same steps on the state.\<close>

lemma held_cong: "(\<And>b. ss_bos s b \<noteq> None \<Longrightarrow> f b = f' b \<and> g b = g' b) \<Longrightarrow> held v f g s = held v f' g' s"
  unfolding held_def by (rule arg_cong [where f = "\<lambda>x. s\<lparr>ss_bos := x\<rparr>"], rule ext) (metis map_option_cong option.distinct(1))

lemma held_upd: "ss_bos s b = Some bo \<Longrightarrow>
    (held v f g s)\<lparr>ss_bos := (ss_bos (held v f g s))(b := Some (hold v n m bo))\<rparr> =
    held v (f(b := n)) (g(b := m)) s"
  by (simp add: held_def fun_eq_iff)

lemma get_held:
  assumes "ss_bos s b = Some bo"
  shows "get_bo b (held v f g s) = Some (held v (f(b := Suc (f b))) g s)"
  using held_upd [OF assms, of v f g "Suc (f b)" "g b"] by (simp add: get_bo_def assms get_hold)

lemma put_held:
  assumes "ss_bos s b = Some bo" "gem_refs (bo_base bo) > 0" "f b > 0"
  shows "put_bo b (held v f g s) = Some (held v (f(b := f b - 1)) g s)"
proof -
  have "(held v f g s)\<lparr>ss_bos := (ss_bos (held v f g s))(b := Some (hold v (f b - 1) (g b) bo)), ss_sys := ss_sys s\<rparr> =
      held v (f(b := f b - 1)) (g(b := g b)) s"
    by (simp add: held_def fun_eq_iff assms(1))
  then show ?thesis using assms by (simp add: put_bo_def put_hold)
qed

lemma sched_vms_triv: "sp_vms p v = Some vm \<Longrightarrow> p\<lparr>sp_vms := (sp_vms p)(v \<mapsto> vm)\<rparr> = p"
  by (simp add: fun_upd_idem)

lemma held_pipe_same: "s1 = held v f g s \<Longrightarrow> s1\<lparr>ss_bos := x, ss_pipe := ss_pipe s\<rparr> = s1\<lparr>ss_bos := x\<rparr>"
  by (simp add: held_def)

lemma add_held:
  assumes "ss_bos s b = Some bo" "sp_vms (ss_pipe s) v = Some vm"
  shows "add_bo env v b (held v f g s) =
    (if mapped_bo v bo then Some (OK, held v f (g(b := Suc (g b))) s) else Some (E ENOENT, held v f g s))"
  using assms held_upd [OF assms(1), of v f g "f b" "Suc (g b)"] held_upd [OF assms(1), of v f g "f b" "g b"]
  by (simp add: add_bo_def add_hold add_unmapped sched_vms_triv held_pipe_same)

lemma del_held:
  assumes "ss_bos s b = Some bo" "sp_vms (ss_pipe s) v = Some vm" "mapped_bo v bo" "bo_ok v k bo"
    and "g b \<le> k" "g b > 0"
  shows "del_bo v b (held v f g s) = Some (held v f (g(b := g b - 1)) s)"
  using assms held_upd [OF assms(1), of v f g "f b" "g b - 1"] del_hold [OF assms(3-6), of vm "f b"]
  by (simp add: del_bo_def sched_vms_triv held_pipe_same)

section \<open>All the objects of a job\<close>

definition good_bos :: "nat \<Rightarrow> nat \<Rightarrow> 'b submit_state \<Rightarrow> nat list \<Rightarrow> bool" where
  "good_bos v n s bos = (\<forall>b \<in> set bos. \<exists>bo. ss_bos s b = Some bo \<and> mapped_bo v bo \<and> bo_ok v n bo)"

lemma good_bos_simps [simp]: "good_bos v n s []"
  "good_bos v n s (b # bs) \<longleftrightarrow>
     (\<exists>bo. ss_bos s b = Some bo \<and> mapped_bo v bo \<and> bo_ok v n bo) \<and> good_bos v n s bs"
  "good_bos v n s (bs @ cs) \<longleftrightarrow> good_bos v n s bs \<and> good_bos v n s cs"
  by (auto simp: good_bos_def)

lemma good_bos_cong: "ss_bos s' = ss_bos s \<Longrightarrow> good_bos v n s' bos = good_bos v n s bos"
  by (simp add: good_bos_def)

lemma bo_ok_refs: "bo_ok v n bo \<Longrightarrow> gem_refs (bo_base bo) > 0"
  by (simp add: bo_ok_def)

lemma count_snoc: "(count_list bos)(b := Suc (count_list bos b)) = count_list (bos @ [b])"
  by (rule ext) simp

lemma each_get:
  "good_bos v n s bos \<Longrightarrow> each get_bo bos (held v f g s) = Some (held v (\<lambda>b. f b + count_list bos b) g s)"
proof (induction bos arbitrary: f)
  case (Cons b bos)
  then obtain bo where bo: "ss_bos s b = Some bo" and good: "good_bos v n s bos" by auto
  show ?case
    using Cons.IH [OF good] by (auto simp: get_held [OF bo] intro!: held_cong)
qed simp

lemma each_put:
  "good_bos v n s bos \<Longrightarrow> (\<And>b. count_list bos b \<le> f b) \<Longrightarrow>
   each put_bo bos (held v f g s) = Some (held v (\<lambda>b. f b - count_list bos b) g s)"
proof (induction bos arbitrary: f)
  case (Cons b bos)
  then obtain bo where bo: "ss_bos s b = Some bo" "gem_refs (bo_base bo) > 0" and good: "good_bos v n s bos"
    by (auto dest: bo_ok_refs)
  have le: "count_list bos c \<le> (f(b := f b - 1)) c" for c using Cons.prems(2) [of c] by (auto split: if_splits)
  have "f b > 0" using Cons.prems(2) [of b] by simp
  then have "each put_bo (b # bos) (held v f g s) = each put_bo bos (held v (f(b := f b - 1)) g s)"
    by (simp add: put_held [OF bo])
  also have "\<dots> = Some (held v (\<lambda>c. (f(b := f b - 1)) c - count_list bos c) g s)"
    by (rule Cons.IH [OF good le])
  finally show ?case by (auto intro!: held_cong)
qed simp

lemma each_del:
  assumes vm: "sp_vms (ss_pipe s) v = Some vm"
  shows "good_bos v n s bos \<Longrightarrow> (\<And>b. count_list bos b \<le> g b \<and> g b \<le> n) \<Longrightarrow>
   each (del_bo v) bos (held v f g s) = Some (held v f (\<lambda>b. g b - count_list bos b) s)"
proof (induction bos arbitrary: g)
  case (Cons b bos)
  then obtain bo where bo: "ss_bos s b = Some bo" "mapped_bo v bo" "bo_ok v n bo" and good: "good_bos v n s bos"
    by auto
  have le: "count_list bos c \<le> (g(b := g b - 1)) c \<and> (g(b := g b - 1)) c \<le> n" for c
    using Cons.prems(2) [of c] by (auto split: if_splits)
  have "g b > 0" "g b \<le> n" using Cons.prems(2) [of b] by simp_all
  then have "each (del_bo v) (b # bos) (held v f g s) = each (del_bo v) bos (held v f (g(b := g b - 1)) s)"
    by (simp add: del_held [OF bo(1) vm bo(2,3)])
  also have "\<dots> = Some (held v f (\<lambda>c. (g(b := g b - 1)) c - count_list bos c) s)"
    by (rule Cons.IH [OF good le])
  finally show ?case by (auto intro!: held_cong)
qed simp

lemma each_undo:
  assumes vm: "sp_vms (ss_pipe s) v = Some vm"
  shows "good_bos v n s bos \<Longrightarrow> (\<And>b. count_list bos b \<le> f b \<and> count_list bos b \<le> g b \<and> g b \<le> n) \<Longrightarrow>
   each (undo_bo v) bos (held v f g s) =
     Some (held v (\<lambda>b. f b - count_list bos b) (\<lambda>b. g b - count_list bos b) s)"
proof (induction bos arbitrary: f g)
  case (Cons b bos)
  then obtain bo where bo: "ss_bos s b = Some bo" "mapped_bo v bo" "bo_ok v n bo" and good: "good_bos v n s bos"
    by auto
  have le: "count_list bos c \<le> (f(b := f b - 1)) c \<and> count_list bos c \<le> (g(b := g b - 1)) c \<and>
      (g(b := g b - 1)) c \<le> n" for c
    using Cons.prems(2) [of c] by (auto split: if_splits)
  have "g b > 0" "f b > 0" "g b \<le> n" using Cons.prems(2) [of b] by simp_all
  then have "each (undo_bo v) (b # bos) (held v f g s) =
      each (undo_bo v) bos (held v (f(b := f b - 1)) (g(b := g b - 1)) s)"
    by (simp add: undo_bo_def del_held [OF bo(1) vm bo(2,3)] put_held [OF bo(1) bo_ok_refs [OF bo(3)]])
  also have "\<dots> = Some (held v (\<lambda>c. (f(b := f b - 1)) c - count_list bos c)
      (\<lambda>c. (g(b := g b - 1)) c - count_list bos c) s)"
    by (rule Cons.IH [OF good le])
  finally show ?case by (auto intro!: held_cong)
qed simp

text \<open>What the handle table may name: live objects whose counters have room for the whole job.\<close>

definition objs_ok :: "submit_env \<Rightarrow> nat \<Rightarrow> nat \<Rightarrow> 'b submit_state \<Rightarrow> bool" where
  "objs_ok env v n s = (\<forall>h b. se_lookup env h = Some b \<longrightarrow> (\<exists>bo. ss_bos s b = Some bo \<and> bo_ok v n bo))"

lemma submit_lookup_holds:
  assumes vm: "sp_vms (ss_pipe s) v = Some vm" and objs: "objs_ok env v n s"
  shows "good_bos v n s bos \<Longrightarrow> \<exists>r bos'.
    submit_lookup env v hs bos (held v (count_list bos) (count_list bos) s) =
      Some (r, bos', held v (count_list bos') (count_list bos') s) \<and>
    good_bos v n s bos' \<and> length bos' \<le> length bos + length hs"
proof (induction hs arbitrary: bos)
  case (Cons h hs)
  show ?case
  proof (cases "se_lookup env h")
    case (Some b)
    then obtain bo where bo: "ss_bos s b = Some bo" "bo_ok v n bo" using objs by (auto simp: objs_ok_def)
    note steps = get_held [OF bo(1)] add_held [OF bo(1) vm] put_held [OF bo(1) bo_ok_refs [OF bo(2)]]
    show ?thesis
    proof (cases "mapped_bo v bo")
      case True
      then have good: "good_bos v n s (bos @ [b])" using Cons.prems bo by simp
      obtain r bos' where ih: "submit_lookup env v hs (bos @ [b])
            (held v (count_list (bos @ [b])) (count_list (bos @ [b])) s) =
          Some (r, bos', held v (count_list bos') (count_list bos') s)"
        and b': "good_bos v n s bos'" "length bos' \<le> length (bos @ [b]) + length hs"
        using Cons.IH [OF good] by blast
      have "submit_lookup env v (h # hs) bos (held v (count_list bos) (count_list bos) s) =
          submit_lookup env v hs (bos @ [b]) (held v (count_list (bos @ [b])) (count_list (bos @ [b])) s)"
        using True Some by (simp add: steps flip: count_snoc)
      then show ?thesis unfolding ih using b' by auto
    next
      case False
      then show ?thesis using Some Cons.prems by (auto simp: steps)
    qed
  qed (use Cons.prems in auto)
qed auto

lemma count_nil: "count_list [] = (\<lambda>_. 0)"
  by (rule ext) simp

lemma count_le_length: "count_list xs b \<le> length xs"
  by (induction xs) auto

lemmas held_simps = each_get each_put each_undo

section \<open>The job\<close>

text \<open>The pipe's stores once the job \<open>i\<close> holds its objects and the address space.\<close>

definition task_taken :: "nat \<Rightarrow> lima_sched_task \<Rightarrow> nat list \<Rightarrow> nat \<Rightarrow> lima_vm \<Rightarrow> 'b submit_state \<Rightarrow> 'b submit_state" where
  "task_taken i t bos v vm s = s\<lparr>ss_pipe := (ss_pipe s)\<lparr>sp_vms := (sp_vms (ss_pipe s))(v \<mapsto> lima_vm_get vm),
     sp_tasks := (sp_tasks (ss_pipe s))(i \<mapsto> t\<lparr>t_bos := bos, t_vm := v\<rparr>)\<rparr>\<rparr>"

definition with_task :: "nat \<Rightarrow> lima_sched_task \<Rightarrow> 'b submit_state \<Rightarrow> 'b submit_state" where
  "with_task i t s = s\<lparr>ss_pipe := (ss_pipe s)\<lparr>sp_tasks := (sp_tasks (ss_pipe s))(i \<mapsto> t)\<rparr>\<rparr>"

lemma with_task_upd: "(with_task i t s)\<lparr>ss_locked := l, ss_syncobj := n\<rparr> = with_task i t (s\<lparr>ss_locked := l, ss_syncobj := n\<rparr>)"
  by (simp add: with_task_def)

lemma task_init_held:
  assumes vm: "sp_vms (ss_pipe s) v = Some vm" and t: "sp_tasks (ss_pipe s) i = Some t" and good: "good_bos v n s bos"
  shows "lima_sched_task_init env i bos v (held v f g s) =
    (if \<not> se_kmemdup env then Some (E ENOMEM, held v f g s)
     else case se_job_init env of
       E e \<Rightarrow> Some (E e, held v (\<lambda>b. f b + count_list bos b) g s)
     | OK \<Rightarrow> Some (OK, held v (\<lambda>b. f b + count_list bos b) g (task_taken i t bos v vm s)))"
  by (auto simp: lima_sched_task_init_def each_get [OF good] t vm on_pipe_def vm_get_ref_def task_taken_def
      split: rc.splits)

lemma on_pipe_held: "on_pipe k (held v f g s) = map_option (held v f g) (on_pipe k s)"
  by (cases "k (ss_pipe s)") (simp_all add: on_pipe_def)

lemma vm_put_get: "vm_refcount vm > 0 \<Longrightarrow> lima_vm_put (Some (lima_vm_get vm)) = Inl (Some vm)"
  by (simp add: lima_vm_put_def lima_vm_get_def)

lemma task_fini_held:
  assumes vm: "sp_vms (ss_pipe s) v = Some vm" "vm_refcount vm > 0" and good: "good_bos v n s bos"
    and f: "\<And>b. count_list bos b \<le> f b"
  shows "lima_sched_task_fini i (held v f g (task_taken i t bos v vm s)) =
    Some (held v (\<lambda>b. f b - count_list bos b) g (with_task i (t\<lparr>t_bos := bos, t_vm := v\<rparr>) s))"
proof -
  let ?s = "task_taken i t bos v vm s"
  have good': "good_bos v n ?s bos" using good by (simp add: good_bos_def task_taken_def)
  have "on_pipe (vm_put_ref (Some v)) ?s = Some (with_task i (t\<lparr>t_bos := bos, t_vm := v\<rparr>) s)"
    using vm by (simp add: on_pipe_def vm_put_ref_def task_taken_def with_task_def vm_put_get fun_upd_idem)
  moreover have "sp_tasks (ss_pipe ?s) i = Some (t\<lparr>t_bos := bos, t_vm := v\<rparr>)" by (simp add: task_taken_def)
  ultimately show ?thesis by (simp add: lima_sched_task_fini_def each_put [OF good' f] on_pipe_held)
qed


section \<open>Every exit\<close>

definition submit_ready :: "submit_env \<Rightarrow> nat \<Rightarrow> lima_submit \<Rightarrow> 'b submit_state \<Rightarrow> bool" where
  "submit_ready env v sm s = (\<not> ss_locked s \<and> ss_syncobj s = 0 \<and> objs_ok env v (length (sm_bos sm)) s \<and>
     (case sp_vms (ss_pipe s) v of None \<Rightarrow> False | Some vm \<Rightarrow> vm_refcount vm > 0) \<and>
     sp_tasks (ss_pipe s) (sm_task sm) \<noteq> None)"

lemma err_out0_held:
  assumes vm: "sp_vms (ss_pipe s) v = Some vm" and good: "good_bos v n s bos" and n: "length bos \<le> n"
  shows "submit_err_out0 v bos e (held v (count_list bos) (count_list bos) s) = Some (E e, s\<lparr>ss_syncobj := 0\<rparr>)"
proof -
  have "count_list bos b \<le> n" for b using count_le_length [of bos b] n by linarith
  then have "each (undo_bo v) bos (held v (count_list bos) (count_list bos) s) =
      Some (held v (\<lambda>b. count_list bos b - count_list bos b) (\<lambda>b. count_list bos b - count_list bos b) s)"
    by (intro each_undo [OF vm good]) simp
  then show ?thesis by (simp add: submit_err_out0_def)
qed

lemma err_out1_held:
  assumes "sp_vms (ss_pipe s) v = Some vm" "good_bos v n s bos" "length bos \<le> n"
  shows "submit_err_out1 v bos e (held v (count_list bos) (count_list bos) s) =
    Some (E e, s\<lparr>ss_locked := False, ss_syncobj := 0\<rparr>)"
  using err_out0_held [of "s\<lparr>ss_locked := False\<rparr>" v vm n bos e] assms
  by (simp add: submit_err_out1_def good_bos_def)

lemma err_out2_held:
  assumes vm: "sp_vms (ss_pipe s) v = Some vm" "vm_refcount vm > 0" and good: "good_bos v n s bos" and n: "length bos \<le> n"
  shows "submit_err_out2 i v bos e
      (held v (\<lambda>b. count_list bos b + count_list bos b) (count_list bos) (task_taken i t bos v vm s)) =
    Some (E e, (with_task i (t\<lparr>t_bos := bos, t_vm := v\<rparr>) s)\<lparr>ss_locked := False, ss_syncobj := 0\<rparr>)"
proof -
  let ?s = "with_task i (t\<lparr>t_bos := bos, t_vm := v\<rparr>) s"
  have "sp_vms (ss_pipe ?s) v = Some vm" "good_bos v n ?s bos" using vm good by (simp_all add: with_task_def good_bos_def)
  note out1 = err_out1_held [OF this n, of e]
  have "lima_sched_task_fini i (held v (\<lambda>b. count_list bos b + count_list bos b) (count_list bos) (task_taken i t bos v vm s)) =
      Some (held v (\<lambda>b. count_list bos b + count_list bos b - count_list bos b) (count_list bos) ?s)"
    by (rule task_fini_held [OF vm good]) simp
  then show ?thesis using out1 by (simp add: submit_err_out2_def)
qed

lemma submit_lookup_all:
  assumes vm: "sp_vms (ss_pipe s) v = Some vm"
  shows "map (se_lookup env) hs = map Some new \<Longrightarrow> good_bos v n s new \<Longrightarrow>
    submit_lookup env v hs bos (held v (count_list bos) (count_list bos) s) =
      Some (OK, bos @ new, held v (count_list (bos @ new)) (count_list (bos @ new)) s)"
proof (induction hs arbitrary: bos new)
  case (Cons h hs)
  then obtain b new' where new: "new = b # new'" "se_lookup env h = Some b" "map (se_lookup env) hs = map Some new'"
    by (cases new) auto
  then obtain bo where bo: "ss_bos s b = Some bo" "mapped_bo v bo" and good: "good_bos v n s new'"
    using Cons.prems(2) by auto
  have "submit_lookup env v (h # hs) bos (held v (count_list bos) (count_list bos) s) =
      submit_lookup env v hs (bos @ [b]) (held v (count_list (bos @ [b])) (count_list (bos @ [b])) s)"
    using new bo by (simp add: get_held [OF bo(1)] add_held [OF bo(1) vm] flip: count_snoc)
  also have "\<dots> = Some (OK, (bos @ [b]) @ new',
      held v (count_list ((bos @ [b]) @ new')) (count_list ((bos @ [b]) @ new')) s)"
    by (rule Cons.IH [OF new(3) good])
  finally show ?case unfolding new(1) by (simp only: append_assoc append_Cons append_Nil)
qed simp

text \<open>The queued job, and what \<open>lima_gem_submit\<close> has changed beside the references.\<close>

definition job_queued ::
  "lima_submit \<Rightarrow> lima_sched_task \<Rightarrow> nat list \<Rightarrow> nat \<Rightarrow> lima_vm \<Rightarrow> 'b submit_state \<Rightarrow> 'b submit_state" where
  "job_queued sm t bos v vm s = (task_taken (sm_task sm) t bos v vm s)\<lparr>ss_queue := sm_task sm # ss_queue s,
     ss_fences := ss_fences s @ map (\<lambda>(b, f). (b, f AND LIMA_SUBMIT_BO_WRITE \<noteq> 0)) (zip bos (map snd (sm_bos sm)))\<rparr>"

definition submit_done :: "nat \<Rightarrow> lima_submit \<Rightarrow> 'b submit_state \<Rightarrow> 'b submit_state \<Rightarrow> bool" where
  "submit_done v sm s s' = (\<exists>bos t vm. sp_vms (ss_pipe s) v = Some vm \<and> vm_refcount vm > 0 \<and>
     good_bos v (length (sm_bos sm)) s bos \<and> length bos \<le> length (sm_bos sm) \<and>
     sp_tasks (ss_pipe s) (sm_task sm) = Some t \<and>
     s' = held v (count_list bos) (count_list bos) (job_queued sm t bos v vm s))"

lemma queue_done:
  assumes "good_bos v n s bos" "\<not> ss_locked s" "ss_syncobj s = 0"
  shows "(do { s5 \<leftarrow> each put_bo bos (held v (\<lambda>b. count_list bos b + count_list bos b) (count_list bos)
        ((job_queued sm t bos v vm s)\<lparr>ss_locked := False, ss_syncobj := y, ss_fence_refs := ss_fence_refs s + 1\<rparr>));
      Some (OK, s5\<lparr>ss_syncobj := 0, ss_fence_refs := ss_fence_refs s5 - 1\<rparr>) }) =
    Some (OK, held v (count_list bos) (count_list bos) (job_queued sm t bos v vm s))"
proof -
  let ?q = "(job_queued sm t bos v vm s)\<lparr>ss_locked := False, ss_syncobj := y, ss_fence_refs := ss_fence_refs s + 1\<rparr>"
  have good: "good_bos v n ?q bos"
    using assms(1) by (simp add: good_bos_def job_queued_def task_taken_def)
  have "each put_bo bos (held v (\<lambda>b. count_list bos b + count_list bos b) (count_list bos) ?q) =
      Some (held v (\<lambda>b. count_list bos b + count_list bos b - count_list bos b) (count_list bos) ?q)"
    by (rule each_put [OF good]) simp
  moreover have "?q\<lparr>ss_syncobj := 0, ss_fence_refs := ss_fence_refs s\<rparr> = job_queued sm t bos v vm s"
    using assms(2,3) by (simp add: job_queued_def task_taken_def)
  ultimately show ?thesis by simp
qed

lemma lookup_initial:
  assumes "sp_vms (ss_pipe s) v = Some vm" "objs_ok env v n s"
  obtains r bos where "submit_lookup env v hs [] s = Some (r, bos, held v (count_list bos) (count_list bos) s)"
    and "good_bos v n s bos" and "length bos \<le> length hs"
  using submit_lookup_holds [OF assms, of "[]" hs] by (auto simp: count_nil)

text \<open>The whole function as one case analysis, over what the first loop found.\<close>

lemma submit_eq:
  assumes ready: "submit_ready env v sm s" and job: "se_job_init env = OK"
    and sync: "\<not> (sm_out_sync sm \<noteq> 0 \<and> \<not> se_syncobj env)"
    and vm: "sp_vms (ss_pipe s) v = Some vm" "vm_refcount vm > 0" and t: "sp_tasks (ss_pipe s) (sm_task sm) = Some t"
    and s0_def: "s0 = (if sm_out_sync sm \<noteq> 0 then s\<lparr>ss_syncobj := 1\<rparr> else s)"
  obtains r bos where "submit_lookup env v (map fst (sm_bos sm)) [] s0 =
      Some (r, bos, held v (count_list bos) (count_list bos) s0)"
    and "good_bos v (length (sm_bos sm)) s bos" and "length bos \<le> length (sm_bos sm)"
    and "lima_gem_submit env v sm s =
    (case r of E e \<Rightarrow> Some (E e, s) | OK \<Rightarrow>
    (case se_lock env of E e \<Rightarrow> Some (E e, s) | OK \<Rightarrow>
     if \<not> se_kmemdup env then Some (E ENOMEM, s) else
    (case lima_gem_add_deps env (sm_in_sync sm) of E e \<Rightarrow> Some (E e, with_task (sm_task sm) (t\<lparr>t_bos := bos, t_vm := v\<rparr>) s) | OK \<Rightarrow>
    (case sync_all env (sm_flags sm) (zip bos (map snd (sm_bos sm))) of E e \<Rightarrow> Some (E e, with_task (sm_task sm) (t\<lparr>t_bos := bos, t_vm := v\<rparr>) s)
     | OK \<Rightarrow> Some (OK, held v (count_list bos) (count_list bos) (job_queued sm t bos v vm s))))))"
proof -
  let ?n = "length (sm_bos sm)"
  have s: "\<not> ss_locked s" "ss_syncobj s = 0" "objs_ok env v ?n s" using ready by (simp_all add: submit_ready_def)
  have s0: "ss_pipe s0 = ss_pipe s" "ss_bos s0 = ss_bos s" by (simp_all add: s0_def)
  have "objs_ok env v ?n s0" using s(3) by (simp add: objs_ok_def s0)
  then obtain r bos where look: "submit_lookup env v (map fst (sm_bos sm)) [] s0 =
      Some (r, bos, held v (count_list bos) (count_list bos) s0)"
    and good0: "good_bos v ?n s0 bos" and len: "length bos \<le> ?n"
    using lookup_initial [of s0 v vm env ?n "map fst (sm_bos sm)"] vm(1) s0 by (metis length_map)
  have good: "good_bos v ?n s bos" using good0 by (simp add: good_bos_def s0)
  have rest0: "s0\<lparr>ss_syncobj := 0\<rparr> = s" using s(2) by (simp add: s0_def)
  define sl where "sl = s0\<lparr>ss_locked := True\<rparr>"
  have sl: "ss_pipe sl = ss_pipe s" "good_bos v ?n sl bos" "sl\<lparr>ss_locked := False, ss_syncobj := 0\<rparr> = s"
    using good s rest0 by (simp_all add: sl_def s0 good_bos_def s0_def)
  note vl = vm [folded sl(1)]
  have out0: "submit_err_out0 v bos e (held v (count_list bos) (count_list bos) s0) = Some (E e, s)" for e
    using err_out0_held [OF vm(1) [folded s0(1)] good0 len] rest0 by simp
  have out1: "submit_err_out1 v bos e (held v (count_list bos) (count_list bos) sl) = Some (E e, s)" for e
    using err_out1_held [OF vl(1) sl(2) len] sl(3) by simp
  let ?t = "t\<lparr>t_bos := bos, t_vm := v\<rparr>"
  let ?taken = "held v (\<lambda>b. count_list bos b + count_list bos b) (count_list bos) (task_taken (sm_task sm) t bos v vm sl)"
  have out2: "submit_err_out2 (sm_task sm) v bos e ?taken = Some (E e, with_task (sm_task sm) ?t s)" for e
    using err_out2_held [OF vl sl(2) len, of "sm_task sm" e t] sl(3) by (simp add: with_task_upd)
  have init: "lima_sched_task_init env (sm_task sm) bos v (held v (count_list bos) (count_list bos) sl) =
      (if \<not> se_kmemdup env then Some (E ENOMEM, held v (count_list bos) (count_list bos) sl)
       else Some (OK, ?taken))"
    using task_init_held [OF vl(1) t [folded sl(1)] sl(2)] job by simp
  let ?fences = "map (\<lambda>(b, f). (b, f AND LIMA_SUBMIT_BO_WRITE \<noteq> 0)) (zip bos (map snd (sm_bos sm)))"
  let ?q = "lima_sched_context_queue_task (sm_task sm) ?taken"
  have "?q\<lparr>ss_fences := ss_fences ?q @ ?fences, ss_locked := False\<rparr> =
      held v (\<lambda>b. count_list bos b + count_list bos b) (count_list bos)
        ((job_queued sm t bos v vm s)\<lparr>ss_locked := False, ss_syncobj := ss_syncobj s0, ss_fence_refs := ss_fence_refs s + 1\<rparr>)"
    by (rule submit_state.equality)
      (simp_all add: held_def lima_sched_context_queue_task_def job_queued_def task_taken_def sl_def s0_def)
  then have queue: "(do { s5 \<leftarrow> each put_bo bos (?q\<lparr>ss_fences := ss_fences ?q @ ?fences, ss_locked := False\<rparr>);
      Some (OK, s5\<lparr>ss_syncobj := 0, ss_fence_refs := ss_fence_refs s5 - 1\<rparr>) }) =
    Some (OK, held v (count_list bos) (count_list bos) (job_queued sm t bos v vm s))"
    using queue_done [OF good s(1,2)] by simp
  have "lima_gem_submit env v sm s =
    (case r of E e \<Rightarrow> Some (E e, s) | OK \<Rightarrow>
    (case se_lock env of E e \<Rightarrow> Some (E e, s) | OK \<Rightarrow>
     if \<not> se_kmemdup env then Some (E ENOMEM, s) else
    (case lima_gem_add_deps env (sm_in_sync sm) of E e \<Rightarrow> Some (E e, with_task (sm_task sm) ?t s) | OK \<Rightarrow>
    (case sync_all env (sm_flags sm) (zip bos (map snd (sm_bos sm))) of E e \<Rightarrow> Some (E e, with_task (sm_task sm) ?t s)
     | OK \<Rightarrow> Some (OK, held v (count_list bos) (count_list bos) (job_queued sm t bos v vm s))))))"
    unfolding lima_gem_submit_def if_not_P [OF sync] Let_def s0_def [symmetric] look
    using queue by (simp add: out0 sl_def [symmetric] init out1 out2 split: rc.split)
  then show thesis by (rule that [OF look good len])
qed

lemma submit_exits:
  assumes ready: "submit_ready env v sm s" and job: "se_job_init env = OK"
  shows "\<exists>r s'. lima_gem_submit env v sm s = Some (r, s') \<and>
    (if r = OK then submit_done v sm s s' else (\<exists>t. s' = with_task (sm_task sm) t s))"
proof -
  obtain vm t where vm: "sp_vms (ss_pipe s) v = Some vm" "vm_refcount vm > 0"
    and t: "sp_tasks (ss_pipe s) (sm_task sm) = Some t"
    using ready by (auto simp: submit_ready_def split: option.splits)
  have same: "with_task (sm_task sm) t s = s" using t by (simp add: with_task_def fun_upd_idem)
  show ?thesis
  proof (cases "sm_out_sync sm \<noteq> 0 \<and> \<not> se_syncobj env")
    case True
    then show ?thesis using same [symmetric] by (auto simp: lima_gem_submit_def)
  next
    case False
    obtain r bos where good: "good_bos v (length (sm_bos sm)) s bos" and len: "length bos \<le> length (sm_bos sm)"
      and eq: "lima_gem_submit env v sm s =
      (case r of E e \<Rightarrow> Some (E e, s) | OK \<Rightarrow>
      (case se_lock env of E e \<Rightarrow> Some (E e, s) | OK \<Rightarrow>
       if \<not> se_kmemdup env then Some (E ENOMEM, s) else
      (case lima_gem_add_deps env (sm_in_sync sm) of E e \<Rightarrow> Some (E e, with_task (sm_task sm) (t\<lparr>t_bos := bos, t_vm := v\<rparr>) s) | OK \<Rightarrow>
      (case sync_all env (sm_flags sm) (zip bos (map snd (sm_bos sm))) of E e \<Rightarrow> Some (E e, with_task (sm_task sm) (t\<lparr>t_bos := bos, t_vm := v\<rparr>) s)
       | OK \<Rightarrow> Some (OK, held v (count_list bos) (count_list bos) (job_queued sm t bos v vm s))))))"
      by (rule submit_eq [OF ready job False vm t refl])
    have fin: "submit_done v sm s (held v (count_list bos) (count_list bos) (job_queued sm t bos v vm s))"
      unfolding submit_done_def using vm t good len by blast
    show ?thesis
      unfolding eq using fin same [symmetric] by (auto split: rc.splits)
  qed
qed

lemma with_task_only: "s' = with_task i t s \<Longrightarrow> s' = s\<lparr>ss_pipe := (ss_pipe s)\<lparr>sp_tasks := sp_tasks (ss_pipe s')\<rparr>\<rparr>"
  by (simp add: with_task_def)

lemma submit_succeeds:
  assumes ready: "submit_ready env v sm s" and job: "se_job_init env = OK"
    and look: "map (se_lookup env) (map fst (sm_bos sm)) = map Some bos" and good: "good_bos v n s bos"
    and env: "sm_out_sync sm = 0" "se_lock env = OK" "se_kmemdup env" "lima_gem_add_deps env (sm_in_sync sm) = OK"
      "sync_all env (sm_flags sm) (zip bos (map snd (sm_bos sm))) = OK"
    and vm: "sp_vms (ss_pipe s) v = Some vm" "vm_refcount vm > 0" and t: "sp_tasks (ss_pipe s) (sm_task sm) = Some t"
  shows "lima_gem_submit env v sm s = Some (OK, held v (count_list bos) (count_list bos) (job_queued sm t bos v vm s))"
proof -
  have find: "submit_lookup env v (map fst (sm_bos sm)) [] s = Some (OK, bos, held v (count_list bos) (count_list bos) s)"
    using submit_lookup_all [OF vm(1) look good, of "[]"] by (simp add: count_nil)
  show ?thesis
    by (rule submit_eq [OF ready job _ vm t refl]) (use env find in simp_all)
qed

section \<open>What the exits guarantee\<close>


text \<open>
  When \<open>drm_sched_job_init\<close> fails, \<open>lima_sched_task_init\<close> frees its array of objects without dropping
  the references it has just taken: the submission fails, everything else is undone, and every object keeps
  one reference for each time the job named it, so it is never freed.
\<close>

theorem lima_gem_submit_job_init_leak:
  assumes ready: "submit_ready env v sm s" and look: "map (se_lookup env) (map fst (sm_bos sm)) = map Some bos"
    and mapped: "\<forall>b \<in> set bos. \<forall>bo. ss_bos s b = Some bo \<longrightarrow> mapped_bo v bo"
    and env: "sm_out_sync sm = 0" "se_lock env = OK" "se_kmemdup env" "se_job_init env = E e"
  shows "\<exists>s'. lima_gem_submit env v sm s = Some (E e, s') \<and> ss_pipe s' = ss_pipe s \<and> \<not> ss_locked s' \<and>
    ss_bos s' = (\<lambda>b. map_option (\<lambda>bo. bo\<lparr>bo_base := (bo_base bo)\<lparr>gem_refs := gem_refs (bo_base bo) + count_list bos b\<rparr>\<rparr>)
      (ss_bos s b))"
proof -
  let ?n = "length (sm_bos sm)"
  obtain vm t where vm: "sp_vms (ss_pipe s) v = Some vm" and t: "sp_tasks (ss_pipe s) (sm_task sm) = Some t"
    using ready by (auto simp: submit_ready_def split: option.splits)
  have len: "length bos \<le> ?n" using look by (metis length_map order_refl)
  have good: "good_bos v ?n s bos"
  proof (unfold good_bos_def, rule ballI)
    fix b assume b: "b \<in> set bos"
    then have "Some b \<in> set (map (se_lookup env) (map fst (sm_bos sm)))" by (simp only: look) simp
    then obtain h where "se_lookup env h = Some b" by auto
    moreover have "objs_ok env v ?n s" using ready by (simp add: submit_ready_def)
    ultimately obtain bo where "ss_bos s b = Some bo" "bo_ok v ?n bo" by (auto simp: objs_ok_def)
    then show "\<exists>bo. ss_bos s b = Some bo \<and> mapped_bo v bo \<and> bo_ok v ?n bo" using mapped b by blast
  qed
  have le: "count_list bos b \<le> ?n" for b using count_le_length [of bos b] len by linarith
  let ?h = "held v (count_list bos) (count_list bos) s"
  have find: "submit_lookup env v (map fst (sm_bos sm)) [] s = Some (OK, bos, ?h)"
    using submit_lookup_all [OF vm look good, of "[]"] by (simp add: count_nil)
  let ?l = "s\<lparr>ss_locked := True\<rparr>" and ?u = "s\<lparr>ss_locked := False\<rparr>"
  have goods: "good_bos v ?n ?l bos" "good_bos v ?n ?u bos" using good by (simp_all add: good_bos_def)
  have init: "lima_sched_task_init env (sm_task sm) bos v (held v (count_list bos) (count_list bos) ?l) =
      Some (E e, held v (\<lambda>b. count_list bos b + count_list bos b) (count_list bos) ?l)"
    using task_init_held [of ?l v vm "sm_task sm" t ?n bos env] vm t goods env by simp
  have "each (undo_bo v) bos (held v (\<lambda>b. count_list bos b + count_list bos b) (count_list bos) ?u) =
      Some (held v (\<lambda>b. count_list bos b + count_list bos b - count_list bos b)
        (\<lambda>b. count_list bos b - count_list bos b) ?u)"
    by (rule each_undo [OF _ goods(2)]) (use vm le in simp_all)
  then have sub: "lima_gem_submit env v sm s =
      Some (E e, held v (count_list bos) (\<lambda>_. 0) (s\<lparr>ss_locked := False, ss_syncobj := 0\<rparr>))"
    using env by (simp add: lima_gem_submit_def find init submit_err_out1_def submit_err_out0_def)
  have "hold v k 0 = (\<lambda>bo. bo\<lparr>bo_base := (bo_base bo)\<lparr>gem_refs := gem_refs (bo_base bo) + k\<rparr>\<rparr>)" for k
    by (rule ext) (simp add: hold_def update_id)
  then show ?thesis unfolding sub by (simp add: held_def)
qed

section \<open>From submission to the end of the job\<close>

lemma free_job_held:
  assumes t: "sp_tasks (ss_pipe u) i = Some t" "t_vm t = v" and vm: "sp_vms (ss_pipe u) v = Some vm" "vm_refcount vm > 1"
    and fence: "case t_fence t of None \<Rightarrow> True | Some f \<Rightarrow> sp_fences (ss_pipe u) f \<noteq> None"
    and good: "good_bos v n u (t_bos t)" and n: "length (t_bos t) \<le> n"
  obtains s'' where "lima_sched_free_job i (held v (count_list (t_bos t)) (count_list (t_bos t)) u) = Some s''"
    and "ss_bos s'' = ss_bos u" and "sp_tasks (ss_pipe s'') = (sp_tasks (ss_pipe u))(i := None)"
    and "sp_vms (ss_pipe s'') = (sp_vms (ss_pipe u))(v \<mapsto> vm\<lparr>vm_refcount := vm_refcount vm - 1\<rparr>)"
proof -
  let ?c = "count_list (t_bos t)"
  obtain p where p: "dma_fence_put (t_fence t) (ss_pipe u) = Some p" and same: "sp_tasks p = sp_tasks (ss_pipe u)"
    "sp_vms p = sp_vms (ss_pipe u)"
    using fence by (cases "t_fence t") (auto simp: dma_fence_put_def)
  let ?u = "u\<lparr>ss_pipe := p\<rparr>"
  have good': "good_bos v n ?u (t_bos t)" using good by (simp add: good_bos_def)
  have le: "?c b \<le> ?c b \<and> ?c b \<le> n" for b using count_le_length [of "t_bos t" b] n by linarith
  have del: "each (del_bo v) (t_bos t) (held v ?c ?c ?u) = Some (held v ?c (\<lambda>b. ?c b - ?c b) ?u)"
    using each_del [OF _ good' le, of vm ?c] vm(1) same by simp
  have put: "each put_bo (t_bos t) (held v ?c (\<lambda>_. 0) ?u) = Some (held v (\<lambda>b. ?c b - ?c b) (\<lambda>_. 0) ?u)"
    by (rule each_put [OF good']) simp
  let ?s = "u\<lparr>ss_pipe := p\<lparr>sp_vms := (sp_vms p)(v \<mapsto> vm\<lparr>vm_refcount := vm_refcount vm - 1\<rparr>),
      sp_tasks := (sp_tasks p)(i := None)\<rparr>\<rparr>"
  have "lima_sched_free_job i (held v ?c ?c u) = Some ?s"
    using vm t same del put by (simp add: lima_sched_free_job_def lima_sched_task_fini_def on_pipe_def p
        vm_put_ref_def lima_vm_put_def)
  then show thesis by (rule that) (simp_all add: same)
qed

text \<open>
  C19: A job gives back what its submission took. Whatever the scheduler has done to the pipe in between - as long as
  the job still has its objects and its address space, and its fence is alive - \<open>lima_sched_free_job\<close> returns,
  frees the job, and every buffer object is again as it was before \<open>lima_gem_submit\<close>; the address space
  loses exactly the reference the job held.
\<close>

theorem lima_gem_submit_free_job_roundtrip:
  assumes ready: "submit_ready env v sm s" and job: "se_job_init env = OK"
    and sub: "lima_gem_submit env v sm s = Some (OK, s')"
    and queued: "sp_tasks (ss_pipe s') (sm_task sm) = Some t0"
    and later: "sp_tasks p (sm_task sm) = Some t" "t_bos t = t_bos t0" "t_vm t = v"
      "sp_vms p v = Some vm" "vm_refcount vm > 1"
    and fence: "case t_fence t of None \<Rightarrow> True | Some f \<Rightarrow> sp_fences p f \<noteq> None"
  shows "\<exists>s''. lima_sched_free_job (sm_task sm) (s'\<lparr>ss_pipe := p\<rparr>) = Some s'' \<and> ss_bos s'' = ss_bos s \<and>
    sp_tasks (ss_pipe s'') (sm_task sm) = None \<and>
    sp_vms (ss_pipe s'') = (sp_vms p)(v \<mapsto> vm\<lparr>vm_refcount := vm_refcount vm - 1\<rparr>)"
proof -
  have "submit_done v sm s s'" using submit_exits [OF ready job] sub by simp
  then obtain bos t1 vm1 where good: "good_bos v (length (sm_bos sm)) s bos" and len: "length bos \<le> length (sm_bos sm)"
    and s': "s' = held v (count_list bos) (count_list bos) (job_queued sm t1 bos v vm1 s)"
    unfolding submit_done_def by blast
  let ?u = "(job_queued sm t1 bos v vm1 s)\<lparr>ss_pipe := p\<rparr>"
  have "t_bos t0 = bos" using queued by (auto simp: s' job_queued_def task_taken_def)
  then have bos: "t_bos t = bos" using later(2) by simp
  have u: "ss_bos ?u = ss_bos s" "ss_pipe ?u = p" by (simp_all add: job_queued_def task_taken_def)
  then have good': "good_bos v (length (sm_bos sm)) ?u (t_bos t)" using good by (simp add: good_bos_def bos)
  have fence': "case t_fence t of None \<Rightarrow> True | Some f \<Rightarrow> sp_fences (ss_pipe ?u) f \<noteq> None"
    unfolding u(2) by (rule fence)
  obtain s'' where "lima_sched_free_job (sm_task sm) (held v (count_list (t_bos t)) (count_list (t_bos t)) ?u) = Some s''"
    "ss_bos s'' = ss_bos ?u" "sp_tasks (ss_pipe s'') = (sp_tasks (ss_pipe ?u))(sm_task sm := None)"
    "sp_vms (ss_pipe s'') = (sp_vms (ss_pipe ?u))(v \<mapsto> vm\<lparr>vm_refcount := vm_refcount vm - 1\<rparr>)"
    by (rule free_job_held [OF _ _ _ _ fence', where v = v and vm = vm and i = "sm_task sm"]) (use later good' len u(2) bos in simp_all)
  then show ?thesis using u by (simp add: s' bos)
qed

section \<open>A finished job that was freed\<close>

lemma each_keeps: "(\<And>x s s'. f x s = Some s' \<Longrightarrow> P s \<Longrightarrow> P s') \<Longrightarrow> each f xs s = Some s' \<Longrightarrow> P s \<Longrightarrow> P s'"
  by (induction xs arbitrary: s) (auto simp: bind_eq_Some_conv)

lemma vm_put_ref_current: "vm_put_ref vo p = Some p' \<Longrightarrow> sp_current_task p' = sp_current_task p"
  by (auto simp: vm_put_ref_def bind_eq_Some_conv split: option.splits)

lemma free_job_current:
  assumes "lima_sched_free_job i s = Some s'"
  shows "sp_current_task (ss_pipe s') = sp_current_task (ss_pipe s)" and "sp_tasks (ss_pipe s') i = None"
proof -
  let ?P = "\<lambda>x :: 'a submit_state. sp_current_task (ss_pipe x) = sp_current_task (ss_pipe s)"
  have del: "?P x'" if "del_bo v b x = Some x'" "?P x" for v b x x'
    using that by (auto simp: del_bo_def bind_eq_Some_conv)
  have put: "?P x'" if "put_bo b x = Some x'" "?P x" for b x x'
    using that by (auto simp: put_bo_def bind_eq_Some_conv)
  have dels: "?P x'" if "each (del_bo v) bs x = Some x'" "?P x" for v bs x x'
    by (rule each_keeps [where P = ?P, OF _ that]) (rule del)
  have puts: "?P x'" if "each put_bo bs x = Some x'" "?P x" for bs x x'
    by (rule each_keeps [where P = ?P, OF _ that]) (rule put)
  obtain t :: lima_sched_task and s1 s2 s3 where t: "on_pipe (dma_fence_put (t_fence t)) s = Some s1"
    "each (del_bo (t_vm t)) (t_bos t) s1 = Some s2" "lima_sched_task_fini i s2 = Some s3"
    and s': "s3\<lparr>ss_pipe := (ss_pipe s3)\<lparr>sp_tasks := (sp_tasks (ss_pipe s3))(i := None)\<rparr>\<rparr> = s'"
    using assms unfolding lima_sched_free_job_def bind_eq_Some_conv option.inject by blast
  have "?P s1" using t(1) by (auto simp: on_pipe_def dma_fence_put_def bind_eq_Some_conv split: option.splits)
  then have "?P s2" by (rule dels [OF t(2)])
  moreover obtain t' :: lima_sched_task and s4 where f: "each put_bo (t_bos t') s2 = Some s4" "on_pipe (vm_put_ref (Some (t_vm t'))) s4 = Some s3"
    using t(3) by (auto simp: lima_sched_task_fini_def bind_eq_Some_conv)
  ultimately have "?P s4" using puts [OF f(1)] by blast
  then have "?P s3" using f(2) by (auto simp: on_pipe_def bind_eq_Some_conv dest: vm_put_ref_current)
  then show "?P s'" "sp_tasks (ss_pipe s') i = None" by (simp_all flip: s')
qed

text \<open>
  C20: The teardown of a pipe reads freed memory after any job that ended normally: \<open>lima_sched_pipe_task_done\<close>
  leaves \<open>current_task\<close> on the job, the scheduler then frees it with \<open>lima_sched_free_job\<close>, and
  \<open>lima_sched_pipe_fini\<close> looks at the fence of the job it still names.
\<close>

theorem lima_sched_pipe_fini_reads_freed_job:
  assumes "lima_sched_pipe_task_done vt p = Some p1" and "\<not> sp_error p"
    and "sp_current_task p = Some i" and s: "ss_pipe s = p1" and free: "lima_sched_free_job i s = Some s'"
  shows "lima_sched_pipe_fini vt fake_wedge world (ss_pipe s') = None"
proof -
  have "sp_current_task (ss_pipe s) = Some i"
    unfolding s using assms(1-3) by (auto simp: lima_sched_pipe_task_done_def lima_pm_idle_def dma_fence_signal_def update_fence_def
        bind_eq_Some_conv Let_def split: prod.splits)
  then have "pipe_task_in_flight fake_wedge (ss_pipe s') = None"
    using free_job_current [OF free] by (simp add: pipe_task_in_flight_def)
  then show ?thesis by (simp add: lima_sched_pipe_fini_def pipe_fini_wait.simps)
qed

section \<open>Concrete submissions\<close>

definition demo_shared_bo :: lima_bo where
  "demo_shared_bo = \<lparr>bo_base = shmem_new 4096 True,
     bo_va = [\<lparr>bva_vm = 3, bva_ref_count = 1, bva_start = 0x10000, bva_size = 4096\<rparr>], bo_heap_size = 0\<rparr>"

definition demo_submit :: "u32 list \<Rightarrow> lima_submit" where
  "demo_submit syncs = \<lparr>sm_flags = 0, sm_bos = [(1, LIMA_SUBMIT_BO_WRITE), (1, LIMA_SUBMIT_BO_READ)],
     sm_in_sync = syncs, sm_out_sync = 0, sm_task = 0\<rparr>"

definition demo_submit_env :: "rc \<Rightarrow> submit_env" where
  "demo_submit_env r = \<lparr>se_lookup = [1 \<mapsto> 7], se_vm_env = demo_vm_env, se_lock = OK, se_kmemdup = True, se_job_init = r,
     se_add_dep = (\<lambda>_. E ENOENT), se_reserve = (\<lambda>_. OK), se_implicit = (\<lambda>_ _. OK), se_syncobj = True\<rparr>"

definition demo_submit_state :: "'b sched \<Rightarrow> 'b submit_state" where
  "demo_submit_state p = \<lparr>ss_pipe = p, ss_bos = [7 \<mapsto> demo_shared_bo], ss_sys = demo_vmsys, ss_locked = False,
     ss_syncobj = 0, ss_fence_refs = 0, ss_queue = [], ss_fences = []\<rparr>"

lemma demo_mapped: "mapped_bo 3 demo_shared_bo" "bo_ok 3 n demo_shared_bo = (Suc n < 2 ^ 32)"
  by (simp_all add: mapped_bo_def demo_shared_bo_def bo_ok_def shmem_new_def)

lemma demo_submit_ready: "submit_ready (demo_submit_env r) 3 (demo_submit syncs) (demo_submit_state (demo_sched f b))"
  by (auto simp: submit_ready_def objs_ok_def demo_submit_state_def demo_submit_env_def demo_submit_def demo_mapped
      demo_sched_def vm_blank_def split: if_splits)

lemma demo_deps: "lima_gem_submit (demo_submit_env OK) 3 (demo_submit [9]) s \<noteq> Some (OK, s')"
  by (auto simp: lima_gem_submit_def demo_submit_def demo_submit_env_def submit_err_out0_def submit_err_out1_def submit_err_out2_def
      bind_eq_Some_conv split: rc.splits)


theorem lima_gem_submit_job_init_leak_witness:
  "\<exists>s'. lima_gem_submit (demo_submit_env (E ENOMEM)) 3 (demo_submit []) (demo_submit_state (demo_sched [] ())) =
     Some (E ENOMEM, s') \<and> map_option (\<lambda>bo. gem_refs (bo_base bo)) (ss_bos s' 7) = Some 3"
proof -
  let ?s = "demo_submit_state (demo_sched [] ())"
  have "ss_bos ?s 7 = Some demo_shared_bo" by (simp add: demo_submit_state_def)
  moreover have "gem_refs (bo_base demo_shared_bo) = 1" by (simp add: demo_shared_bo_def shmem_new_def)
  ultimately show ?thesis
    using lima_gem_submit_job_init_leak [where bos = "[7, 7]" and e = ENOMEM,
        OF demo_submit_ready [of "E ENOMEM" "[]" "[]" "()"]]
    by (auto simp: demo_submit_def demo_submit_env_def demo_mapped)
qed

theorem lima_gem_submit_free_job_roundtrip_witness:
  "\<exists>s' s''. lima_gem_submit (demo_submit_env OK) 3 (demo_submit []) (demo_submit_state (demo_sched [] ())) = Some (OK, s') \<and>
     lima_sched_free_job 0 s' = Some s'' \<and> ss_bos s'' = [7 \<mapsto> demo_shared_bo]"
proof -
  let ?s = "demo_submit_state (demo_sched [] ())" and ?env = "demo_submit_env OK"
  let ?vm = "vm_blank 0x1000"
  let ?s' = "held 3 (count_list [7, 7]) (count_list [7, 7]) (job_queued (demo_submit []) (demo_task []) [7, 7] 3 ?vm ?s)"
  have job: "se_job_init ?env = OK" by (simp add: demo_submit_env_def)
  have sub: "lima_gem_submit ?env 3 (demo_submit []) ?s = Some (OK, ?s')"
    by (rule submit_succeeds [OF demo_submit_ready job, where n = 2])
      (simp_all add: demo_submit_def demo_submit_env_def demo_submit_state_def demo_mapped demo_sched_def sync_all_def
        lima_gem_sync_bo_def vm_blank_def)
  have task: "sp_tasks (ss_pipe ?s') (sm_task (demo_submit [])) = Some (demo_task []\<lparr>t_bos := [7, 7], t_vm := 3\<rparr>)"
    by (simp add: job_queued_def task_taken_def)
  have vm: "sp_vms (ss_pipe ?s') 3 = Some (lima_vm_get ?vm)" by (simp add: job_queued_def task_taken_def)
  have "\<exists>s''. lima_sched_free_job (sm_task (demo_submit [])) (?s'\<lparr>ss_pipe := ss_pipe ?s'\<rparr>) = Some s'' \<and> ss_bos s'' = ss_bos ?s"
    using lima_gem_submit_free_job_roundtrip [OF demo_submit_ready job sub task task _ _ vm]
    by (simp add: demo_task_def lima_vm_get_def vm_blank_def) blast
  then show ?thesis using sub by (auto simp: demo_submit_state_def demo_submit_def)
qed

theorem lima_sched_pipe_fini_reads_freed_job_witness:
  "\<exists>p p1 s'. lima_sched_pipe_task_done (pp_vtable demo_pp_hw demo_pp_dev) p = Some p1 \<and>
     lima_sched_free_job 0 (demo_submit_state p1) = Some s' \<and>
     lima_sched_pipe_fini (pp_vtable demo_pp_hw demo_pp_dev) False (\<lambda>_ s. s) (ss_pipe s') = None"
proof -
  let ?p = "(demo_sched [] (demo_pp_pipe None))\<lparr>sp_current_task := Some 0, sp_tasks := [0 \<mapsto> demo_task []\<lparr>t_fence := Some 5\<rparr>],
    sp_fences := [5 \<mapsto> \<lparr>fn_refs = 2, fn_signalled = False, fn_error = None, fn_seqno = 1\<rparr>]\<rparr>"
  obtain b io1 where "vt_task_fini (pp_vtable demo_pp_hw demo_pp_dev) (demo_pp_pipe None) [] = (b, io1)" by fastforce
  then obtain p1 where d: "lima_sched_pipe_task_done (pp_vtable demo_pp_hw demo_pp_dev) ?p = Some p1"
    and p1: "sp_tasks p1 = [0 \<mapsto> demo_task []\<lparr>t_fence := Some 5\<rparr>]" "sp_fences p1 5 \<noteq> None" "sp_vms p1 = [3 \<mapsto> vm_blank 0x1000]"
    by (auto simp: lima_sched_pipe_task_done_def demo_sched_def dma_fence_signal_def update_fence_def lima_pm_idle_def Let_def)
  obtain s' where f: "lima_sched_free_job 0 (demo_submit_state p1) = Some s'"
    using p1 by (auto simp: lima_sched_free_job_def lima_sched_task_fini_def demo_submit_state_def demo_task_def on_pipe_def
        dma_fence_put_def vm_put_ref_def)
  have "lima_sched_pipe_fini (pp_vtable demo_pp_hw demo_pp_dev) False (\<lambda>_ s. s) (ss_pipe s') = None"
    by (rule lima_sched_pipe_fini_reads_freed_job [OF d _ _ _ f]) (simp_all add: demo_sched_def demo_submit_state_def)
  then show ?thesis using d f by blast
qed

end
