(* ===== verification/Lima_Ctx.thy ===== *)
theory Lima_Ctx
  imports Lima_MMU
begin

text \<open>
  Rendering contexts (\<open>lima_ctx.c\<close>, the context half of \<open>lima_sched.c\<close>): creation with its unwinding,
  lookup, reference counting and the end of a file. Contexts are numbered objects of a store, \<open>None\<close>
  being freed memory; \<open>cw_entities\<close> says which scheduler entities are initialised. The xarray of
  a file is the list of its entries in the order of their ids. The mutex of the manager makes each
  operation one step.
\<close>

section \<open>State and operations\<close>

record lima_ctx =
  cx_refcnt :: nat
  cx_pid :: nat

record ctx_world =
  cw_ctx :: "nat \<Rightarrow> lima_ctx option"
  cw_entities :: "nat \<Rightarrow> lima_pipe_id \<Rightarrow> bool"
  cw_handles :: "(u32 \<times> nat) list"

record ctx_env =
  ce_kzalloc :: "nat option"                 \<comment> \<open>a fresh object\<close>
  ce_entity_init :: "lima_pipe_id \<Rightarrow> rc"      \<comment> \<open>\<open>drm_sched_entity_init\<close>\<close>
  ce_xa_alloc :: "errno + u32"               \<comment> \<open>a free id\<close>
  ce_pid :: nat

definition lima_sched_context_init :: "rc \<Rightarrow> nat \<Rightarrow> lima_pipe_id \<Rightarrow> ctx_world \<Rightarrow> rc \<times> ctx_world" where
  "lima_sched_context_init entity_init c p w =
     (case entity_init of
        E e \<Rightarrow> (E e, w)
      | OK \<Rightarrow> (OK, w\<lparr>cw_entities := (cw_entities w)(c := (cw_entities w c)(p := True))\<rparr>))"

definition lima_sched_context_fini :: "nat \<Rightarrow> lima_pipe_id \<Rightarrow> ctx_world \<Rightarrow> ctx_world" where
  "lima_sched_context_fini c p w =
     w\<lparr>cw_entities := (cw_entities w)(c := (cw_entities w c)(p := False))\<rparr>"

definition lima_pipes :: "lima_pipe_id list" where "lima_pipes = [lima_pipe_gp, lima_pipe_pp]"

definition kfree_ctx :: "nat \<Rightarrow> ctx_world \<Rightarrow> ctx_world" where
  "kfree_ctx c w = w\<lparr>cw_ctx := (cw_ctx w)(c := None)\<rparr>"

text \<open>The first loop of the creation: the pipes that were initialised when it ended.\<close>

fun ctx_init_loop ::
  "(lima_pipe_id \<Rightarrow> rc) \<Rightarrow> nat \<Rightarrow> lima_pipe_id list \<Rightarrow> lima_pipe_id list \<Rightarrow> ctx_world \<Rightarrow>
   rc \<times> lima_pipe_id list \<times> ctx_world" where
  "ctx_init_loop init c [] done w = (OK, done, w)"
| "ctx_init_loop init c (p # ps) done w =
     (case lima_sched_context_init (init p) c p w of
        (E e, w1) \<Rightarrow> (E e, done, w1)
      | (OK, w1) \<Rightarrow> ctx_init_loop init c ps (p # done) w1)"

definition lima_ctx_create :: "ctx_env \<Rightarrow> ctx_world \<Rightarrow> (errno + u32) \<times> ctx_world" where
  "lima_ctx_create env w =
     (case ce_kzalloc env of
        None \<Rightarrow> (Inl ENOMEM, w)
      | Some c \<Rightarrow>
          let w0 = w\<lparr>cw_ctx := (cw_ctx w)(c \<mapsto> \<lparr>cx_refcnt = 1, cx_pid = 0\<rparr>)\<rparr>;
              (err, done, w1) = ctx_init_loop (ce_entity_init env) c lima_pipes [] w0;
              unwind = (\<lambda>e. (Inl e, kfree_ctx c (fold (lima_sched_context_fini c) done w1)))
          in
          case err of
            E e \<Rightarrow> unwind e
          | OK \<Rightarrow>
              (case ce_xa_alloc env of
                 Inl e \<Rightarrow> unwind e
               | Inr i \<Rightarrow> (Inr i, w1\<lparr>cw_handles := insort_key fst (i, c) (cw_handles w1),
                   cw_ctx := (cw_ctx w1)(c \<mapsto> \<lparr>cx_refcnt = 1, cx_pid = ce_pid env\<rparr>)\<rparr>)))"

definition lima_ctx_do_release :: "nat \<Rightarrow> ctx_world \<Rightarrow> ctx_world" where
  "lima_ctx_do_release c w = kfree_ctx c (fold (lima_sched_context_fini c) lima_pipes w)"

definition lima_ctx_put :: "nat \<Rightarrow> ctx_world \<Rightarrow> ctx_world option" where
  "lima_ctx_put c w = do {
     x \<leftarrow> cw_ctx w c;
     Some (if cx_refcnt x - 1 = 0 then lima_ctx_do_release c w
           else w\<lparr>cw_ctx := (cw_ctx w)(c \<mapsto> x\<lparr>cx_refcnt := cx_refcnt x - 1\<rparr>)\<rparr>) }"

definition lima_ctx_free :: "u32 \<Rightarrow> ctx_world \<Rightarrow> (rc \<times> ctx_world) option" where
  "lima_ctx_free i w =
     (case map_of (cw_handles w) i of
        None \<Rightarrow> Some (E EINVAL, w)
      | Some c \<Rightarrow> do {
          w1 \<leftarrow> lima_ctx_put c (w\<lparr>cw_handles := filter (\<lambda>h. fst h \<noteq> i) (cw_handles w)\<rparr>);
          Some (OK, w1) })"

definition lima_ctx_get :: "u32 \<Rightarrow> ctx_world \<Rightarrow> (nat option \<times> ctx_world) option" where
  "lima_ctx_get i w =
     (case map_of (cw_handles w) i of
        None \<Rightarrow> Some (None, w)
      | Some c \<Rightarrow> do {
          x \<leftarrow> cw_ctx w c;
          Some (Some c, w\<lparr>cw_ctx := (cw_ctx w)(c \<mapsto> x\<lparr>cx_refcnt := cx_refcnt x + 1\<rparr>)\<rparr>) })"

definition lima_ctx_mgr_init :: "ctx_world \<Rightarrow> ctx_world" where
  "lima_ctx_mgr_init w = w\<lparr>cw_handles := []\<rparr>"

fun ctx_put_all :: "(u32 \<times> nat) list \<Rightarrow> ctx_world \<Rightarrow> ctx_world option" where
  "ctx_put_all [] w = Some w"
| "ctx_put_all (h # hs) w = do { w1 \<leftarrow> lima_ctx_put (snd h) w; ctx_put_all hs w1 }"

definition lima_ctx_mgr_fini :: "ctx_world \<Rightarrow> ctx_world option" where
  "lima_ctx_mgr_fini w = do { w1 \<leftarrow> ctx_put_all (cw_handles w) w; Some (w1\<lparr>cw_handles := []\<rparr>) }"

section \<open>The invariant\<close>

text \<open>\<open>n c\<close> references to context \<open>c\<close> are held; a context lives exactly while there are any.\<close>

definition ctx_ok :: "(nat \<Rightarrow> nat) \<Rightarrow> ctx_world \<Rightarrow> bool" where
  "ctx_ok n w \<longleftrightarrow>
     (\<forall>c. case cw_ctx w c of
        None \<Rightarrow> n c = 0 \<and> (\<forall>p. \<not> cw_entities w c p)
      | Some x \<Rightarrow> n c > 0 \<and> cx_refcnt x = n c \<and> (\<forall>p. cw_entities w c p))"

text \<open>
  \<open>ext c\<close> is the number of references that ioctls in progress hold to context \<open>c\<close>: what
  \<open>lima_ctx_get\<close> gave and \<open>lima_ctx_put\<close> has not taken back.
\<close>

definition handle_refs :: "(u32 \<times> nat) list \<Rightarrow> nat \<Rightarrow> nat" where
  "handle_refs hs c = count_list (map snd hs) c"

definition ctx_inv :: "(nat \<Rightarrow> nat) \<Rightarrow> ctx_world \<Rightarrow> bool" where
  "ctx_inv ext w \<longleftrightarrow> ctx_ok (\<lambda>c. ext c + handle_refs (cw_handles w) c) w \<and> distinct (map fst (cw_handles w))"

lemma ctx_ok_None:
  "ctx_ok n w \<Longrightarrow> cw_ctx w c = None \<Longrightarrow> n c = 0 \<and> \<not> cw_entities w c p"
  unfolding ctx_ok_def by (drule spec [of _ c]) simp

lemma ctx_ok_Some:
  "ctx_ok n w \<Longrightarrow> cw_ctx w c = Some x \<Longrightarrow> n c > 0 \<and> cx_refcnt x = n c \<and> cw_entities w c p"
  unfolding ctx_ok_def by (drule spec [of _ c]) simp

lemma ctx_okI:
  assumes "\<And>c p. cw_ctx w c = None \<Longrightarrow> n c = 0 \<and> \<not> cw_entities w c p"
    and "\<And>c x p. cw_ctx w c = Some x \<Longrightarrow> n c > 0 \<and> cx_refcnt x = n c \<and> cw_entities w c p"
  shows "ctx_ok n w"
  unfolding ctx_ok_def using assms by (auto split: option.split)

lemma ctx_ok_handles [simp]: "ctx_ok n (cw_handles_update f w) = ctx_ok n w"
  by (simp add: ctx_ok_def cong: option.case_cong)

lemma ctx_ok_present: "ctx_ok n w \<Longrightarrow> n c > 0 \<Longrightarrow> \<exists>x. cw_ctx w c = Some x \<and> cx_refcnt x = n c"
  using ctx_ok_None ctx_ok_Some by (metis not_Some_eq less_irrefl)

lemma all_pipes: "(\<forall>p. P p) \<longleftrightarrow> P lima_pipe_gp \<and> P lima_pipe_pp"
  by (metis lima_pipe_id.exhaust)

lemma handle_refs_insort: "handle_refs (insort_key fst (i, c) hs) d = handle_refs hs d + (if d = c then 1 else 0)"
  by (induction hs) (auto simp: handle_refs_def)

lemma handle_refs_erase:
  assumes "distinct (map fst hs)" and "map_of hs i = Some c"
  shows "handle_refs (filter (\<lambda>h. fst h \<noteq> i) hs) d + (if d = c then 1 else 0) = handle_refs hs d"
  using assms
proof (induction hs)
  case (Cons h hs)
  show ?case
  proof (cases "fst h = i")
    case True
    then have "i \<notin> fst ` set hs" using Cons.prems(1) by simp
    then have "filter (\<lambda>h. fst h \<noteq> i) hs = hs" by (intro filter_True) (metis imageI)
    then show ?thesis using True Cons.prems(2) by (cases h) (auto simp: handle_refs_def)
  next
    case False
    then show ?thesis using Cons by (cases h) (auto simp: handle_refs_def)
  qed
qed simp

lemma handle_refs_pos: "map_of hs i = Some c \<Longrightarrow> handle_refs hs c > 0"
  by (induction hs) (auto simp: handle_refs_def split: if_splits)

section \<open>Every operation keeps it\<close>

lemma ctx_put_ok:
  assumes "ctx_ok n w" and "n c > 0"
  obtains w' where "lima_ctx_put c w = Some w'" and "ctx_ok (n(c := n c - 1)) w'" and "cw_handles w' = cw_handles w"
proof -
  obtain x where x: "cw_ctx w c = Some x" "cx_refcnt x = n c"
    using ctx_ok_present [OF assms] by blast
  define w' where "w' = (if n c = 1 then lima_ctx_do_release c w
      else w\<lparr>cw_ctx := (cw_ctx w)(c \<mapsto> x\<lparr>cx_refcnt := cx_refcnt x - 1\<rparr>)\<rparr>)"
  have p: "lima_ctx_put c w = Some w'" using x assms(2) by (auto simp: lima_ctx_put_def w'_def)
  have "ctx_ok (n(c := n c - 1)) w'"
  proof (rule ctx_okI)
    show "(n(c := n c - 1)) d = 0 \<and> \<not> cw_entities w' d p" if "cw_ctx w' d = None" for d p
      using that ctx_ok_None [OF assms(1), of d p] x
      by (cases p) (auto simp: w'_def lima_ctx_do_release_def kfree_ctx_def lima_sched_context_fini_def
          lima_pipes_def split: if_splits)
    show "(n(c := n c - 1)) d > 0 \<and> cx_refcnt y = (n(c := n c - 1)) d \<and> cw_entities w' d p"
      if "cw_ctx w' d = Some y" for d y p
      using that ctx_ok_Some [OF assms(1), of d y p] ctx_ok_Some [OF assms(1) x(1), of p] x assms(2)
      by (auto simp: w'_def lima_ctx_do_release_def kfree_ctx_def lima_sched_context_fini_def
          lima_pipes_def split: if_splits)
  qed
  moreover have "cw_handles w' = cw_handles w"
    by (simp add: w'_def lima_ctx_do_release_def kfree_ctx_def lima_sched_context_fini_def lima_pipes_def)
  ultimately show thesis using p that by blast
qed

lemma ctx_get_ok:
  assumes "ctx_inv ext w" and "map_of (cw_handles w) i = Some c"
  obtains w' where "lima_ctx_get i w = Some (Some c, w')" and "ctx_inv (ext(c := ext c + 1)) w'"
proof -
  have "handle_refs (cw_handles w) c > 0" by (rule handle_refs_pos [OF assms(2)])
  then have pos: "ext c + handle_refs (cw_handles w) c > 0" by simp
  have ok: "ctx_ok (\<lambda>c. ext c + handle_refs (cw_handles w) c) w" using assms(1) by (simp add: ctx_inv_def)
  obtain x where x: "cw_ctx w c = Some x" "cx_refcnt x = ext c + handle_refs (cw_handles w) c"
    using ctx_ok_present [OF ok pos] by blast
  let ?w = "w\<lparr>cw_ctx := (cw_ctx w)(c \<mapsto> x\<lparr>cx_refcnt := cx_refcnt x + 1\<rparr>)\<rparr>"
  have "ctx_ok (\<lambda>d. (ext(c := ext c + 1)) d + handle_refs (cw_handles w) d) ?w"
    by (rule ctx_okI) (use ctx_ok_None [OF ok] ctx_ok_Some [OF ok] x in \<open>auto split: if_splits\<close>)
  then have "ctx_inv (ext(c := ext c + 1)) ?w" using assms(1) by (simp add: ctx_inv_def)
  then show thesis using that x(1) assms(2) by (simp add: lima_ctx_get_def)
qed

lemma ctx_create_failed:
  assumes "ctx_inv ext w" and "\<forall>c. ce_kzalloc env = Some c \<longrightarrow> cw_ctx w c = None"
    and "lima_ctx_create env w = (Inl e, w')"
  shows "w' = w"
proof (cases "ce_kzalloc env")
  case None
  then show ?thesis using assms(3) by (simp add: lima_ctx_create_def)
next
  case (Some c)
  then have c: "cw_ctx w c = None" using assms(2) by simp
  have ok: "ctx_ok (\<lambda>c. ext c + handle_refs (cw_handles w) c) w" using assms(1) by (simp add: ctx_inv_def)
  have "\<not> cw_entities w c p" for p using ctx_ok_None [OF ok c] by simp
  then have e: "(cw_entities w)(c := (cw_entities w c)(lima_pipe_gp := False)) = cw_entities w"
    "(cw_entities w)(c := (cw_entities w c)(lima_pipe_gp := False, lima_pipe_pp := False)) = cw_entities w"
    "(cw_entities w)(c := (cw_entities w c)(lima_pipe_pp := False, lima_pipe_gp := False)) = cw_entities w"
    by (intro ext, simp)+
  have k: "(cw_ctx w)(c := None) = cw_ctx w" using c by auto
  show ?thesis
    using assms(3) Some
    by (cases "ce_entity_init env lima_pipe_gp"; cases "ce_entity_init env lima_pipe_pp"; cases "ce_xa_alloc env")
      (auto simp: lima_ctx_create_def lima_pipes_def lima_sched_context_init_def Let_def kfree_ctx_def
        lima_sched_context_fini_def k e)
qed

lemma ctx_create_ok:
  assumes "ctx_inv ext w" and "\<forall>c. ce_kzalloc env = Some c \<longrightarrow> cw_ctx w c = None"
    and "\<forall>i. ce_xa_alloc env = Inr i \<longrightarrow> i \<notin> fst ` set (cw_handles w)"
    and "lima_ctx_create env w = (Inr i, w')"
  shows "ctx_inv ext w'" and "map_of (cw_handles w') i = ce_kzalloc env"
proof -
  obtain c where c: "ce_kzalloc env = Some c" "cw_ctx w c = None" and i: "ce_xa_alloc env = Inr i"
    and w': "w' = w\<lparr>cw_handles := insort_key fst (i, c) (cw_handles w),
      cw_ctx := (cw_ctx w)(c \<mapsto> \<lparr>cx_refcnt = 1, cx_pid = ce_pid env\<rparr>),
      cw_entities := (cw_entities w)(c := (cw_entities w c)(lima_pipe_gp := True, lima_pipe_pp := True))\<rparr>"
    using assms(2,4)
    by (cases "ce_kzalloc env"; cases "ce_entity_init env lima_pipe_gp"; cases "ce_entity_init env lima_pipe_pp";
        cases "ce_xa_alloc env")
      (auto simp: lima_ctx_create_def lima_pipes_def lima_sched_context_init_def Let_def)
  have fresh: "i \<notin> fst ` set (cw_handles w)" using assms(3) i by simp
  have ok: "ctx_ok (\<lambda>c. ext c + handle_refs (cw_handles w) c) w" using assms(1) by (simp add: ctx_inv_def)
  have n0: "ext c + handle_refs (cw_handles w) c = 0" using ctx_ok_None [OF ok c(2)] by simp
  have d: "distinct (map fst (cw_handles w'))"
    using assms(1) fresh by (simp add: w' ctx_inv_def distinct_insort_key)
  have "ctx_ok (\<lambda>d. ext d + handle_refs (cw_handles w') d) w'"
  proof (rule ctx_okI)
    show "ext d + handle_refs (cw_handles w') d = 0 \<and> \<not> cw_entities w' d p" if "cw_ctx w' d = None" for d p
      using that ctx_ok_None [OF ok, of d p] by (auto simp: w' handle_refs_insort split: if_splits)
    show "ext d + handle_refs (cw_handles w') d > 0 \<and> cx_refcnt y = ext d + handle_refs (cw_handles w') d \<and>
        cw_entities w' d p" if "cw_ctx w' d = Some y" for d y p
      using that ctx_ok_Some [OF ok, of d y p] n0 by (cases p) (auto simp: w' handle_refs_insort split: if_splits)
  qed
  then show "ctx_inv ext w'" using d by (simp add: ctx_inv_def)
  have "(i, c) \<in> set (cw_handles w')" by (simp add: w' set_insort_key)
  then show "map_of (cw_handles w') i = ce_kzalloc env" using d c by (simp add: map_of_is_SomeI)
qed

lemma ctx_free_ok:
  assumes "ctx_inv ext w"
  obtains r w' where "lima_ctx_free i w = Some (r, w')" and "ctx_inv ext w'"
    and "map_of (cw_handles w') i = None" and "r = (if map_of (cw_handles w) i = None then E EINVAL else OK)"
proof (cases "map_of (cw_handles w) i")
  case None
  then show ?thesis using assms that by (simp add: lima_ctx_free_def)
next
  case (Some c)
  let ?hs = "filter (\<lambda>h. fst h \<noteq> i) (cw_handles w)"
  let ?w = "w\<lparr>cw_handles := ?hs\<rparr>"
  let ?n = "\<lambda>d. ext d + handle_refs (cw_handles w) d"
  have d: "distinct (map fst (cw_handles w))" using assms by (simp add: ctx_inv_def)
  have e: "handle_refs ?hs d + (if d = c then 1 else 0) = handle_refs (cw_handles w) d" for d
    by (rule handle_refs_erase [OF d Some])
  have ok: "ctx_ok ?n ?w" using assms by (simp add: ctx_inv_def)
  have pos: "?n c > 0" using handle_refs_pos [OF Some] by simp
  obtain w' where p: "lima_ctx_put c ?w = Some w'" "ctx_ok (?n(c := ?n c - 1)) w'" "cw_handles w' = ?hs"
    by (rule ctx_put_ok [OF ok pos]) simp
  have "?n(c := ?n c - 1) = (\<lambda>d. ext d + handle_refs ?hs d)"
    using e by (intro ext) (auto simp flip: e)
  moreover have "distinct (map fst ?hs)" using d by (rule distinct_map_filter)
  ultimately have "ctx_inv ext w'" using p by (simp add: ctx_inv_def)
  moreover have "map_of ?hs i = None" by (auto simp: map_of_eq_None_iff)
  ultimately show ?thesis using that p Some by (simp add: lima_ctx_free_def)
qed

lemma ctx_put_all_ok:
  assumes "ctx_ok (\<lambda>c. ext c + handle_refs hs c) w"
  shows "\<exists>w'. ctx_put_all hs w = Some w' \<and> ctx_ok ext w'"
  using assms
proof (induction hs arbitrary: w)
  case Nil
  then show ?case by (simp add: handle_refs_def)
next
  case (Cons h hs)
  let ?n = "\<lambda>c. ext c + handle_refs (h # hs) c"
  have "?n (snd h) > 0" by (simp add: handle_refs_def)
  then obtain w1 where p: "lima_ctx_put (snd h) w = Some w1" "ctx_ok (?n(snd h := ?n (snd h) - 1)) w1"
    by (rule ctx_put_ok [OF Cons.prems])
  have "?n(snd h := ?n (snd h) - 1) = (\<lambda>c. ext c + handle_refs hs c)"
    by (intro ext) (auto simp: handle_refs_def)
  then show ?case using Cons.IH [of w1] p by simp
qed

section \<open>The life of the contexts of a file\<close>

text \<open>
  What the ioctls of a file do, with the references that those in progress hold. The allocator gives
  fresh memory and the xarray a free id.
\<close>

inductive ctx_step :: "(nat \<Rightarrow> nat) \<times> ctx_world \<Rightarrow> (nat \<Rightarrow> nat) \<times> ctx_world \<Rightarrow> bool" where
  create: "(\<forall>c. ce_kzalloc env = Some c \<longrightarrow> cw_ctx w c = None) \<Longrightarrow>
      (\<forall>i. ce_xa_alloc env = Inr i \<longrightarrow> i \<notin> fst ` set (cw_handles w)) \<Longrightarrow>
      lima_ctx_create env w = (r, w') \<Longrightarrow> ctx_step (ext, w) (ext, w')"
| free: "lima_ctx_free i w = Some (r, w') \<Longrightarrow> ctx_step (ext, w) (ext, w')"
| get: "lima_ctx_get i w = Some (Some c, w') \<Longrightarrow> ctx_step (ext, w) (ext(c := ext c + 1), w')"
| put: "ext c > 0 \<Longrightarrow> lima_ctx_put c w = Some w' \<Longrightarrow> ctx_step (ext, w) (ext(c := ext c - 1), w')"

inductive_cases ctx_stepE: "ctx_step (ext, w) (ext', w')"

definition no_contexts :: "ctx_world \<Rightarrow> bool" where
  "no_contexts w \<longleftrightarrow> (\<forall>c. cw_ctx w c = None) \<and> (\<forall>c p. \<not> cw_entities w c p)"

lemma ctx_put_inv:
  assumes "ctx_inv ext w" and "ext c > 0" and "lima_ctx_put c w = Some w'"
  shows "ctx_inv (ext(c := ext c - 1)) w'"
proof -
  let ?n = "\<lambda>d. ext d + handle_refs (cw_handles w) d"
  have ok: "ctx_ok ?n w" using assms(1) by (simp add: ctx_inv_def)
  have pos: "?n c > 0" using assms(2) by simp
  obtain w1 where p: "lima_ctx_put c w = Some w1" "ctx_ok (?n(c := ?n c - 1)) w1" "cw_handles w1 = cw_handles w"
    by (rule ctx_put_ok [OF ok pos])
  have "?n(c := ?n c - 1) = (\<lambda>d. (ext(c := ext c - 1)) d + handle_refs (cw_handles w) d)"
    using assms(2) by (intro ext) auto
  then show ?thesis using p assms(1,3) by (simp add: ctx_inv_def)
qed

lemma ctx_step_inv:
  assumes "ctx_inv ext w" and "ctx_step (ext, w) (ext', w')"
  shows "ctx_inv ext' w'"
  using assms(2)
proof (rule ctx_stepE)
  fix env r
  assume a: "\<forall>c. ce_kzalloc env = Some c \<longrightarrow> cw_ctx w c = None"
    "\<forall>i. ce_xa_alloc env = Inr i \<longrightarrow> i \<notin> fst ` set (cw_handles w)" "lima_ctx_create env w = (r, w')" "ext' = ext"
  then show ?thesis
    using ctx_create_failed [OF assms(1) a(1)] ctx_create_ok(1) [OF assms(1) a(1,2)] assms(1) by (cases r) auto
next
  fix i r
  assume "ext' = ext" "lima_ctx_free i w = Some (r, w')"
  then show ?thesis using ctx_free_ok [OF assms(1)] by (metis option.inject prod.inject)
next
  fix i c
  assume a: "ext' = ext(c := Suc (ext c))" "lima_ctx_get i w = Some (Some c, w')"
  then have "map_of (cw_handles w) i = Some c"
    by (auto simp: lima_ctx_get_def bind_eq_Some_conv split: option.splits)
  then show ?thesis using a ctx_get_ok [OF assms(1)] by (metis Suc_eq_plus1 option.inject prod.inject)
next
  fix c
  assume "ext' = ext(c := ext c - Suc 0)" "ext c > 0" "lima_ctx_put c w = Some w'"
  then show ?thesis using ctx_put_inv [OF assms(1)] by simp
qed

lemma ctx_steps_inv:
  assumes "ctx_step\<^sup>*\<^sup>* p q" and "ctx_inv (fst p) (snd p)"
  shows "ctx_inv (fst q) (snd q)"
  using assms
proof (induction rule: rtranclp_induct)
  case (step y z)
  then show ?case using ctx_step_inv [of "fst y" "snd y" "fst z" "snd z"] by simp
qed simp

lemma ctx_init_inv: "no_contexts w \<Longrightarrow> ctx_inv (\<lambda>_. 0) (lima_ctx_mgr_init w)"
  by (auto simp: no_contexts_def lima_ctx_mgr_init_def ctx_inv_def ctx_ok_def handle_refs_def)

text \<open>
  C21: the contexts of a file, whatever ioctls create, look up, release and free them in whatever
  order. A context that a handle names or that an ioctl holds is alive with both its
  scheduler entities; no operation touches a freed context; and when the file is closed with no ioctl in progress,
  every context is freed and every entity destroyed.
\<close>

theorem lima_ctx_lifecycle:
  assumes "no_contexts w0" and "ctx_step\<^sup>*\<^sup>* (\<lambda>_. 0, lima_ctx_mgr_init w0) (ext, w)"
  shows "(\<forall>i c. map_of (cw_handles w) i = Some c \<or> ext c > 0 \<longrightarrow>
      (\<exists>x. cw_ctx w c = Some x) \<and> (\<forall>p. cw_entities w c p) \<and> lima_ctx_put c w \<noteq> None) \<and>
    (\<forall>i. lima_ctx_get i w \<noteq> None \<and> lima_ctx_free i w \<noteq> None) \<and>
    (ext = (\<lambda>_. 0) \<longrightarrow> (\<exists>w'. lima_ctx_mgr_fini w = Some w' \<and> no_contexts w' \<and> cw_handles w' = []))"
proof -
  have inv: "ctx_inv ext w" using ctx_steps_inv [OF assms(2)] ctx_init_inv [OF assms(1)] by simp
  then have ok: "ctx_ok (\<lambda>c. ext c + handle_refs (cw_handles w) c) w" by (simp add: ctx_inv_def)
  have live: "(\<exists>x. cw_ctx w c = Some x) \<and> (\<forall>p. cw_entities w c p) \<and> lima_ctx_put c w \<noteq> None"
    if "map_of (cw_handles w) i = Some c \<or> ext c > 0" for i c
  proof -
    have pos: "ext c + handle_refs (cw_handles w) c > 0" using that handle_refs_pos by fastforce
    obtain x where x: "cw_ctx w c = Some x" using ctx_ok_present [OF ok pos] by blast
    then show ?thesis using ctx_ok_Some [OF ok x] by (simp add: lima_ctx_put_def)
  qed
  have g: "lima_ctx_get i w \<noteq> None" for i
  proof (cases "map_of (cw_handles w) i")
    case (Some c)
    show ?thesis by (rule ctx_get_ok [OF inv Some]) simp
  qed (simp add: lima_ctx_get_def)
  have f: "lima_ctx_free i w \<noteq> None" for i using ctx_free_ok [OF inv, where i = i] by blast
  have e: "\<exists>w'. lima_ctx_mgr_fini w = Some w' \<and> no_contexts w' \<and> cw_handles w' = []" if "ext = (\<lambda>_. 0)"
  proof -
    have "ctx_ok (\<lambda>c. (\<lambda>_. 0) c + handle_refs (cw_handles w) c) w" using ok that by simp
    from ctx_put_all_ok [OF this] obtain w1 where w1: "ctx_put_all (cw_handles w) w = Some w1" "ctx_ok (\<lambda>_. 0) w1"
      by blast
    have n: "cw_ctx w1 c = None" for c using ctx_ok_Some [OF w1(2), of c] by (cases "cw_ctx w1 c") auto
    moreover have "\<not> cw_entities w1 c p" for c p using ctx_ok_None [OF w1(2) n] by simp
    ultimately have "no_contexts (w1\<lparr>cw_handles := []\<rparr>)" by (simp add: no_contexts_def)
    then show ?thesis using w1(1) by (simp add: lima_ctx_mgr_fini_def)
  qed
  show ?thesis using live g f e by blast
qed

text \<open>
  C22: the creation of a context that fails, at whichever step, leaves no trace: the entities initialised so
  far are destroyed, the memory is freed and no handle is left.
\<close>

theorem lima_ctx_create_failure_unwinds:
  assumes "no_contexts w0" and "ctx_step\<^sup>*\<^sup>* (\<lambda>_. 0, lima_ctx_mgr_init w0) (ext, w)"
    and "\<forall>c. ce_kzalloc env = Some c \<longrightarrow> cw_ctx w c = None"
    and "lima_ctx_create env w = (Inl e, w')"
  shows "w' = w"
  by (rule ctx_create_failed [OF _ assms(3,4)])
    (use ctx_steps_inv [OF assms(2)] ctx_init_inv [OF assms(1)] in simp)

definition demo_ctx_world :: ctx_world where
  "demo_ctx_world = \<lparr>cw_ctx = (\<lambda>_. None), cw_entities = (\<lambda>_ _. False), cw_handles = []\<rparr>"

definition demo_ctx_env :: ctx_env where
  "demo_ctx_env = \<lparr>ce_kzalloc = Some 7, ce_entity_init = (\<lambda>_. OK), ce_xa_alloc = Inr 0, ce_pid = 42\<rparr>"

lemma demo_no_contexts: "no_contexts demo_ctx_world"
  by (simp add: no_contexts_def demo_ctx_world_def)

theorem lima_ctx_lifecycle_witness:
  "\<exists>w w'. lima_ctx_create demo_ctx_env (lima_ctx_mgr_init demo_ctx_world) = (Inr 0, w) \<and> cw_ctx w 7 \<noteq> None \<and>
     lima_ctx_mgr_fini w = Some w' \<and> no_contexts w'"
proof -
  let ?w0 = "lima_ctx_mgr_init demo_ctx_world"
  obtain w where c: "lima_ctx_create demo_ctx_env ?w0 = (Inr 0, w)" and h: "map_of (cw_handles w) 0 = Some 7"
    by (simp add: lima_ctx_create_def demo_ctx_env_def lima_pipes_def lima_sched_context_init_def Let_def
        demo_ctx_world_def lima_ctx_mgr_init_def)
  have "ctx_step (\<lambda>_. 0, ?w0) (\<lambda>_. 0, w)"
    by (rule ctx_step.create [OF _ _ c]) (simp_all add: demo_ctx_world_def lima_ctx_mgr_init_def)
  then have s: "ctx_step\<^sup>*\<^sup>* (\<lambda>_. 0, ?w0) (\<lambda>_. 0, w)" by (rule r_into_rtranclp)
  show ?thesis using lima_ctx_lifecycle [OF demo_no_contexts s] c h by blast
qed

theorem lima_ctx_create_failure_unwinds_witness:
  "lima_ctx_create (demo_ctx_env\<lparr>ce_xa_alloc := Inl EBUSY\<rparr>) (lima_ctx_mgr_init demo_ctx_world) =
     (Inl EBUSY, lima_ctx_mgr_init demo_ctx_world)"
proof -
  let ?env = "demo_ctx_env\<lparr>ce_xa_alloc := Inl EBUSY\<rparr>"
  obtain w where c: "lima_ctx_create ?env (lima_ctx_mgr_init demo_ctx_world) = (Inl EBUSY, w)"
    by (simp add: lima_ctx_create_def demo_ctx_env_def lima_pipes_def lima_sched_context_init_def Let_def)
  have "w = lima_ctx_mgr_init demo_ctx_world"
    by (rule lima_ctx_create_failure_unwinds [OF demo_no_contexts rtranclp.rtrancl_refl _ c])
      (simp add: demo_ctx_world_def lima_ctx_mgr_init_def)
  then show ?thesis using c by simp
qed

end
