(* ===== verification/Lima_Ioctl.thy ===== *)
theory Lima_Ioctl
  imports Lima_Submit_Spec Lima_Ctx
begin

text \<open>
  The ioctls of the driver and the life of an open file (\<open>lima_drv.c\<close>): the checks each handler makes on
  its arguments before it calls the component that does the work, and the submission, which owns the
  kernel copy of the user's data and the task until the scheduler has it.
\<close>

section \<open>Parameters\<close>

definition DRM_LIMA_PARAM_GPU_ID :: u32 where "DRM_LIMA_PARAM_GPU_ID = 0"
definition DRM_LIMA_PARAM_NUM_PP :: u32 where "DRM_LIMA_PARAM_NUM_PP = 1"
definition DRM_LIMA_PARAM_GP_VERSION :: u32 where "DRM_LIMA_PARAM_GP_VERSION = 2"
definition DRM_LIMA_PARAM_PP_VERSION :: u32 where "DRM_LIMA_PARAM_PP_VERSION = 3"

definition DRM_LIMA_PARAM_GPU_ID_MALI400 :: u64 where "DRM_LIMA_PARAM_GPU_ID_MALI400 = 1"
definition DRM_LIMA_PARAM_GPU_ID_MALI450 :: u64 where "DRM_LIMA_PARAM_GPU_ID_MALI450 = 2"

lemmas drm_params = DRM_LIMA_PARAM_GPU_ID_def DRM_LIMA_PARAM_NUM_PP_def DRM_LIMA_PARAM_GP_VERSION_def
  DRM_LIMA_PARAM_PP_VERSION_def

text \<open>The fields of \<open>lima_device\<close> it reads: the id, the processors of the pixel pipe, the two versions.\<close>

definition lima_ioctl_get_param ::
  "lima_gpu_id \<Rightarrow> nat \<Rightarrow> u32 \<Rightarrow> u32 \<Rightarrow> u32 \<Rightarrow> u32 \<Rightarrow> errno + u64" where
  "lima_ioctl_get_param gpu num_processor gp_version pp_version param pad =
     (if pad \<noteq> 0 then Inl EINVAL
      else if param = DRM_LIMA_PARAM_GPU_ID then
        Inr (case gpu of lima_gpu_mali400 \<Rightarrow> DRM_LIMA_PARAM_GPU_ID_MALI400 | lima_gpu_mali450 \<Rightarrow> DRM_LIMA_PARAM_GPU_ID_MALI450)
      else if param = DRM_LIMA_PARAM_NUM_PP then Inr (of_nat num_processor)
      else if param = DRM_LIMA_PARAM_GP_VERSION then Inr (ucast gp_version)
      else if param = DRM_LIMA_PARAM_PP_VERSION then Inr (ucast pp_version)
      else Inl EINVAL)"

section \<open>Buffer objects\<close>

text \<open>The arguments are \<open>size\<close>, \<open>flags\<close> and \<open>pad\<close> of \<open>drm_lima_gem_create\<close>.\<close>

definition lima_ioctl_gem_create ::
  "shmem_env \<Rightarrow> heap_env \<Rightarrow> u32 \<Rightarrow> u32 \<Rightarrow> u32 \<Rightarrow> vmsys \<Rightarrow> ((errno + u32) \<times> lima_bo option \<times> vmsys) option" where
  "lima_ioctl_gem_create env henv sz flags pad s =
     (if pad \<noteq> 0 then Some (Inl EINVAL, None, s)
      else if flags AND NOT LIMA_BO_FLAG_HEAP \<noteq> 0 then Some (Inl EINVAL, None, s)
      else if sz = 0 then Some (Inl EINVAL, None, s)
      else lima_gem_create_handle env henv sz flags s)"

text \<open>\<open>lookup\<close> is the handle table of the file, \<open>offset\<close> the mmap offset of an object.\<close>

definition lima_ioctl_gem_info ::
  "nat \<Rightarrow> (u32 \<Rightarrow> lima_bo option) \<Rightarrow> (u32 \<Rightarrow> u64) \<Rightarrow> u32 \<Rightarrow> (errno + (u32 \<times> u64)) option" where
  "lima_ioctl_gem_info v lookup offset handle = lima_gem_get_info v (lookup handle) (offset handle)"

definition lima_ioctl_gem_wait :: "(bool \<Rightarrow> int \<Rightarrow> rc) \<Rightarrow> u32 \<Rightarrow> int \<Rightarrow> rc" where
  "lima_ioctl_gem_wait resv_wait opc timeout =
     (if opc AND NOT (LIMA_GEM_WAIT_READ OR LIMA_GEM_WAIT_WRITE) \<noteq> 0 then E EINVAL
      else lima_gem_wait resv_wait opc timeout)"

section \<open>Contexts\<close>

definition lima_ioctl_ctx_create :: "ctx_env \<Rightarrow> u32 \<Rightarrow> ctx_world \<Rightarrow> (errno + u32) \<times> ctx_world" where
  "lima_ioctl_ctx_create env pad w = (if pad \<noteq> 0 then (Inl EINVAL, w) else lima_ctx_create env w)"

definition lima_ioctl_ctx_free :: "u32 \<Rightarrow> u32 \<Rightarrow> ctx_world \<Rightarrow> (rc \<times> ctx_world) option" where
  "lima_ioctl_ctx_free i pad w = (if pad \<noteq> 0 then Some (E EINVAL, w) else lima_ctx_free i w)"

section \<open>Submission\<close>

record drm_lima_gem_submit =
  gs_ctx :: u32
  gs_pipe :: u32
  gs_nr_bos :: u32
  gs_frame_size :: u32
  gs_flags :: u32
  gs_out_sync :: u32
  gs_in_sync :: "u32 list"

text \<open>
  What the handler uses of a pipe: \<open>frame_size\<close> and \<open>task_validate\<close>. The state is that of the pipe
  \<open>args->pipe\<close> names, with the contexts of the file; \<open>io_bufs\<close>: live blocks of \<open>kvcalloc\<close>.
\<close>

record submit_pipe =
  pi_frame_size :: u32
  pi_validate :: "lima_sched_task \<Rightarrow> rc"

record 'b ioctl_state =
  io_submit :: "'b submit_state"
  io_ctx :: ctx_world
  io_bufs :: nat

text \<open>
  \<open>ie_bos\<close> and \<open>ie_frame\<close> are the user's memory, handle and flags of each object and the words of the frame;
  \<open>ie_task\<close> is the task the slab gives, and \<open>ie_submit\<close> what the submission meets.
\<close>

record ioctl_env =
  ie_kvcalloc :: bool
  ie_bos :: "nat \<Rightarrow> u32 \<times> u32"
  ie_bos_fault :: bool
  ie_task :: "nat option"
  ie_frame :: "nat \<Rightarrow> u32"
  ie_frame_fault :: bool
  ie_submit :: submit_env

definition zero_task :: lima_sched_task where
  "zero_task = \<lparr>t_vm = 0, t_frame = [], t_bos = [], t_recoverable = False, t_heap = None, t_fence = None\<rparr>"

definition set_task :: "nat \<Rightarrow> lima_sched_task option \<Rightarrow> 'b ioctl_state \<Rightarrow> 'b ioctl_state" where
  "set_task i t s = s\<lparr>io_submit := (io_submit s)\<lparr>ss_pipe := (ss_pipe (io_submit s))
     \<lparr>sp_tasks := (sp_tasks (ss_pipe (io_submit s)))(i := t)\<rparr>\<rparr>\<rparr>"

text \<open>The labels \<open>out0\<close> and \<open>out1\<close>.\<close>

definition ioctl_out0 :: "rc \<Rightarrow> 'b ioctl_state \<Rightarrow> (rc \<times> 'b ioctl_state) option" where
  "ioctl_out0 r s = Some (r, s\<lparr>io_bufs := io_bufs s - 1\<rparr>)"

definition ioctl_out1 :: "nat \<Rightarrow> rc \<Rightarrow> 'b ioctl_state \<Rightarrow> (rc \<times> 'b ioctl_state) option" where
  "ioctl_out1 i r s = ioctl_out0 r (if r \<noteq> OK then set_task i None s else s)"

definition lima_pipe_num :: u32 where "lima_pipe_num = 2"

definition pipe_of :: "u32 \<Rightarrow> lima_pipe_id" where
  "pipe_of n = (if n = 0 then lima_pipe_gp else lima_pipe_pp)"

text \<open>The kernel's copies.\<close>

definition copied_bos :: "ioctl_env \<Rightarrow> drm_lima_gem_submit \<Rightarrow> (u32 \<times> u32) list" where
  "copied_bos env args = map (ie_bos env) [0..<unat (gs_nr_bos args)]"

definition copied_task :: "ioctl_env \<Rightarrow> drm_lima_gem_submit \<Rightarrow> lima_sched_task" where
  "copied_task env args = zero_task\<lparr>t_frame := map (ie_frame env) [0..<unat (gs_frame_size args) div 4]\<rparr>"

definition lima_ioctl_gem_submit ::
  "ioctl_env \<Rightarrow> (lima_pipe_id \<Rightarrow> submit_pipe) \<Rightarrow> nat \<Rightarrow> drm_lima_gem_submit \<Rightarrow> 'b ioctl_state \<Rightarrow>
   (rc \<times> 'b ioctl_state) option" where
  "lima_ioctl_gem_submit env pipes v args s =
     (if gs_pipe args \<ge> lima_pipe_num \<or> gs_nr_bos args = 0 then Some (E EINVAL, s)
      else if gs_flags args AND NOT LIMA_SUBMIT_FLAG_EXPLICIT_FENCE \<noteq> 0 then Some (E EINVAL, s)
      else
      let pipe = pipes (pipe_of (gs_pipe args)) in
      if gs_frame_size args \<noteq> pi_frame_size pipe then Some (E EINVAL, s)
      else if \<not> ie_kvcalloc env then Some (E ENOMEM, s)
      else
      let s0 = s\<lparr>io_bufs := io_bufs s + 1\<rparr> in
      if ie_bos_fault env then ioctl_out0 (E EFAULT) s0
      else case ie_task env of None \<Rightarrow> ioctl_out0 (E ENOMEM) s0 | Some i \<Rightarrow>
      let s1 = set_task i (Some zero_task) s0 in
      if ie_frame_fault env then ioctl_out1 i (E EFAULT) s1
      else
      let s2 = set_task i (Some (copied_task env args)) s1 in
      case pi_validate pipe (copied_task env args) of E e \<Rightarrow> ioctl_out1 i (E e) s2 | OK \<Rightarrow> do {
        (c, w1) \<leftarrow> lima_ctx_get (gs_ctx args) (io_ctx s2);
        (case c of None \<Rightarrow> ioctl_out1 i (E ENOENT) (s2\<lparr>io_ctx := w1\<rparr>) | Some c \<Rightarrow> do {
          let submit = \<lparr>sm_flags = gs_flags args, sm_bos = copied_bos env args, sm_in_sync = gs_in_sync args,
            sm_out_sync = gs_out_sync args, sm_task = i\<rparr>;
          (r, sub) \<leftarrow> lima_gem_submit (ie_submit env) v submit (io_submit s2);
          w2 \<leftarrow> lima_ctx_put c w1;
          ioctl_out1 i r (s2\<lparr>io_submit := sub, io_ctx := w2\<rparr>) }) })"

section \<open>Open and close\<close>

text \<open>
  An open file: its address space and its contexts. The result of \<open>open\<close> is the address space and the
  (empty) table of contexts; \<open>postclose\<close> drains the contexts and drops the reference to the address space.
\<close>

definition lima_drm_driver_open :: "bool \<Rightarrow> vm_create_env \<Rightarrow> ctx_world \<Rightarrow> errno + (lima_vm \<times> ctx_world)" where
  "lima_drm_driver_open kzalloc env w =
     (if \<not> kzalloc then Inl ENOMEM
      else case lima_vm_create env of
        None \<Rightarrow> Inl ENOMEM
      | Some vm \<Rightarrow> Inr (vm, lima_ctx_mgr_init w))"

definition lima_drm_driver_postclose :: "lima_vm \<Rightarrow> ctx_world \<Rightarrow> ((lima_vm option + u64 list) \<times> ctx_world) option" where
  "lima_drm_driver_postclose vm w = do { w1 \<leftarrow> lima_ctx_mgr_fini w; Some (lima_vm_put (Some vm), w1) }"

end
