(* ===== verification/Lima_Ioctl_Spec.thy ===== *)
theory Lima_Ioctl_Spec
  imports Lima_Ioctl Lima_Pipes
begin

text \<open>
  What the ioctls guarantee: parameters and flags that are not known are refused before anything is touched, a
  submission that fails changes nothing, one that succeeds has queued exactly a validated task.
\<close>

section \<open>Helpers\<close>

text \<open>A reference taken and given back: a context that is named outlives an ioctl on it.\<close>

lemma ctx_get_put:
  assumes "ctx_inv ext w" and "lima_ctx_get i w = Some (Some c, w1)"
  shows "lima_ctx_put c w1 = Some w"
proof -
  obtain x where x: "map_of (cw_handles w) i = Some c" "cw_ctx w c = Some x"
    "w1 = w\<lparr>cw_ctx := (cw_ctx w)(c \<mapsto> x\<lparr>cx_refcnt := cx_refcnt x + 1\<rparr>)\<rparr>"
    using assms(2) by (auto simp: lima_ctx_get_def bind_eq_Some_conv split: option.splits)
  have "cx_refcnt x > 0" using assms(1) x(2) ctx_ok_Some by (fastforce simp: ctx_inv_def)
  then show ?thesis using x by (simp add: lima_ctx_put_def fun_upd_idem)
qed

lemma ctx_get_total:
  assumes "ctx_inv ext w"
  obtains "lima_ctx_get i w = Some (None, w)" | c w1 where "lima_ctx_get i w = Some (Some c, w1)" "cw_handles w1 = cw_handles w"
proof (cases "map_of (cw_handles w) i")
  case None
  then show thesis using that(1) by (simp add: lima_ctx_get_def)
next
  case (Some c)
  then obtain w1 where "lima_ctx_get i w = Some (Some c, w1)" by (rule ctx_get_ok [OF assms])
  moreover from this have "cw_handles w1 = cw_handles w"
    by (auto simp: lima_ctx_get_def bind_eq_Some_conv split: option.splits)
  ultimately show thesis by (rule that(2))
qed

lemma set_task_twice [simp]: "set_task i t (set_task i t' s) = set_task i t s"
  by (simp add: set_task_def)

lemma set_task_fields [simp]: "io_ctx (set_task i t s) = io_ctx s" "io_bufs (set_task i t s) = io_bufs s"
  "sp_tasks (ss_pipe (io_submit (set_task i t s))) = (sp_tasks (ss_pipe (io_submit s)))(i := t)"
  by (simp_all add: set_task_def)

lemma set_task_none: "sp_tasks (ss_pipe (io_submit s)) i = None \<Longrightarrow> set_task i None s = s"
  by (simp add: set_task_def fun_upd_idem)

lemma set_task_bufs: "(set_task i t s)\<lparr>io_bufs := n\<rparr> = set_task i t (s\<lparr>io_bufs := n\<rparr>)"
  by (simp add: set_task_def)

text \<open>Every error exit behind the allocation of the task restores the state.\<close>

lemma ioctl_out1_error:
  assumes "sp_tasks (ss_pipe (io_submit s)) i = None" "r \<noteq> OK"
  shows "ioctl_out1 i r (set_task i t (s\<lparr>io_bufs := Suc (io_bufs s)\<rparr>)) = Some (r, s)"
  using assms by (simp add: ioctl_out1_def ioctl_out0_def set_task_bufs set_task_none)

text \<open>
  What holds when a user calls: the objects his handles name and his address space live, nothing of another
  call is in progress on the file, and the slab gives a task that is not in use.
\<close>

definition ioctl_ready :: "ioctl_env \<Rightarrow> nat \<Rightarrow> nat \<Rightarrow> 'b ioctl_state \<Rightarrow> bool" where
  "ioctl_ready env v n s = (let sub = io_submit s in
     \<not> ss_locked sub \<and> ss_syncobj sub = 0 \<and> objs_ok (ie_submit env) v n sub \<and>
     (case sp_vms (ss_pipe sub) v of None \<Rightarrow> False | Some vm \<Rightarrow> vm_refcount vm > 0) \<and>
     (\<forall>i. ie_task env = Some i \<longrightarrow> sp_tasks (ss_pipe sub) i = None) \<and> (\<exists>ext. ctx_inv ext (io_ctx s)))"

section \<open>One submission, step by step\<close>

text \<open>What \<open>lima_ioctl_gem_submit\<close> hands to \<open>lima_gem_submit\<close>, and the state with the task of the call.\<close>

definition submit_args :: "ioctl_env \<Rightarrow> drm_lima_gem_submit \<Rightarrow> nat \<Rightarrow> lima_submit" where
  "submit_args env args i = \<lparr>sm_flags = gs_flags args, sm_bos = copied_bos env args, sm_in_sync = gs_in_sync args,
     sm_out_sync = gs_out_sync args, sm_task = i\<rparr>"

definition with_call :: "ioctl_env \<Rightarrow> drm_lima_gem_submit \<Rightarrow> nat \<Rightarrow> 'b ioctl_state \<Rightarrow> 'b ioctl_state" where
  "with_call env args i s = set_task i (Some (copied_task env args)) (s\<lparr>io_bufs := Suc (io_bufs s)\<rparr>)"

definition refused :: "ioctl_env \<Rightarrow> (lima_pipe_id \<Rightarrow> submit_pipe) \<Rightarrow> drm_lima_gem_submit \<Rightarrow> bool" where
  "refused env pipes args \<longleftrightarrow> gs_pipe args \<ge> lima_pipe_num \<or> gs_nr_bos args = 0 \<or> gs_flags args AND NOT LIMA_SUBMIT_FLAG_EXPLICIT_FENCE \<noteq> 0 \<or>
     gs_frame_size args \<noteq> pi_frame_size (pipes (pipe_of (gs_pipe args))) \<or> \<not> ie_kvcalloc env \<or> ie_bos_fault env \<or> ie_task env = None"

text \<open>Past the first checks: the frame is copied and validated, the context looked up, the task submitted.\<close>

lemma submit_checked:
  assumes ok: "\<not> refused env pipes args" and i: "ie_task env = Some i" and new: "sp_tasks (ss_pipe (io_submit s)) i = None"
  shows "lima_ioctl_gem_submit env pipes v args s =
     (if ie_frame_fault env then Some (E EFAULT, s)
      else case pi_validate (pipes (pipe_of (gs_pipe args))) (copied_task env args) of E e \<Rightarrow> Some (E e, s) | OK \<Rightarrow> do {
        (c, w1) \<leftarrow> lima_ctx_get (gs_ctx args) (io_ctx s);
        (case c of None \<Rightarrow> ioctl_out1 i (E ENOENT) ((with_call env args i s)\<lparr>io_ctx := w1\<rparr>) | Some c \<Rightarrow> do {
          (r, sub) \<leftarrow> lima_gem_submit (ie_submit env) v (submit_args env args i) (io_submit (with_call env args i s));
          w2 \<leftarrow> lima_ctx_put c w1;
          ioctl_out1 i r ((with_call env args i s)\<lparr>io_submit := sub, io_ctx := w2\<rparr>) }) })"
  using ok unfolding lima_ioctl_gem_submit_def Let_def i option.case set_task_twice Suc_eq_plus1 [symmetric] with_call_def submit_args_def refused_def
  by (simp add: i ioctl_out1_error [OF new] split: rc.split)

text \<open>The submission itself and the exit behind it.\<close>

lemma submit_exit:
  assumes ready: "ioctl_ready env v (unat (gs_nr_bos args)) s" and job: "se_job_init (ie_submit env) = OK" and i: "ie_task env = Some i"
  obtains r sub where "lima_gem_submit (ie_submit env) v (submit_args env args i) (io_submit (with_call env args i s)) = Some (r, sub)"
    "ioctl_out1 i r ((with_call env args i s)\<lparr>io_submit := sub, io_ctx := io_ctx s\<rparr>) = Some (r, if r = OK then s\<lparr>io_submit := sub\<rparr> else s)"
    "r = OK \<Longrightarrow> ss_queue sub = i # ss_queue (io_submit s) \<and> \<not> ss_locked sub \<and> ss_syncobj sub = 0 \<and>
      (\<exists>bos. sp_tasks (ss_pipe sub) i = Some ((copied_task env args)\<lparr>t_bos := bos, t_vm := v\<rparr>))"
proof -
  let ?s2 = "with_call env args i s" and ?sm = "submit_args env args i"
  have new: "sp_tasks (ss_pipe (io_submit s)) i = None" using ready i by (simp add: ioctl_ready_def Let_def)
  have "submit_ready (ie_submit env) v ?sm (io_submit ?s2)"
    using ready by (simp add: submit_ready_def ioctl_ready_def Let_def copied_bos_def objs_ok_def set_task_def with_call_def submit_args_def)
  from submit_exits [OF this job] obtain r sub where sub: "lima_gem_submit (ie_submit env) v ?sm (io_submit ?s2) = Some (r, sub)" and
    res: "if r = OK then submit_done v ?sm (io_submit ?s2) sub else \<exists>t. sub = with_task (sm_task ?sm) t (io_submit ?s2)" by blast
  show thesis
  proof (cases "r = OK")
    case True
    then obtain bos t vm where fin: "sub = held v (count_list bos) (count_list bos) (job_queued ?sm t bos v vm (io_submit ?s2))"
      and t: "sp_tasks (ss_pipe (io_submit ?s2)) i = Some t" using res by (auto simp: submit_done_def submit_args_def)
    have tt: "t = copied_task env args" using t by (simp add: with_call_def)
    have "ioctl_out1 i r (?s2\<lparr>io_submit := sub, io_ctx := io_ctx s\<rparr>) = Some (r, s\<lparr>io_submit := sub\<rparr>)"
      using True by (simp add: ioctl_out1_def ioctl_out0_def set_task_def with_call_def)
    moreover have "ss_queue sub = i # ss_queue (io_submit s)" "\<not> ss_locked sub" "ss_syncobj sub = 0"
      "sp_tasks (ss_pipe sub) i = Some ((copied_task env args)\<lparr>t_bos := bos, t_vm := v\<rparr>)"
      using ready unfolding fin tt
      by (simp_all add: held_def job_queued_def task_taken_def set_task_def ioctl_ready_def Let_def with_call_def submit_args_def)
    ultimately show thesis using sub True by (intro that [of r sub]) auto
  next
    case False
    then obtain t where w: "sub = with_task i t (io_submit ?s2)" using res by (auto simp: submit_args_def)
    have "?s2\<lparr>io_submit := sub, io_ctx := io_ctx s\<rparr> = set_task i (Some t) (s\<lparr>io_bufs := Suc (io_bufs s)\<rparr>)"
      by (simp add: w with_task_def set_task_def with_call_def)
    then show thesis using sub False by (intro that [of r sub]) (simp_all add: ioctl_out1_error [OF new])
  qed
qed

section \<open>Properties\<close>

text \<open>
  C32: A submission always returns. One that is refused or fails, at whichever check, copy, allocation or step
  of the submission, leaves the state as it was: no buffer, no task, no reference to the context, no reference to
  an object, nothing queued. One that succeeds has put at the head of the queue the task with the frame of the user,
  which its pipe has validated, for the address space of the file, and holds no buffer and no context.
  Assumed: \<open>drm_sched_job_init\<close> succeeds.
\<close>

theorem lima_ioctl_gem_submit_all_or_nothing:
  assumes ready: "ioctl_ready env v (unat (gs_nr_bos args)) s" and job: "se_job_init (ie_submit env) = OK"
  shows "\<exists>r s'. lima_ioctl_gem_submit env pipes v args s = Some (r, s') \<and>
    (if r = OK then
       \<exists>i sub t. ie_task env = Some i \<and> s' = s\<lparr>io_submit := sub\<rparr> \<and> ss_queue sub = i # ss_queue (io_submit s) \<and>
         \<not> ss_locked sub \<and> ss_syncobj sub = 0 \<and> sp_tasks (ss_pipe sub) i = Some t \<and> t_vm t = v \<and>
         t_frame t = t_frame (copied_task env args) \<and> pi_validate (pipes (pipe_of (gs_pipe args))) (copied_task env args) = OK \<and>
         gs_frame_size args = pi_frame_size (pipes (pipe_of (gs_pipe args))) \<and> gs_pipe args < lima_pipe_num
     else s' = s)"
proof (cases "refused env pipes args")
  case True
  then show ?thesis by (auto simp: refused_def lima_ioctl_gem_submit_def Let_def ioctl_out0_def)
next
  case False
  then obtain i where i: "ie_task env = Some i" by (auto simp: refused_def)
  have new: "sp_tasks (ss_pipe (io_submit s)) i = None" using ready i by (simp add: ioctl_ready_def Let_def)
  obtain ext where inv: "ctx_inv ext (io_ctx s)" using ready by (auto simp: ioctl_ready_def Let_def)
  note eq = submit_checked [OF False i new, of v]
  show ?thesis
  proof (cases "ie_frame_fault env \<or> pi_validate (pipes (pipe_of (gs_pipe args))) (copied_task env args) \<noteq> OK")
    case True
    then show ?thesis unfolding eq by (auto split: rc.splits)
  next
    case ok: False
    show ?thesis
    proof (rule ctx_get_total [OF inv, of "gs_ctx args"])
      assume none: "lima_ctx_get (gs_ctx args) (io_ctx s) = Some (None, io_ctx s)"
      have "(with_call env args i s)\<lparr>io_ctx := io_ctx s\<rparr> = set_task i (Some (copied_task env args)) (s\<lparr>io_bufs := Suc (io_bufs s)\<rparr>)"
        by (simp add: set_task_def with_call_def)
      then show ?thesis using ok unfolding eq by (simp add: none ioctl_out1_error [OF new])
    next
      fix c w1
      assume got: "lima_ctx_get (gs_ctx args) (io_ctx s) = Some (Some c, w1)"
      note put = ctx_get_put [OF inv got]
      show ?thesis
      proof (rule submit_exit [OF ready job i])
        fix r sub
        assume sub: "lima_gem_submit (ie_submit env) v (submit_args env args i) (io_submit (with_call env args i s)) = Some (r, sub)"
          "ioctl_out1 i r ((with_call env args i s)\<lparr>io_submit := sub, io_ctx := io_ctx s\<rparr>) = Some (r, if r = OK then s\<lparr>io_submit := sub\<rparr> else s)"
          and queued: "r = OK \<Longrightarrow> ss_queue sub = i # ss_queue (io_submit s) \<and> \<not> ss_locked sub \<and> ss_syncobj sub = 0 \<and>
            (\<exists>bos. sp_tasks (ss_pipe sub) i = Some ((copied_task env args)\<lparr>t_bos := bos, t_vm := v\<rparr>))"
        have "lima_ioctl_gem_submit env pipes v args s = Some (r, if r = OK then s\<lparr>io_submit := sub\<rparr> else s)"
          using ok by (simp add: eq got put sub)
        then show ?thesis using False ok i queued by (cases "r = OK") (auto simp: refused_def not_le intro!: exI [of _ sub])
      qed
    qed
  qed
qed

section \<open>A concrete submission\<close>

text \<open>Two uses of one object, submitted to the geometry pipe in context \<open>ctx\<close>; the file has context 0.\<close>

definition demo_args :: "u32 \<Rightarrow> drm_lima_gem_submit" where
  "demo_args ctx = \<lparr>gs_ctx = ctx, gs_pipe = 0, gs_nr_bos = 2, gs_frame_size = 24, gs_flags = 0, gs_out_sync = 0, gs_in_sync = [0, 0]\<rparr>"

definition demo_submit_pipes :: "lima_pipe_id \<Rightarrow> submit_pipe" where
  "demo_submit_pipes p = \<lparr>pi_frame_size = of_nat (4 * LIMA_GP_FRAME_REG_NUM), pi_validate = lima_gp_task_validate\<rparr>"

definition demo_ioctl_env :: ioctl_env where
  "demo_ioctl_env = \<lparr>ie_kvcalloc = True, ie_bos = (\<lambda>k. (1, if k = 0 then LIMA_SUBMIT_BO_WRITE else LIMA_SUBMIT_BO_READ)),
     ie_bos_fault = False, ie_task = Some 5, ie_frame = of_nat, ie_frame_fault = False, ie_submit = demo_submit_env OK\<rparr>"

definition demo_ioctl_state :: "unit ioctl_state" where
  "demo_ioctl_state = \<lparr>io_submit = demo_submit_state (demo_sched [] ()),
     io_ctx = \<lparr>cw_ctx = [7 \<mapsto> \<lparr>cx_refcnt = 1, cx_pid = 42\<rparr>], cw_entities = (\<lambda>c _. c = 7), cw_handles = [(0, 7)]\<rparr>, io_bufs = 0\<rparr>"

lemma demo_ioctl_ready: "ioctl_ready demo_ioctl_env 3 (unat (gs_nr_bos (demo_args c))) demo_ioctl_state"
proof -
  have "ctx_inv (\<lambda>_. 0) (io_ctx demo_ioctl_state)"
    by (simp add: ctx_inv_def ctx_ok_def demo_ioctl_state_def handle_refs_def)
  moreover have "objs_ok (demo_submit_env OK) 3 2 (io_submit demo_ioctl_state)"
    using demo_submit_ready [of OK "[]" "[]" "()"]
    by (simp add: submit_ready_def demo_submit_def demo_ioctl_state_def eval_nat_numeral)
  ultimately show ?thesis
    by (auto simp: ioctl_ready_def Let_def demo_ioctl_state_def demo_ioctl_env_def demo_args_def demo_submit_state_def demo_sched_def
        vm_blank_def)
qed

lemma demo_ioctl_results:
  "map_option fst (lima_ioctl_gem_submit demo_ioctl_env demo_submit_pipes 3 (demo_args 0) demo_ioctl_state) = Some OK"
  "map_option fst (lima_ioctl_gem_submit demo_ioctl_env demo_submit_pipes 3 (demo_args 9) demo_ioctl_state) = Some (E ENOENT)"
  by code_simp+

theorem lima_ioctl_gem_submit_all_or_nothing_witness:
  "(\<exists>s'. lima_ioctl_gem_submit demo_ioctl_env demo_submit_pipes 3 (demo_args 0) demo_ioctl_state = Some (OK, s') \<and> ss_queue (io_submit s') = [5]) \<and>
   lima_ioctl_gem_submit demo_ioctl_env demo_submit_pipes 3 (demo_args 9) demo_ioctl_state = Some (E ENOENT, demo_ioctl_state)"
proof -
  have job: "se_job_init (ie_submit demo_ioctl_env) = OK" by (simp add: demo_ioctl_env_def demo_submit_env_def)
  note all = lima_ioctl_gem_submit_all_or_nothing [where pipes = demo_submit_pipes, OF demo_ioctl_ready job]
  have q: "ss_queue (io_submit demo_ioctl_state) = []" "ie_task demo_ioctl_env = Some 5"
    by (simp_all add: demo_ioctl_state_def demo_submit_state_def demo_ioctl_env_def)
  have "\<exists>s'. lima_ioctl_gem_submit demo_ioctl_env demo_submit_pipes 3 (demo_args 0) demo_ioctl_state = Some (OK, s') \<and> ss_queue (io_submit s') = [5]"
    using all [of 0] demo_ioctl_results(1) q by auto
  moreover have "lima_ioctl_gem_submit demo_ioctl_env demo_submit_pipes 3 (demo_args 9) demo_ioctl_state = Some (E ENOENT, demo_ioctl_state)"
    using all [of 9] demo_ioctl_results(2) by auto
  ultimately show ?thesis by blast
qed

end
