(* ===== verification/Lima_Drv_Demo.thy ===== *)
theory Lima_Drv_Demo
  imports Lima_Drv_Spec Lima_Error Lima_Device_Demo Lima_Ioctl_Spec
begin

text \<open>Concrete instances of the properties of the driver: the demo device of the bridge, bound and unbound.\<close>

section \<open>Matching\<close>

definition demo_lima :: platform_driver where
  "demo_lima = lima_platform_driver (demo_probe None OK) (\<lambda>d w. Some w)"

definition demo_lima_on :: platform_world where
  "demo_lima_on = snd (the (lkpi_platform_bus_attach demo_bus_env 0 demo_lima demo_world))"

lemma demo_lima_attach: "lkpi_platform_bus_attach demo_bus_env 0 demo_lima demo_world = Some (OK, demo_lima_on)"
proof -
  have "map_option fst (lkpi_platform_bus_attach demo_bus_env 0 demo_lima demo_world) = Some OK" by code_simp
  then show ?thesis by (auto simp: demo_lima_on_def)
qed

theorem lima_attach_selects_gpu_witness:
  "\<exists>w. demo_probe None OK 0 w = Some (OK, demo_lima_on) \<and> gpu_id_of_data (of_device_get_match_data w (Some 0)) = lima_gpu_mali450"
proof -
  have "lkpi_platform_bus_probe demo_bus_env demo_lima = OK" by code_simp
  from lima_attach_selects_gpu [OF demo_lima_attach [unfolded demo_lima_def] this [unfolded demo_lima_def]]
  show ?thesis by (simp add: demo_bus_env_def)
qed

section \<open>Probe and remove\<close>

definition demo_unbound :: probe_world where
  "demo_unbound = \<lparr>pb_fence_slab = (False, 0), pb_dev = demo_device, pb_drm = 0, pb_pm = False, pb_registered = False, pb_oid = False\<rparr>"

definition demo_probe_env :: "bool \<Rightarrow> rc \<Rightarrow> probe_env" where
  "demo_probe_env mem reg = \<lparr>pe_slab = True, pe_kzalloc = True, pe_match = 0, pe_drm_alloc = OK, pe_device = demo_device_env mem,
     pe_register = reg, pe_oid = True\<rparr>"

lemma demo_unbound: "unbound demo_unbound"
  using demo_device_fresh by (simp add: unbound_def demo_unbound_def slab_ok_def)

lemma demo_probe_env_ok: "clock_advances (de_hw (pe_device (demo_probe_env m r)))"
  "lima_clk_stage (de_stage (pe_device (demo_probe_env m r))) = LIMA_CLK_STAGE_FULL"
  using demo_device_fresh(1,2) [of m] by (simp_all add: demo_probe_env_def)

lemma demo_probe_result:
  "\<exists>d. lima_device_init (demo_device_env True) demo_device = Some (OK, d) \<and>
     map_option fst (lima_pdev_probe (demo_probe_env True r) demo_unbound) =
       (case r of OK \<Rightarrow> Some OK | E e \<Rightarrow> map_option (\<lambda>_. E e) (lima_device_fini (demo_device_env True) d))"
proof -
  obtain d where d: "lima_device_init (demo_device_env True) demo_device = Some (OK, d)" using demo_brings_up by blast
  have same: "demo_device\<lparr>ld_dev := (ld_dev demo_device)\<lparr>d_id := gpu_id_of_data 0\<rparr>\<rparr> = demo_device"
    by (simp add: demo_device_def gpu_id_of_data_def lima_gpu_data_def)
  show ?thesis using d
    by (cases r) (auto simp: lima_pdev_probe_def demo_probe_env_def demo_unbound_def lima_sched_slab_init_def Let_def same
        lima_devfreq_init_def probe_err_out3_def probe_err_out2_def probe_err_out1_def probe_err_out0_def
        bind_Some_map_option option.map_comp comp_def)
qed



section \<open>Error state and reader\<close>

theorem lima_read_block_reads_slice_witness:
  "rd_dst (snd (lima_read_block [4, 5, 6] (snd (lima_read_block [1, 2, 3]
     \<lparr>rd_dst = [], rd_base = 0, rd_count = 3, rd_off = 1, rd_read = 0\<rparr>)))) = [2, 3, 4]"
  using lima_read_block_reads_slice [of "[[1, 2, 3]]" "[4, 5, 6]" 1 3, OF _ _ refl] by simp

text \<open>One saved job without objects, with a frame of 8 bytes and a name of 4.\<close>

theorem lima_error_state_consistent_witness:
  "\<exists>s. List.length (es_tasks s) = 1 \<and> dh_num_tasks (es_head s) = 1 \<and>
     lima_error_state_sysctl (\<lambda>q d. (OK, q @ d)) (\<lambda>_. [7]) False [] s = (OK, 7 # replicate 48 0, s)"
proof -
  let ?fresh = "\<lparr>es_head = \<lparr>dh_size = 0, dh_num_tasks = 0\<rparr>, es_tasks = []\<rparr>"
  let ?saved = "\<lparr>es_head = \<lparr>dh_size = 48, dh_num_tasks = 1\<rparr>, es_tasks = [replicate 48 0]\<rparr>"
  have size: "entry_size 8 4 [] = 48" by code_simp
  have build: "lima_sched_build_error_task_list demo_dump_env 1 8 4 0 [] (es_head ?fresh) =
      Some (True, 80, [(0, 32), (32, 12), (44, 8), (52, 8), (60, 8), (68, 4), (72, 12)], \<lparr>dh_size = 48, dh_num_tasks = 1\<rparr>)"
    by code_simp
  have "error_step 1 ?fresh \<lparr>es_head = \<lparr>dh_size = 48, dh_num_tasks = 1\<rparr>, es_tasks = replicate 48 0 # es_tasks ?fresh\<rparr>"
    by (rule error_step.save [OF build]) (simp add: size)
  then have "(error_step 1)\<^sup>*\<^sup>* ?fresh ?saved" by simp
  from lima_error_state_consistent [OF this, of "\<lambda>q d. (OK, q @ d)" "\<lambda>_. [7]"] show ?thesis
    by (intro exI [of _ ?saved]) simp
qed

end
