(* ===== verification/Lima_Bridge_Demo.thy ===== *)
theory Lima_Bridge_Demo
  imports Lima_Irq Lima_Drv_Demo
begin

text \<open>Concrete instances of the properties of the driver on the bridge: clock 1 and 2, line 3, one interrupt, named ''gp''.\<close>

definition demo_shims :: shim_env where
  "demo_shims = \<lparr>sh_stage = None, sh_pll = OK, sh_clk = (\<lambda>i. Inr (if i = ''bus'' then 1 else 2)), sh_action = (\<lambda>_. OK),
     sh_enable = (\<lambda>_. OK), sh_reset_alloc = True, sh_reset = Inr 3, sh_reset_action = OK, sh_deassert = (\<lambda>_ _. OK),
     sh_assert = (\<lambda>_ _. OK)\<rparr>"

definition no_clks :: lima_clks where "no_clks = \<lparr>lc_bus = None, lc_gpu = None, lc_reset = None\<rparr>"

definition demo_clk_drv :: platform_driver where
  "demo_clk_drv = \<lparr>dr_probe = Some (\<lambda>d w. map_option (\<lambda>(r, c, w'). (r, w')) (bridge_clk_init demo_shims d no_clks w)), dr_remove = None,
     dr_suspend = None, dr_resume = None, dr_of_match_table = None\<rparr>"

lemma demo_bound: "life demo_world 0 (demo_on None)"
  by (rule attach_ok_life [OF demo_attached(1) demo_probe_field(1) demo_behaves demo_world_fresh(1)])

lemma demo_pll: "pll_answers demo_shims (demo_device_env m)"
  by (simp add: pll_answers_def demo_shims_def demo_device_env_def lima_ccu_force_pll_gpu_def)

lemma demo_stage: "lima_clk_stage (sh_stage demo_shims) = LIMA_CLK_STAGE_FULL"
  by (simp add: demo_shims_def lima_clk_stage_def LIMA_CLK_STAGE_FULL_def LIMA_CLK_STAGE_NONE_def)

lemma demo_clk_attach: "map_option fst (lkpi_platform_bus_attach demo_bus_env 0 demo_clk_drv demo_world) = Some OK"
  "map_option fst (bridge_clk_init demo_shims 0 no_clks (demo_on None)) = Some OK"
  by code_simp+

theorem lima_clk_init_refines_shims_witness:
  "\<exists>c w'. bridge_clk_init demo_shims 0 no_clks (demo_on None) = Some (OK, c, w') \<and> life demo_world 0 w' \<and> lc_bus c = Some 1"
proof -
  have "\<exists>c' w'. bridge_clk_init demo_shims 0 no_clks (demo_on None) = Some (fst (lima_clk_init (seen demo_shims (demo_device_env True)) demo_device), c', w') \<and>
      clk_sim demo_shims (demo_on None) demo_device w' (snd (lima_clk_init (seen demo_shims (demo_device_env True)) demo_device)) \<and>
      drv_run 0 (demo_on None) w' \<and> life demo_world 0 w' \<and>
      (fst (lima_clk_init (seen demo_shims (demo_device_env True)) demo_device) = OK \<longrightarrow>
        handles_ok demo_shims c' w' (snd (lima_clk_init (seen demo_shims (demo_device_env True)) demo_device)))"
    by (rule lima_clk_init_refines_shims [OF demo_bound demo_world_fresh(1) demo_pll])
  then obtain r dev c' w' where w': "bridge_clk_init demo_shims 0 no_clks (demo_on None) = Some (r, c', w')" "life demo_world 0 w'"
    "r = OK \<longrightarrow> handles_ok demo_shims c' w' dev" by blast
  then have "r = OK" using demo_clk_attach(2) by simp
  then show ?thesis using w' by (auto simp: handles_ok_def demo_shims_def)
qed


section \<open>Interrupts\<close>

definition demo_blocks :: block_env where
  "demo_blocks = \<lparr>bi_bus = demo_bus_env\<lparr>be_irq_names := [''gp'' \<mapsto> 0]\<rparr>, bi_other = (\<lambda>_ _ w. (E ENXIO, w)), bi_request = (\<lambda>_. demo_re),
     bi_handler = (\<lambda>_. 40), bi_arg = (\<lambda>_. 50), bi_before = (\<lambda>_. OK), bi_after = (\<lambda>_. OK)\<rparr>"

lemma demo_blocks_up: "fst (foreach (bridge_init_ip demo_blocks 0 lima_gpu_mali400) (demo_on None) [lima_ip_l2_cache0, lima_ip_gp]) = OK"
  by code_simp

theorem lima_irqs_reach_their_blocks_witness:
  "\<exists>w' e. foreach (bridge_init_ip demo_blocks 0 lima_gpu_mali400) (demo_on None) [lima_ip_l2_cache0, lima_ip_gp] = (OK, w') \<and>
     serves demo_blocks 0 w' lima_ip_gp e"
proof -
  obtain w' where w': "foreach (bridge_init_ip demo_blocks 0 lima_gpu_mali400) (demo_on None) [lima_ip_l2_cache0, lima_ip_gp] = (OK, w')"
    using demo_blocks_up by (metis prod.collapse)
  have "needs_irq lima_gpu_mali400 lima_ip_gp" by (simp add: needs_irq_def requests_irq_def desc_def)
  then show ?thesis using lima_irqs_reach_their_blocks [OF demo_bound demo_world_fresh(1) w'] w' by auto
qed

end
