(* ===== verification/Spec2Isabelle.thy ===== *)
theory Spec2Isabelle
  imports Lima_Bridge_Demo
begin

text \<open>
  A verification library for the FreeBSD port of the lima driver for Mali-400 and Mali-450 GPUs.

  \<^bold>\<open>The program.\<close> A platform bridge (\<open>linux/platform_device.c\<close>, \<open>linux/platform_logic.h\<close>, \<open>linux/interrupt.h\<close>)
  lets newbus attach a Linux platform driver: it allocates the resources of a device-tree node, hands out interrupt
  tokens and DMA tags, and calls probe and remove of the driver. The shims \<open>linux/clk.h\<close>, \<open>linux/reset.h\<close> and
  \<open>linux/regulator/consumer.h\<close> hang what the driver acquires on the device. The driver (\<open>lima_drv.c\<close>) brings the
  device up (\<open>lima_device.c\<close>): clocks, reset, supply and a table of IP blocks, one file each (MMU, L2 cache, power unit,
  geometry processor, pixel processors). A user opens a file, which has an address space (\<open>lima_vm.c\<close>) and contexts
  (\<open>lima_ctx.c\<close>), creates buffer objects (\<open>lima_gem.c\<close> over the helper \<open>drm/drm_gem_shmem_helper.c\<close>), and
  submits jobs, which the scheduler (\<open>lima_sched.c\<close>) runs on one of two pipes, with callbacks of the processors.

  \<^bold>\<open>Theories and sources.\<close>
  \<^item> \<open>Lima_Prelude\<close>: machine integers, error codes, the return convention \<open>rc\<close>, word and page arithmetic.
  \<^item> \<open>Lima_Regs\<close> (\<open>lima_regs.h\<close>, \<open>readl_poll_timeout\<close>, \<open>lima_poll_timeout\<close>), \<open>Lima_IP\<close> (\<open>lima_device.h\<close>): registers; the
    hardware is a function \<open>hw\<close> of the history of accesses, so the order of reads and writes is observable.
  \<^item> \<open>Shmem_Logic\<close>, \<open>Shmem_Helper\<close>, \<open>Shmem_Lifecycle\<close> (\<open>drm/drm_gem_shmem_logic.h\<close>, \<open>drm_gem_shmem_helper.c\<close> and \<open>.h\<close>):
    the pages of a buffer object; its life as a step relation with the accounting invariant.
  \<^item> \<open>Lima_VM\<close>, \<open>Lima_Page_Table\<close>, \<open>Lima_VM_Spec\<close> (\<open>lima_vm.c\<close>, \<open>lima_vm.h\<close>): two-level page tables as memory, the
    interface \<open>page_table\<close>, and attaching and detaching objects.
  \<^item> \<open>Lima_Gem\<close>, \<open>Lima_Gem_Spec\<close> (\<open>lima_gem.c\<close>, \<open>lima_gem.h\<close>): heap objects, creation, the hooks of the GEM core.
  \<^item> \<open>Lima_MMU\<close>, \<open>Lima_Power\<close> (\<open>lima_l2_cache.c\<close>, \<open>lima_pmu.c\<close>, \<open>lima_bcast.c\<close>, \<open>lima_dlbu.c\<close>), \<open>Lima_GP\<close>, \<open>Lima_PP\<close>: the IP
    blocks, each with its commands, interrupts, resets and jobs.
  \<^item> \<open>Lima_Pipes\<close>: the contract \<open>pipe_backend\<close> of the callbacks of a pipe, interpreted for both pipes; \<open>Lima_Sched\<close>,
    \<open>Lima_Sched_Spec\<close>, \<open>Lima_Sched_Fini\<close> (\<open>lima_sched.c\<close>): running, completing, faulting, timing out, tearing down.
  \<^item> \<open>Lima_Submit\<close>, \<open>Lima_Submit_Spec\<close>: \<open>lima_gem_submit\<close> and the life of a job until it is freed.
  \<^item> \<open>Lima_Dump\<close> (\<open>lima_dump.h\<close>, the dump of \<open>lima_sched.c\<close>), \<open>Lima_Ctx\<close> (\<open>lima_ctx.c\<close>).
  \<^item> \<open>Lima_Device\<close>, \<open>Lima_Device_Spec\<close>, \<open>Lima_Device_Demo\<close> (\<open>lima_device.c\<close>, \<open>lima_ccu_debug.c\<close>, \<open>lima_devfreq.h\<close>):
    bring-up, shutdown, suspend and resume.
  \<^item> \<open>Lima_Ioctl\<close>, \<open>Lima_Ioctl_Spec\<close> (\<open>lima_drv.c\<close>): the ioctls, open and close of a file.
  \<^item> \<open>Platform_Logic\<close>, \<open>Platform_Device\<close>, \<open>Platform_Shims\<close> (with \<open>drm/drm_utils_freebsd.c\<close>): the bridge and the shims;
    \<open>Platform_Spec\<close>, \<open>Platform_Attach\<close>, \<open>Platform_Detach\<close>: the life of a device between attach and detach.
  \<^item> \<open>Lima_Drv\<close>, \<open>Lima_Drv_Spec\<close>, \<open>Lima_Error\<close>, \<open>Lima_Drv_Demo\<close> (\<open>lima_drv.c\<close>): match table, probe and remove on top of the
    bridge and the device; the block reader and the error state behind \<open>hw.lima_error\<close>.
  \<^item> \<open>Lima_Bridge\<close>, \<open>Lima_Irq\<close>, \<open>Lima_Bridge_Demo\<close> (\<open>lima_device.c\<close> again): clocks, reset line and the interrupts of the
    blocks translated over the shims and the bridge, with pointers; \<open>Lima_Device\<close>, which counts, abstracts from it.

  \<^bold>\<open>State.\<close> Structures are records with the fields the code reads and writes; memory that is shared or freed is a map from
  numbers to \<open>option\<close>, \<open>None\<close> for freed, and an operation that follows freed or null memory has the result \<open>None\<close>.
  Integers keep their width (\<open>u32\<close>, \<open>u64\<close>); what the kernel, the buses or the user answer is in the \<open>_env\<close> records.
\<close>

text \<open>
  \<^bold>\<open>What the lemmas show.\<close>
  \<^item> Invariants over step relations: pages and wirings of an object (\<open>shm_step\<close>), references of a pipe (\<open>pipe_step\<close>),
    contexts (\<open>ctx_step\<close>), a bound device (\<open>drv_step\<close>), the error list (\<open>error_step\<close>), a broadcast job (\<open>pp_bcast_job\<close>).
  \<^item> Unwinding: creation of objects and contexts, submission, bring-up, attach and probe either succeed or give back what
    they took; for submission, bring-up, suspend, attach and probe also the way back is a round trip.
  \<^item> Refinement: the clocks and the reset line over the shims against the counters of \<open>Lima_Device\<close> (\<open>clk_sim\<close>), the walk
    of the GPU against the entries the CPU writes.
  \<^item> Functional behaviour: the mappings of an address space against the walk of the GPU, growth of a heap, the start and
    recovery of jobs, the routing of an interrupt to its handler, the GPU a node selects, the slice a block reader copies.
  \<^item> Bounds, termination and defects: where the unmap loop does not end, where a dump overruns its buffer, what a late
    timeout or a stuck job does to a pipe. The last are theorems about the code as it is.

  \<^bold>\<open>Bounds and loops.\<close> Loops over arrays and lists recurse structurally. \<open>readl_poll_timeout\<close> counts down its own limit.
  The unbounded \<open>lima_poll_timeout\<close> and the unmap loop are partial functions into \<open>option\<close>; the first returns whenever
  \<open>clock_advances\<close> holds of the hardware, the second exactly under the condition of \<open>lima_vm_unmap_range_returns_iff\<close>.
  Nothing uses fuel.

  \<^bold>\<open>Not modelled.\<close> Locks and memory barriers: each operation is one step, and interleavings are sequences of steps. The
  kernel, linuxkpi and the DRM core (scheduler threads, fences, the GEM handle table, \<open>drm_mm\<close>, newbus, busdma) are
  parameters. Messages and printing (\<open>lima_vm_print\<close>, \<open>drm_gem_shmem_print_info\<close>, the printing of \<open>lima_ccu_dump\<close>), the
  empty trace functions of \<open>lima_trace.h\<close>, module metadata and registration tables, and the inline wrappers of
  \<open>linux/platform_device.h\<close> that only forward. The programs under \<open>tests/\<close>, the patches and the documentation are
  not part of the driver.
\<close>

end
